(* ===== verification/Prelude.thy ===== *)
theory Prelude
  imports Complex_Main "HOL-Library.Char_ord" "HOL-Library.List_Lexorder"
    "HOL-Library.AList" "HOL-Library.Multiset" "HOL-Library.State_Monad" "HOL-Library.Sublist"
begin

text \<open>
  The shared base of the development: the Go values the runner computes with (formatted
  messages, error values, decoded JSON), the functions of the Go packages \<open>strings\<close>,
  \<open>strconv\<close> and \<open>sort\<close> that the runner calls, maps as association lists together
  with the unspecified order in which Go ranges over a map, and the lemmas and simp sets
  the component theories share. A Go string is a sequence of bytes, so it is a
  \<^typ>\<open>string\<close>; the runner's character tests all compare against ASCII, where ranging
  over runes and over bytes accept the same strings.
\<close>

named_theorems go_simps \<open>unfolding rules for the Go string library\<close>
named_theorems wp_simps \<open>weakest preconditions of the operations of the program monad\<close>

section \<open>Formatted text and errors\<close>

text \<open>
  A message built by \<open>fmt.Sprintf\<close> or \<open>fmt.Errorf\<close> is kept as its format literal and
  its arguments; an error wrapped with \<open>%w\<close> or printed with \<open>%v\<close> is the argument
  \<^term>\<open>FE\<close>. An error value is such a text. \<open>nil\<close> is \<^const>\<open>None\<close>.
\<close>

datatype fmtarg = FS string | FD int | FE gotext | FL "gotext list"
  and gotext = Fmt string "fmtarg list"

type_synonym goerr = gotext
type_synonym 'a res = "goerr + 'a"

text \<open>\<open>errors.Is\<close> for a sentinel: the error is the sentinel or wraps it.\<close>

fun errors_Is :: "gotext \<Rightarrow> gotext \<Rightarrow> bool"
  and arg_Is :: "fmtarg \<Rightarrow> gotext \<Rightarrow> bool" where
  "errors_Is (Fmt f as) t = (Fmt f as = t \<or> (\<exists>a\<in>set as. arg_Is a t))"
| "arg_Is (FS s) t = False"
| "arg_Is (FD n) t = False"
| "arg_Is (FE e) t = errors_Is e t"
| "arg_Is (FL es) t = False"

text \<open>Decoded JSON values (\<open>any\<close> in a payload map); a JSON number is a \<open>float64\<close>.\<close>

datatype json = JNull | JBool bool | JNum rat | JStr string | JText gotext
  | JArr "json list" | JObj "(string \<times> json) list"

type_synonym payload = "(string \<times> json) list"

text \<open>Go's conversion of a \<open>float64\<close> to an integer type truncates towards zero.\<close>

definition go_trunc :: "rat \<Rightarrow> int" where
  "go_trunc r = (if r < 0 then - \<lfloor>- r\<rfloor> else \<lfloor>r\<rfloor>)"

abbreviation isOk :: "'e + 'a \<Rightarrow> bool" where
  "isOk r \<equiv> \<not> isl r"

section \<open>Package strings\<close>

definition HasPrefix :: "string \<Rightarrow> string \<Rightarrow> bool" where
  "HasPrefix s p = (take (length p) s = p)"

definition HasSuffix :: "string \<Rightarrow> string \<Rightarrow> bool" where
  "HasSuffix s p = (length p \<le> length s \<and> drop (length s - length p) s = p)"

definition TrimPrefix :: "string \<Rightarrow> string \<Rightarrow> string" where
  "TrimPrefix s p = (if HasPrefix s p then drop (length p) s else s)"

definition TrimSuffix :: "string \<Rightarrow> string \<Rightarrow> string" where
  "TrimSuffix s p = (if HasSuffix s p then take (length s - length p) s else s)"

text \<open>\<open>strings.Index\<close> and \<open>strings.LastIndex\<close>; the result \<open>-1\<close> is \<^const>\<open>None\<close>.\<close>

fun Index :: "string \<Rightarrow> string \<Rightarrow> nat option" where
  "Index [] p = (if p = [] then Some 0 else None)"
| "Index (c # cs) p = (if HasPrefix (c # cs) p then Some 0 else map_option Suc (Index cs p))"

fun LastIndex :: "string \<Rightarrow> string \<Rightarrow> nat option" where
  "LastIndex [] p = (if p = [] then Some 0 else None)"
| "LastIndex (c # cs) p =
     (case LastIndex cs p of
        Some i \<Rightarrow> Some (Suc i)
      | None \<Rightarrow> if HasPrefix (c # cs) p then Some 0 else None)"

definition Contains :: "string \<Rightarrow> string \<Rightarrow> bool" where
  "Contains s p = (Index s p \<noteq> None)"

definition ContainsAny :: "string \<Rightarrow> string \<Rightarrow> bool" where
  "ContainsAny s cs = list_ex (\<lambda>c. c \<in> set cs) s"

text \<open>\<open>strings.Split\<close> with a separator of one byte: always at least one part.\<close>

fun Split :: "string \<Rightarrow> char \<Rightarrow> string list" where
  "Split [] d = [[]]"
| "Split (c # cs) d =
     (if c = d then [] # Split cs d
      else case Split cs d of [] \<Rightarrow> [[c]] | p # ps \<Rightarrow> (c # p) # ps)"

definition is_space :: "char \<Rightarrow> bool" where
  "is_space c = (c \<in> {CHR 0x09, CHR 0x0A, CHR 0x0B, CHR 0x0C, CHR 0x0D, CHR '' ''})"

text \<open>\<open>strings.Fields\<close> and \<open>strings.TrimSpace\<close> on ASCII input.\<close>

fun fields_aux :: "string \<Rightarrow> string \<Rightarrow> string list" where
  "fields_aux [] w = (if w = [] then [] else [w])"
| "fields_aux (c # cs) w =
     (if is_space c then (if w = [] then fields_aux cs [] else w # fields_aux cs [])
      else fields_aux cs (w @ [c]))"

definition Fields :: "string \<Rightarrow> string list" where
  "Fields s = fields_aux s []"

definition TrimSpace :: "string \<Rightarrow> string" where
  "TrimSpace s = rev (dropWhile is_space (rev (dropWhile is_space s)))"

definition ToLower :: "string \<Rightarrow> string" where
  "ToLower s = map (\<lambda>c. if CHR ''A'' \<le> c \<and> c \<le> CHR ''Z'' then char_of (of_char c + (32::nat)) else c) s"

fun joinWith :: "string \<Rightarrow> string list \<Rightarrow> string" where
  "joinWith sep [] = []"
| "joinWith sep [x] = x"
| "joinWith sep (x # xs) = x @ sep @ joinWith sep xs"

section \<open>Package strconv\<close>

definition is_digit :: "char \<Rightarrow> bool" where
  "is_digit c = (CHR ''0'' \<le> c \<and> c \<le> CHR ''9'')"

definition digit_val :: "char \<Rightarrow> int" where
  "digit_val c = int (of_char c) - 48"

definition digits_val :: "string \<Rightarrow> int" where
  "digits_val = foldl (\<lambda>n c. 10 * n + digit_val c) 0"

text \<open>
  \<open>strconv.Atoi\<close> (and \<open>ParseInt(s, 10, 64)\<close>): an optional sign and at least one
  digit, the value within 64 signed bits; anything else is the error, here \<^const>\<open>None\<close>.
\<close>

definition int64_range :: "int \<Rightarrow> bool" where
  "int64_range n = (- (2 ^ 63) \<le> n \<and> n < 2 ^ 63)"

definition Atoi :: "string \<Rightarrow> int option" where
  "Atoi s =
     (let neg = HasPrefix s ''-'';
          body = (if HasPrefix s ''-'' \<or> HasPrefix s ''+'' then drop 1 s else s);
          n = (if neg then - digits_val body else digits_val body)
      in if body \<noteq> [] \<and> list_all is_digit body \<and> int64_range n then Some n else None)"

fun nat_digits :: "nat \<Rightarrow> string" where
  "nat_digits n =
     (if n < 10 then [char_of (48 + n)]
      else nat_digits (n div 10) @ [char_of (48 + n mod 10)])"

declare nat_digits.simps [simp del]

definition Itoa :: "int \<Rightarrow> string" where
  "Itoa n = (if n < 0 then CHR ''-'' # nat_digits (nat (- n)) else nat_digits (nat n))"

section \<open>Maps and their iteration order\<close>

text \<open>
  A Go map is an association list with distinct keys. Ranging over it visits the entries
  in an unspecified order: \<open>shuffle ks m\<close> is that order, chosen by the numbers \<open>ks\<close>
  (whichever they are, each entry is visited once).
\<close>

fun shuffle :: "nat list \<Rightarrow> 'a list \<Rightarrow> 'a list" where
  "shuffle ks [] = []"
| "shuffle [] xs = xs"
| "shuffle (k # ks) (x # xs) =
     (let i = k mod Suc (length xs); ys = x # xs
      in ys ! i # shuffle ks (take i ys @ drop (Suc i) ys))"

definition lookup_str :: "(string \<times> string) list \<Rightarrow> string \<Rightarrow> string" where
  "lookup_str m k = (case map_of m k of Some v \<Rightarrow> v | None \<Rightarrow> [])"

section \<open>Lemmas on strings\<close>

lemma HasPrefix_iff [go_simps]: "HasPrefix s p \<longleftrightarrow> (\<exists>t. s = p @ t)"
  by (metis HasPrefix_def append_eq_conv_conj append_take_drop_id)

lemma HasPrefix_append [simp]: "HasPrefix (p @ t) p"
  by (simp add: HasPrefix_def)

lemma HasSuffix_iff [go_simps]: "HasSuffix s p \<longleftrightarrow> (\<exists>t. s = t @ p)"
proof
  assume "HasSuffix s p"
  then have "s = take (length s - length p) s @ p"
    by (metis HasSuffix_def append_take_drop_id)
  then show "\<exists>t. s = t @ p" by blast
qed (auto simp: HasSuffix_def)

lemma HasSuffix_append [simp]: "HasSuffix (t @ p) p"
  by (auto simp: HasSuffix_iff)

lemma TrimSuffix_append [simp]: "TrimSuffix (t @ p) p = t"
  by (simp add: TrimSuffix_def)

lemma TrimPrefix_append [simp]: "TrimPrefix (p @ t) p = t"
  by (simp add: TrimPrefix_def)

text \<open>\<open>Index\<close> returns the first position at which the pattern occurs.\<close>

lemma Index_Some_split:
  "Index s p = Some i \<Longrightarrow> \<exists>t. s = take i s @ p @ t \<and> length (take i s) = i"
proof (induction s arbitrary: i)
  case (Cons c cs)
  show ?case
  proof (cases "HasPrefix (c # cs) p")
    case True
    with Cons.prems show ?thesis by (auto simp: HasPrefix_iff)
  next
    case False
    with Cons.prems obtain j where "Index cs p = Some j" "i = Suc j" by auto
    with Cons.IH show ?thesis by auto
  qed
qed (auto split: if_splits)

lemma Index_Some_first:
  "Index s p = Some i \<Longrightarrow> j < i \<Longrightarrow> \<not> HasPrefix (drop j s) p"
proof (induction s arbitrary: i j)
  case (Cons c cs)
  then show ?case by (cases j) (auto split: if_splits)
qed (auto split: if_splits)

lemma Index_None_iff: "Index s p = None \<longleftrightarrow> (\<forall>j\<le>length s. \<not> HasPrefix (drop j s) p)"
proof (induction s)
  case Nil
  then show ?case by (auto simp: HasPrefix_def)
next
  case (Cons c cs)
  have "(\<forall>j\<le>length (c # cs). \<not> HasPrefix (drop j (c # cs)) p) \<longleftrightarrow>
      \<not> HasPrefix (c # cs) p \<and> (\<forall>j\<le>length cs. \<not> HasPrefix (drop j cs) p)"
    by (metis (no_types, lifting) Suc_le_mono drop0 drop_Suc_Cons le0 length_Cons not0_implies_Suc)
  with Cons.IH show ?case by simp
qed

lemma Contains_iff: "Contains s p \<longleftrightarrow> (\<exists>u v. s = u @ p @ v)"
proof
  assume "Contains s p"
  then obtain i where "Index s p = Some i" by (auto simp: Contains_def)
  then show "\<exists>u v. s = u @ p @ v" by (blast dest: Index_Some_split)
next
  assume "\<exists>u v. s = u @ p @ v"
  then obtain u v where s: "s = u @ p @ v" by blast
  then have "HasPrefix (drop (length u) s) p" "length u \<le> length s" by simp_all
  then show "Contains s p" by (auto simp: Contains_def Index_None_iff)
qed

lemma ContainsAny_iff [go_simps]: "ContainsAny s cs \<longleftrightarrow> (\<exists>c\<in>set s. c \<in> set cs)"
  by (simp add: ContainsAny_def list_ex_iff)

text \<open>\<open>LastIndex\<close> of a single byte cuts a string at its last occurrence.\<close>

lemma HasPrefix_single: "HasPrefix s [d] \<longleftrightarrow> (\<exists>t. s = d # t)"
  by (simp add: HasPrefix_iff)

lemma LastIndex_single_None: "LastIndex s [d] = None \<longleftrightarrow> d \<notin> set s"
  by (induction s) (auto simp: HasPrefix_single split: option.splits)

lemma LastIndex_single:
  assumes "d \<notin> set t"
  shows "LastIndex (u @ d # t) [d] = Some (length u)"
proof (induction u)
  case Nil
  from assms have "LastIndex t [d] = None" by (simp add: LastIndex_single_None)
  then show ?case by (simp add: HasPrefix_single)
qed simp

lemma LastIndex_single_Some:
  "LastIndex s [d] = Some i \<Longrightarrow> \<exists>u t. s = u @ d # t \<and> length u = i \<and> d \<notin> set t"
proof (induction s arbitrary: i)
  case (Cons c cs)
  show ?case
  proof (cases "LastIndex cs [d]")
    case None
    with Cons.prems have "c = d" "i = 0"
      by (auto simp: HasPrefix_single split: if_splits)
    moreover from None have "d \<notin> set cs" by (simp add: LastIndex_single_None)
    ultimately show ?thesis by (metis append_Nil list.size(3))
  next
    case (Some j)
    with Cons.prems have i: "i = Suc j" by simp
    from Cons.IH [OF Some] obtain u t where "cs = u @ d # t" "length u = j" "d \<notin> set t"
      by blast
    with i show ?thesis by (metis append_Cons length_Cons)
  qed
qed simp

text \<open>
  Patterns that begin and end with the same separator byte and hold no other: appending a
  segment without that byte creates no new occurrence, and the first occurrence in a
  string that holds none before it is the one that was put there.
\<close>

lemma Contains_snoc_sep:
  assumes "Contains (x @ d # suf) (w @ [d])" and "d \<notin> set suf"
  shows "Contains (x @ [d]) (w @ [d])"
proof -
  from assms(1) obtain u v where uv: "(x @ [d]) @ suf = (u @ w @ [d]) @ v"
    by (auto simp: Contains_iff)
  then consider t where "u @ w @ [d] = (x @ [d]) @ t" "t @ v = suf"
    | t where "x @ [d] = (u @ w @ [d]) @ t"
    using append_eq_append_conv2 [THEN iffD1, OF uv] by metis
  then show ?thesis
  proof cases
    case 1
    have "t = []"
    proof (rule ccontr)
      assume "t \<noteq> []"
      with arg_cong [OF 1(1), of last] have "last t = d" by simp
      with \<open>t \<noteq> []\<close> have "d \<in> set t" by (metis last_in_set)
      with 1(2) assms(2) show False by auto
    qed
    with 1(1) have "x @ [d] = u @ (w @ [d]) @ []" by simp
    then show ?thesis unfolding Contains_iff by blast
  next
    case 2
    then have "x @ [d] = u @ (w @ [d]) @ t" by simp
    then show ?thesis unfolding Contains_iff by blast
  qed
qed

lemma Contains_snoc:
  assumes "Contains (y @ [d]) (w @ [d])"
  shows "Contains y (w @ [d]) \<or> HasSuffix y w"
proof -
  from assms obtain u v where uv: "y @ [d] = u @ (w @ [d]) @ v" by (auto simp: Contains_iff)
  show ?thesis
  proof (cases v rule: rev_cases)
    case Nil
    with uv have "y = u @ w" by simp
    then show ?thesis by (simp add: HasSuffix_iff)
  next
    case (snoc v' c)
    with uv have "y = u @ (w @ [d]) @ v'" by simp
    then show ?thesis unfolding Contains_iff by blast
  qed
qed

lemma overlap_sep:
  assumes eq: "y @ (d # m @ [d]) @ rest = (d # m @ [d]) @ t" and "y \<noteq> []" and "d \<notin> set m"
  shows "\<exists>v. y @ [d] = (d # m @ [d]) @ v"
proof -
  let ?P = "d # m @ [d]"
  have nth: "(?P @ t) ! length y = d"
    using eq [symmetric] by simp
  show ?thesis
  proof (cases "length y < length ?P")
    case True
    have "length y = length ?P - 1"
    proof (rule ccontr)
      assume "length y \<noteq> length ?P - 1"
      with True \<open>y \<noteq> []\<close> have k: "length y - 1 < length m" "length y = Suc (length y - 1)"
        by (cases y; simp)+
      then have "(?P @ t) ! length y = m ! (length y - 1)"
        by (metis append_Cons append_assoc nth_Cons_Suc nth_append)
      with nth k(1) \<open>d \<notin> set m\<close> show False by (metis nth_mem)
    qed
    then have len: "length y = length (d # m)" by simp
    from eq have "y @ (?P @ rest) = (d # m) @ ([d] @ t)" by simp
    with len have "y = d # m" by (metis append_eq_append_conv)
    then show ?thesis by simp
  next
    case False
    with arg_cong [OF eq, of "take (length ?P)"] have "take (length ?P) y = ?P" by simp
    then show ?thesis by (metis append_take_drop_id append.assoc)
  qed
qed

lemma Index_sep:
  assumes "\<not> Contains (x @ [d]) (d # m @ [d])" and "d \<notin> set m"
  shows "Index (x @ (d # m @ [d]) @ rest) (d # m @ [d]) = Some (length x)"
proof -
  let ?P = "d # m @ [d]"
  let ?s = "x @ ?P @ rest"
  have "Contains ?s ?P" unfolding Contains_iff by blast
  then obtain i where i: "Index ?s ?P = Some i" by (auto simp: Contains_def)
  have hp: "HasPrefix (drop (length x) ?s) ?P" by (simp add: HasPrefix_def)
  have "\<not> length x < i"
    using Index_Some_first [OF i, of "length x"] hp by blast
  moreover have "\<not> i < length x"
  proof
    assume less: "i < length x"
    from Index_Some_split [OF i] obtain t where t: "?s = take i ?s @ ?P @ t" by blast
    then have "drop i ?s = ?P @ t"
      by (metis (no_types, lifting) append_take_drop_id same_append_eq)
    with less have "drop i x @ ?P @ rest = ?P @ t" by simp
    from overlap_sep [OF this _ assms(2)] less obtain v where "drop i x @ [d] = ?P @ v"
      by auto
    then have "x @ [d] = take i x @ ?P @ v"
      by (metis append.assoc append_take_drop_id)
    with assms(1) show False unfolding Contains_iff by blast
  qed
  ultimately show ?thesis using i by simp
qed

section \<open>Lemmas on numbers and maps\<close>

lemma char_digit: "n < 10 \<Longrightarrow> is_digit (char_of (48 + n)) \<and> digit_val (char_of (48 + n :: nat)) = int n"
  by (simp add: is_digit_def digit_val_def less_eq_char_def)

lemma digits_val_snoc: "digits_val (xs @ [c]) = 10 * digits_val xs + digit_val c"
  by (simp add: digits_val_def)

lemma nat_digits_props:
  "nat_digits n \<noteq> [] \<and> list_all is_digit (nat_digits n) \<and> digits_val (nat_digits n) = int n"
proof (induction n rule: nat_digits.induct)
  case (1 n)
  show ?case
  proof (cases "n < 10")
    case True
    then show ?thesis
      by (simp add: nat_digits.simps [of n] char_digit digits_val_def)
  next
    case False
    have "n mod 10 < 10" by simp
    note d = char_digit [OF this]
    have "10 * int (n div 10) + int (n mod 10) = int n"
      by (simp add: zdiv_int zmod_int)
    with 1 [OF False] False d show ?thesis
      by (simp add: nat_digits.simps [of n] digits_val_snoc)
  qed
qed

lemma hd_nat_digits: "is_digit (hd (nat_digits n))"
  using nat_digits_props [of n] by (cases "nat_digits n") auto

lemma nat_digits_no_sign: "\<not> HasPrefix (nat_digits n) ''-''" "\<not> HasPrefix (nat_digits n) ''+''"
  using hd_nat_digits [of n]
  by (auto simp: HasPrefix_iff is_digit_def less_eq_char_def)

text \<open>Printing an integer with \<open>%d\<close> and reading it with \<open>Atoi\<close> gives it back.\<close>

lemma Atoi_Itoa: "int64_range n \<Longrightarrow> Atoi (Itoa n) = Some n"
proof (cases "n < 0")
  case True
  assume "int64_range n"
  with True nat_digits_props [of "nat (- n)"] show ?thesis
    by (simp add: Atoi_def Itoa_def Let_def HasPrefix_def)
next
  case False
  assume "int64_range n"
  with False nat_digits_props [of "nat n"] nat_digits_no_sign [of "nat n"] show ?thesis
    by (simp add: Atoi_def Itoa_def Let_def)
qed

lemma Itoa_inj: "int64_range m \<Longrightarrow> int64_range n \<Longrightarrow> Itoa m = Itoa n \<Longrightarrow> m = n"
  by (metis Atoi_Itoa option.inject)

text \<open>Whatever the iteration order, ranging over a map visits each entry exactly once.\<close>

lemma mset_shuffle [simp]: "mset (shuffle ks xs) = mset xs"
proof (induction ks xs rule: shuffle.induct)
  case (3 k ks x xs)
  let ?i = "k mod Suc (length xs)" and ?ys = "x # xs"
  have i: "?i < length ?ys" by simp
  have "mset ?ys = mset (take ?i ?ys @ ?ys ! ?i # drop (Suc ?i) ?ys)"
    using i by (metis id_take_nth_drop)
  with 3 show ?case by (simp add: Let_def)
qed simp_all

lemma set_shuffle [simp]: "set (shuffle ks xs) = set xs"
  by (metis mset_shuffle set_mset_mset)

lemma length_shuffle [simp]: "length (shuffle ks xs) = length xs"
  by (metis mset_shuffle size_mset)

lemma find_SomeD: "find P xs = Some x \<Longrightarrow> x \<in> set xs \<and> P x"
  by (induction xs) (auto split: if_splits)

lemma set_alist_update: "set (AList.update k v m) \<subseteq> insert (k, v) (set m)"
  by (induction m) auto

section \<open>Splitting\<close>

lemma Split_no: "d \<notin> set s \<Longrightarrow> Split s d = [s]"
  by (induction s) auto

lemma Split_at: "d \<notin> set s \<Longrightarrow> Split (s @ d # t) d = s # Split t d"
  by (induction s) auto

end
