(* ===== verification/Host.thy ===== *)
theory Host
  imports Prelude
begin

text \<open>
  The world outside the runner and the monad its code runs in. The Docker daemon, the
  clock, the random source, the file system and the other goroutines are the parameter
  \<open>host\<close>: every answer is a function of the history of events so far, so a theorem
  for every host holds for every daemon, with a failure at any call and with any
  interference between two calls. A program (\<open>prog\<close>) appends its events to the
  history and returns a value.
\<close>

section \<open>Docker SDK types (docker/docker.go imports)\<close>

record regauth =
  ra_Username :: string
  ra_Password :: string

record ulimit =
  ul_Name :: string
  ul_Soft :: int
  ul_Hard :: int

record healthconfig =
  hcf_Test :: "string list"
  hcf_Interval :: int
  hcf_Timeout :: int
  hcf_StartPeriod :: int
  hcf_Retries :: int

record config =
  cfg_Image :: string
  cfg_Env :: "string list"
  cfg_ExposedPorts :: "string list"
  cfg_Labels :: "(string \<times> string) list"
  cfg_Cmd :: "string list"
  cfg_Entrypoint :: "string list"
  cfg_Healthcheck :: "healthconfig option"

text \<open>
  \<open>hc_CPUs\<close> is the positive CPU limit whose product with 1e9 is the field NanoCPUs.
  \<open>hc_PortBindings\<close> maps a container port (\<open>"80/tcp"\<close>) to its host port.
\<close>

record hostconfig =
  hc_PortBindings :: "(string \<times> string) list"
  hc_Binds :: "string list"
  hc_RestartPolicy :: string
  hc_CPUs :: "rat option"
  hc_Memory :: int
  hc_Ulimits :: "ulimit list"
  hc_Privileged :: bool
  hc_NetworkMode :: string

record endpoint =
  ep_Aliases :: "string list"
  ep_IPAMConfig :: "string option"

type_synonym netconfig = "(string \<times> endpoint) list"

record cstate =
  st_Running :: bool
  st_Health :: "(string \<times> int) option"
  st_ExitCode :: int

text \<open>The answer of an inspect: \<open>types.ContainerJSON\<close>, restricted to what the runner reads.\<close>

record container_json =
  cj_Name :: string
  cj_Config :: "config option"
  cj_HostConfig :: "hostconfig option"
  cj_State :: cstate
  cj_RestartCount :: int
  cj_Networks :: netconfig
  cj_Mounts :: "(string \<times> string) list"

text \<open>One entry of a container list: \<open>types.Container\<close>. Ports are the public ports.\<close>

record container =
  ct_ID :: string
  ct_Names :: "string list"
  ct_Labels :: "(string \<times> string) list"
  ct_Ports :: "nat list"
  ct_State :: string
  ct_Status :: string
  ct_Networks :: "string list"
  ct_Image :: string
  ct_Created :: int

text \<open>\<open>client.OutgoingMessage\<close> (client/websocket.go).\<close>

record message =
  om_Type :: string
  om_CommandID :: string
  om_RequestID :: string
  om_TraceID :: string
  om_Status :: string
  om_Payload :: payload

text \<open>Entries of the volume and network listings, as far as the runner reads them.\<close>

record volinfo =
  vl_Name :: string
  vl_Driver :: string
  vl_Mountpoint :: string
  vl_CreatedAt :: string
  vl_Scope :: string
  vl_Labels :: "(string \<times> string) list"

record netinfo =
  ni_ID :: string
  ni_Name :: string
  ni_Driver :: string
  ni_Scope :: string
  ni_Internal :: bool
  ni_Containers :: "(string \<times> string) list"
  ni_Created :: string

text \<open>
  A backup destination (backup/destination.go) by its configuration: S3 bucket and prefix,
  Google Drive folder, Samba server, share, user, password and path.
\<close>

datatype dest =
    DestS3 string string
  | DestGDrive string
  | DestSamba string string string string string

text \<open>What a reader yields: the bytes, and the error it ends with (none: a clean end).\<close>

type_synonym stream = "string \<times> goerr option"

text \<open>
  What a walk over a directory meets at each entry: an error, the end of the context, a
  directory, or a file with its size, if it can be read.
\<close>

datatype walkentry = WalkErr | WalkCancelled goerr | WalkDir | WalkFile "int option"

section \<open>Events\<close>

text \<open>
  Requests to the services that hold backups. Google Drive: a page of the files that match a
  query (the query, the page size and the page token, answered by the ids and the next token), the
  creation of a file (name, parents and content, answered by its id), and the update, deletion
  and download of a file by its id. S3: the download and deletion of an object, and the check
  of a bucket.
\<close>

datatype cloud =
    EvDriveList string nat string "(string list \<times> string) res"
  | EvDriveCreate string "string list" string "string res"
  | EvDriveUpdate string string "goerr option"
  | EvDriveDelete string "goerr option"
  | EvDriveGet string "stream res"
  | EvDriveAbout "goerr option"
  | EvS3Get string string "stream res"
  | EvS3Delete string string "goerr option"
  | EvS3Head string "goerr option"

text \<open>
  Requests beyond containers: the slots of the handler pool, volume and network listings,
  commands and files, database operations by name, backup destinations, and execs.
\<close>

datatype ext =
    EvAcquire string
  | EvRelease
  | EvVolList string "volinfo list res"
  | EvNetList "netinfo list res"
  | EvLogs string string "string res"
  | EvVolMount string "string res"
  | EvWalk string "walkentry list"
  | EvRun "string list" "(string \<times> string) list" "goerr option \<times> string"
  | EvMkdirTemp string "string res"
  | EvRemoveAll string
  | EvReadFile string "string res"
  | EvWriteFile string stream "goerr option"
  | EvCreateFile string "goerr option"
  | EvRemoveFile string
  | EvChmod string "goerr option"
  | EvStat string "int res"
  | EvProbePort int "goerr option"
  | EvDbCreateBegin string
  | EvDbRemoveBegin string bool
  | EvDbFinish string
  | EvGDrive "goerr option"
  | EvUploadStream dest string stream "int res"
  | EvCloud cloud
  | EvExecCreate string "string list" "string list" "string res"
  | EvExecAttach string "goerr option"
  | EvExecOutput string stream string
  | EvExecInput string stream "int \<times> goerr option"
  | EvExecInspect string "int res"
  | EvExecResize string nat nat "goerr option"
  | EvExecClose string

text \<open>
  What the runner does to the outside, in order, each request with its answer:
  Docker requests, sleeps, deployment progress reports, lifecycle log events, container
  locks, and messages handed to the WebSocket queue (\<open>True\<close>: reliable).
\<close>

datatype event =
    EvPull string "regauth option" "goerr option"
  | EvPullRead "goerr option"
  | EvCreate string config hostconfig netconfig "string res"
  | EvStart string "goerr option"
  | EvStop string int "goerr option"
  | EvKill string "goerr option"
  | EvPause string "goerr option"
  | EvUnpause string "goerr option"
  | EvRestart string int "goerr option"
  | EvRemove string bool "goerr option"
  | EvRename string string "goerr option"
  | EvInspect string "container_json res"
  | EvList string "container list res"
  | EvListLabels "(string \<times> string) list" "container list res"
  | EvNetConnect string string "string list option" "goerr option"
  | EvNetCreate string string "goerr option"
  | EvNetRemove string "goerr option"
  | EvVolCreate string string "goerr option"
  | EvVolInspect string "goerr option"
  | EvVolRemove string bool "goerr option"
  | EvSleep nat
  | EvProgress int string gotext payload
  | EvDeployLog string string
  | EvTryLock string bool
  | EvUnlock string
  | EvSend bool message
  | EvPanic string
  | EvExt ext

section \<open>The host\<close>

text \<open>
  \<open>Jitter\<close> is the time in milliseconds that requests and scheduling have added to the
  planned waits of the loop that reads it; \<open>SelectDone\<close> is Go's choice in a \<open>select\<close> whose
  context and timer are ready at the same time; \<open>LockFree\<close> whether a \<open>TryLock\<close> succeeds.
  \<open>CreateCtxErr\<close> is the error of the context of a database create, \<open>CreateInFlight\<close> whether a
  remove finds a create of its name to cancel. \<open>RunCommand\<close> runs a program with the
  arguments and the environment it is given and answers its error and its combined output;
  \<open>VolumeMount\<close> is the mount point of a volume and \<open>VolumeWalk\<close> what a walk over a directory
  meets, in order; \<open>ExecInput\<close> is the number of bytes of its input that an exec was given, and the error that cut
  them short; \<open>PageBudget\<close> is the number of pages of a Drive listing that can be asked for before the context of the request
  ends; \<open>ExecOutput\<close> is the standard output of an exec with the error it ends with, and its standard
  error. \<open>Gzip\<close>, \<open>Gunzip\<close> and \<open>Sha256Hex\<close> are the library functions of these names.
\<close>

record cloudservices =
  ListFiles :: "event list \<Rightarrow> string \<Rightarrow> nat \<Rightarrow> string \<Rightarrow> (string list \<times> string) res"
  CreateDriveFile :: "event list \<Rightarrow> string \<Rightarrow> string list \<Rightarrow> string \<Rightarrow> string res"
  UpdateDriveFile :: "event list \<Rightarrow> string \<Rightarrow> string \<Rightarrow> goerr option"
  DeleteDriveFile :: "event list \<Rightarrow> string \<Rightarrow> goerr option"
  GetDriveFile :: "event list \<Rightarrow> string \<Rightarrow> stream res"
  AboutDrive :: "event list \<Rightarrow> goerr option"
  PageBudget :: "event list \<Rightarrow> nat"
  GetObject :: "event list \<Rightarrow> string \<Rightarrow> string \<Rightarrow> stream res"
  DeleteObject :: "event list \<Rightarrow> string \<Rightarrow> string \<Rightarrow> goerr option"
  HeadBucket :: "event list \<Rightarrow> string \<Rightarrow> goerr option"

record services =
  VolumeList :: "event list \<Rightarrow> string \<Rightarrow> volinfo list res"
  NetworkList :: "event list \<Rightarrow> netinfo list res"
  ContainerLogs :: "event list \<Rightarrow> string \<Rightarrow> string \<Rightarrow> string res"
  VolumeMount :: "event list \<Rightarrow> string \<Rightarrow> string res"
  VolumeWalk :: "event list \<Rightarrow> string \<Rightarrow> walkentry list"
  RunCommand :: "event list \<Rightarrow> string list \<Rightarrow> (string \<times> string) list \<Rightarrow> goerr option \<times> string"
  MkdirTemp :: "event list \<Rightarrow> string \<Rightarrow> string res"
  ReadFile :: "event list \<Rightarrow> string \<Rightarrow> string res"
  WriteFile :: "event list \<Rightarrow> string \<Rightarrow> stream \<Rightarrow> goerr option"
  CreateFile :: "event list \<Rightarrow> string \<Rightarrow> goerr option"
  Chmod :: "event list \<Rightarrow> string \<Rightarrow> goerr option"
  FileSize :: "event list \<Rightarrow> string \<Rightarrow> int res"
  ProbePort :: "event list \<Rightarrow> int \<Rightarrow> goerr option"
  CreateCtxErr :: "event list \<Rightarrow> goerr option"
  CreateInFlight :: "event list \<Rightarrow> string \<Rightarrow> bool"
  GDriveService :: "event list \<Rightarrow> goerr option"
  DestUploadStream :: "event list \<Rightarrow> dest \<Rightarrow> string \<Rightarrow> stream \<Rightarrow> int res"
  cloud :: cloudservices
  ExecCreate :: "event list \<Rightarrow> string \<Rightarrow> string list \<Rightarrow> string list \<Rightarrow> string res"
  ExecAttach :: "event list \<Rightarrow> string \<Rightarrow> goerr option"
  ExecOutput :: "event list \<Rightarrow> string \<Rightarrow> stream \<times> string"
  ExecInput :: "event list \<Rightarrow> string \<Rightarrow> stream \<Rightarrow> int \<times> goerr option"
  ExecInspect :: "event list \<Rightarrow> string \<Rightarrow> int res"
  ExecResize :: "event list \<Rightarrow> string \<Rightarrow> nat \<Rightarrow> nat \<Rightarrow> goerr option"
  TimestampUTC :: "event list \<Rightarrow> string \<Rightarrow> string"
  CompressErr :: "event list \<Rightarrow> goerr option"
  Gzip :: "string \<Rightarrow> string"
  Gunzip :: "string \<Rightarrow> stream res"
  Sha256Hex :: "string \<Rightarrow> string"

record host =
  ImagePull :: "event list \<Rightarrow> string \<Rightarrow> regauth option \<Rightarrow> goerr option"
  PullDrain :: "event list \<Rightarrow> goerr option"
  ContainerCreate :: "event list \<Rightarrow> string \<Rightarrow> config \<Rightarrow> hostconfig \<Rightarrow> netconfig \<Rightarrow> string res"
  ContainerStart :: "event list \<Rightarrow> string \<Rightarrow> goerr option"
  ContainerStop :: "event list \<Rightarrow> string \<Rightarrow> int \<Rightarrow> goerr option"
  ContainerKill :: "event list \<Rightarrow> string \<Rightarrow> goerr option"
  ContainerPause :: "event list \<Rightarrow> string \<Rightarrow> goerr option"
  ContainerUnpause :: "event list \<Rightarrow> string \<Rightarrow> goerr option"
  ContainerRestart :: "event list \<Rightarrow> string \<Rightarrow> int \<Rightarrow> goerr option"
  ContainerRemove :: "event list \<Rightarrow> string \<Rightarrow> bool \<Rightarrow> goerr option"
  ContainerRename :: "event list \<Rightarrow> string \<Rightarrow> string \<Rightarrow> goerr option"
  ContainerInspect :: "event list \<Rightarrow> string \<Rightarrow> container_json res"
  ContainerList :: "event list \<Rightarrow> string \<Rightarrow> container list res"
  ContainerListLabels :: "event list \<Rightarrow> (string \<times> string) list \<Rightarrow> container list res"
  NetworkConnect :: "event list \<Rightarrow> string \<Rightarrow> string \<Rightarrow> goerr option"
  NetworkCreate :: "event list \<Rightarrow> string \<Rightarrow> string \<Rightarrow> goerr option"
  NetworkRemove :: "event list \<Rightarrow> string \<Rightarrow> goerr option"
  VolumeCreate :: "event list \<Rightarrow> string \<Rightarrow> string \<Rightarrow> goerr option"
  VolumeInspect :: "event list \<Rightarrow> string \<Rightarrow> goerr option"
  VolumeRemove :: "event list \<Rightarrow> string \<Rightarrow> bool \<Rightarrow> goerr option"
  StatfsAvail :: "event list \<Rightarrow> nat option"
  UnixNano :: "event list \<Rightarrow> int"
  Jitter :: "event list \<Rightarrow> nat"
  CtxErr :: "event list \<Rightarrow> goerr option"
  SelectDone :: "event list \<Rightarrow> bool"
  RandBytes :: "event list \<Rightarrow> nat list"
  MapOrder :: "event list \<Rightarrow> string \<Rightarrow> nat list"
  LockFree :: "event list \<Rightarrow> string \<Rightarrow> bool"
  ParseDuration :: "string \<Rightarrow> int option"
  svc :: services

text \<open>
  A concrete host, for witnesses: every request succeeds at once, nothing exists yet, a
  container is named after itself and runs, and every lock is free.
\<close>

definition idle_config :: config where
  "idle_config = \<lparr>cfg_Image = ''img'', cfg_Env = [], cfg_ExposedPorts = [], cfg_Labels = [],
     cfg_Cmd = [], cfg_Entrypoint = [], cfg_Healthcheck = None\<rparr>"

definition idle_hostconfig :: hostconfig where
  "idle_hostconfig = \<lparr>hc_PortBindings = [], hc_Binds = [], hc_RestartPolicy = [], hc_CPUs = None,
     hc_Memory = 0, hc_Ulimits = [], hc_Privileged = False, hc_NetworkMode = []\<rparr>"

definition running_container :: "string \<Rightarrow> container_json" where
  "running_container n = \<lparr>cj_Name = CHR ''/'' # n, cj_Config = Some idle_config,
     cj_HostConfig = Some idle_hostconfig,
     cj_State = \<lparr>st_Running = True, st_Health = None, st_ExitCode = 0\<rparr>,
     cj_RestartCount = 0, cj_Networks = [], cj_Mounts = []\<rparr>"

definition calm_cloud :: cloudservices where
  "calm_cloud = \<lparr>ListFiles = \<lambda>_ _ _ _. Inr ([], []), CreateDriveFile = \<lambda>_ n _ _. Inr (''file-'' @ n), UpdateDriveFile = \<lambda>_ _ _. None,
     DeleteDriveFile = \<lambda>_ _. None, GetDriveFile = \<lambda>_ _. Inr ([], None), AboutDrive = \<lambda>_. None, PageBudget = \<lambda>_. 1,
     GetObject = \<lambda>_ _ _. Inr ([], None), DeleteObject = \<lambda>_ _ _. None, HeadBucket = \<lambda>_ _. None\<rparr>"

definition calm_services :: services where
  "calm_services = \<lparr>VolumeList = \<lambda>_ _. Inr [], NetworkList = \<lambda>_. Inr [],
     ContainerLogs = \<lambda>_ _ _. Inr [], VolumeMount = \<lambda>_ n. Inr (''/volumes/'' @ n), VolumeWalk = \<lambda>_ _. [], RunCommand = \<lambda>_ _ _. (None, []),
     MkdirTemp = \<lambda>_ p. Inr (''/tmp/'' @ p), ReadFile = \<lambda>_ _. Inr [], WriteFile = \<lambda>_ _ _. None, CreateFile = \<lambda>_ _. None,
     Chmod = \<lambda>_ _. None, FileSize = \<lambda>_ _. Inr 0, ProbePort = \<lambda>_ _. None, CreateCtxErr = \<lambda>_. None,
     CreateInFlight = \<lambda>_ _. False, GDriveService = \<lambda>_. None,
     DestUploadStream = \<lambda>_ _ _ s. (case snd s of None \<Rightarrow> Inr (int (length (fst s))) | Some e \<Rightarrow> Inl e),
     cloud = calm_cloud, ExecCreate = \<lambda>_ c _ _. Inr (''exec-'' @ c),
     ExecAttach = \<lambda>_ _. None, ExecOutput = \<lambda>_ _. (([], None), []), ExecInput = \<lambda>_ _ s. (int (length (fst s)), None),
     ExecInspect = \<lambda>_ _. Inr 0, ExecResize = \<lambda>_ _ _ _. None, TimestampUTC = \<lambda>_ _. [],
     CompressErr = \<lambda>_. None, Gzip = id, Gunzip = \<lambda>b. Inr (b, None), Sha256Hex = id\<rparr>"

definition calm_host :: host where
  "calm_host = \<lparr>ImagePull = \<lambda>_ _ _. None, PullDrain = \<lambda>_. None,
     ContainerCreate = \<lambda>_ n _ _ _. Inr (''id-'' @ n), ContainerStart = \<lambda>_ _. None,
     ContainerStop = \<lambda>_ _ _. None, ContainerKill = \<lambda>_ _. None, ContainerPause = \<lambda>_ _. None,
     ContainerUnpause = \<lambda>_ _. None, ContainerRestart = \<lambda>_ _ _. None,
     ContainerRemove = \<lambda>_ _ _. None, ContainerRename = \<lambda>_ _ _. None,
     ContainerInspect = \<lambda>_ c. Inr (running_container c), ContainerList = \<lambda>_ _. Inr [],
     ContainerListLabels = \<lambda>_ _. Inr [], NetworkConnect = \<lambda>_ _ _. None,
     NetworkCreate = \<lambda>_ _ _. None, NetworkRemove = \<lambda>_ _. None,
     VolumeCreate = \<lambda>_ _ _. None, VolumeInspect = \<lambda>_ _. None, VolumeRemove = \<lambda>_ _ _. None,
     StatfsAvail = \<lambda>_. None, UnixNano = \<lambda>_. 0, Jitter = \<lambda>_. 0, CtxErr = \<lambda>_. None, SelectDone = \<lambda>_. False,
     RandBytes = \<lambda>_. [], MapOrder = \<lambda>_ _. [], LockFree = \<lambda>_ _. True,
     ParseDuration = \<lambda>_. None, svc = calm_services\<rparr>"

section \<open>Programs\<close>

type_synonym 'a prog = "(event list, 'a) state"

abbreviation ret :: "'a \<Rightarrow> 'a prog" where
  "ret \<equiv> State_Monad.return"

text \<open>A request: ask the host, and record the request with its answer.\<close>

definition request :: "(event list \<Rightarrow> 'r) \<Rightarrow> ('r \<Rightarrow> event) \<Rightarrow> 'r prog" where
  "request ask ev = State (\<lambda>h. (ask h, h @ [ev (ask h)]))"

text \<open>An observation of the host that leaves no event (clock, random bytes, contexts).\<close>

definition observe :: "(event list \<Rightarrow> 'r) \<Rightarrow> 'r prog" where
  "observe f = State (\<lambda>h. (f h, h))"

definition emit :: "event \<Rightarrow> unit prog" where
  "emit ev = State (\<lambda>h. ((), h @ [ev]))"

text \<open>\<open>for _, x := range xs\<close> with a body that neither breaks nor returns.\<close>

fun forM :: "'a list \<Rightarrow> ('a \<Rightarrow> unit prog) \<Rightarrow> unit prog" where
  "forM [] f = ret ()"
| "forM (x # xs) f = do { f x; forM xs f }"

text \<open>The same loop with a body that may return from the enclosing function.\<close>

fun forE :: "'a list \<Rightarrow> ('a \<Rightarrow> 'e option prog) \<Rightarrow> 'e option prog" where
  "forE [] f = ret None"
| "forE (x # xs) f = do {
     r \<leftarrow> f x;
     (case r of Some e \<Rightarrow> ret (Some e) | None \<Rightarrow> forE xs f)
   }"

definition final_hist :: "'a prog \<Rightarrow> event list \<Rightarrow> event list" where
  "final_hist m h = snd (run_state m h)"

definition result :: "'a prog \<Rightarrow> event list \<Rightarrow> 'a" where
  "result m h = fst (run_state m h)"

text \<open>The events a program adds when it runs from history \<open>h\<close>.\<close>

definition events :: "'a prog \<Rightarrow> event list \<Rightarrow> event list" where
  "events m h = drop (length h) (final_hist m h)"

lemmas run_simps = result_def final_hist_def events_def request_def observe_def emit_def

lemmas hosts = calm_host_def running_container_def idle_hostconfig_def idle_config_def

lemma calm_simps:
  "ImagePull calm_host h i a = None" "PullDrain calm_host h = None"
  "ContainerCreate calm_host h n c hc nc = Inr (''id-'' @ n)" "ContainerStart calm_host h d = None"
  "ContainerStop calm_host h d t = None" "ContainerRemove calm_host h d f = None"
  "ContainerRename calm_host h d n = None" "ContainerInspect calm_host h n = Inr (running_container n)"
  "ContainerList calm_host h n = Inr []" "NetworkConnect calm_host h n d = None"
  "Jitter calm_host h = 0" "CtxErr calm_host h = None" "SelectDone calm_host h = False"
  "RandBytes calm_host h = []" "MapOrder calm_host h tg = []" "LockFree calm_host h k = True"
  by (simp_all add: calm_host_def)

section \<open>Weakest preconditions\<close>

definition wp :: "'a prog \<Rightarrow> ('a \<Rightarrow> event list \<Rightarrow> bool) \<Rightarrow> event list \<Rightarrow> bool" where
  "wp m Q h = (case run_state m h of (r, h') \<Rightarrow> Q r h')"

lemma wp_return [wp_simps]: "wp (ret x) Q h = Q x h"
  by (simp add: wp_def)

lemma wp_bind [wp_simps]: "wp (State_Monad.bind m f) Q h = wp m (\<lambda>x. wp (f x) Q) h"
  by (simp add: wp_def split: prod.splits)

lemma wp_request [wp_simps]: "wp (request ask ev) Q h = Q (ask h) (h @ [ev (ask h)])"
  by (simp add: wp_def request_def)

lemma wp_observe [wp_simps]: "wp (observe f) Q h = Q (f h) h"
  by (simp add: wp_def observe_def)

lemma wp_emit [wp_simps]: "wp (emit ev) Q h = Q () (h @ [ev])"
  by (simp add: wp_def emit_def)

lemma wp_mono: "wp m Q h \<Longrightarrow> (\<And>r h'. Q r h' \<Longrightarrow> R r h') \<Longrightarrow> wp m R h"
  by (auto simp: wp_def split: prod.splits)

lemma wp_conj: "wp m Q h \<Longrightarrow> wp m R h \<Longrightarrow> wp m (\<lambda>r h'. Q r h' \<and> R r h') h"
  by (auto simp: wp_def split: prod.splits)

lemma wp_result: "wp m Q h \<longleftrightarrow> Q (result m h) (final_hist m h)"
  by (simp add: wp_def result_def final_hist_def split: prod.splits)

section \<open>Programs that only extend the history by events of a kind\<close>

definition emits :: "(event \<Rightarrow> bool) \<Rightarrow> 'a prog \<Rightarrow> bool" where
  "emits P m = (\<forall>h. \<exists>es. final_hist m h = h @ es \<and> list_all P es)"

named_theorems emits_intros \<open>introduction rules for the events of a program\<close>

lemma emits_return [emits_intros]: "emits P (ret x)"
  by (simp add: emits_def final_hist_def)

lemma emits_request [emits_intros]: "(\<And>r. P (ev r)) \<Longrightarrow> emits P (request ask ev)"
  by (simp add: emits_def final_hist_def request_def)

lemma emits_observe [emits_intros]: "emits P (observe f)"
  by (simp add: emits_def final_hist_def observe_def)

lemma emits_emit [emits_intros]: "P ev \<Longrightarrow> emits P (emit ev)"
  by (simp add: emits_def final_hist_def emit_def)

lemma emits_bind [emits_intros]:
  assumes "emits P m" and "\<And>x. emits P (f x)"
  shows "emits P (State_Monad.bind m f)"
  unfolding emits_def
proof
  fix h
  obtain x h1 where m: "run_state m h = (x, h1)" by fastforce
  with assms(1) obtain es where es: "h1 = h @ es" "list_all P es"
    by (metis emits_def final_hist_def snd_conv)
  from assms(2) obtain fs where "final_hist (f x) h1 = h1 @ fs" "list_all P fs"
    by (metis emits_def)
  with m es show "\<exists>es. final_hist (State_Monad.bind m f) h = h @ es \<and> list_all P es"
    by (auto simp: final_hist_def)
qed

lemma emits_mono: "emits P m \<Longrightarrow> (\<And>e. P e \<Longrightarrow> Q e) \<Longrightarrow> emits Q m"
  by (metis emits_def list.pred_mono_strong)

lemma emits_forM [emits_intros]: "(\<And>x. x \<in> set xs \<Longrightarrow> emits P (f x)) \<Longrightarrow> emits P (forM xs f)"
  by (induction xs) (auto intro: emits_intros)

lemma emits_forE [emits_intros]:
  "(\<And>x. x \<in> set xs \<Longrightarrow> emits P (f x)) \<Longrightarrow> emits P (forE xs f)"
  by (induction xs) (auto intro!: emits_intros split: option.splits)

lemma emits_case_option [emits_intros]:
  "(x = None \<Longrightarrow> emits P a) \<Longrightarrow> (\<And>y. x = Some y \<Longrightarrow> emits P (b y)) \<Longrightarrow>
   emits P (case x of None \<Rightarrow> a | Some y \<Rightarrow> b y)"
  by (cases x) auto

lemma emits_case_sum [emits_intros]:
  "(\<And>y. x = Inl y \<Longrightarrow> emits P (a y)) \<Longrightarrow> (\<And>y. x = Inr y \<Longrightarrow> emits P (b y)) \<Longrightarrow>
   emits P (case x of Inl y \<Rightarrow> a y | Inr y \<Rightarrow> b y)"
  by (cases x) auto

lemma emits_case_prod [emits_intros]:
  "(\<And>y z. x = (y, z) \<Longrightarrow> emits P (a y z)) \<Longrightarrow> emits P (case x of (y, z) \<Rightarrow> a y z)"
  by (cases x) auto

lemma emits_if [emits_intros]:
  "(b \<Longrightarrow> emits P m) \<Longrightarrow> (\<not> b \<Longrightarrow> emits P n) \<Longrightarrow> emits P (if b then m else n)"
  by simp

lemma emits_Let [emits_intros]: "emits P (f x) \<Longrightarrow> emits P (Let x f)"
  by simp

lemma emits_final: "emits P m \<Longrightarrow> final_hist m h = h @ events m h \<and> list_all P (events m h)"
  by (auto simp: emits_def events_def dest: spec [of _ h])

text \<open>Every program built from the primitives extends the history.\<close>

abbreviation extends :: "'a prog \<Rightarrow> bool" where
  "extends \<equiv> emits (\<lambda>_. True)"

lemma emits_extends: "emits P m \<Longrightarrow> extends m"
  by (erule emits_mono) simp

lemma wp_emits: "emits P m \<Longrightarrow> wp m (\<lambda>r h'. \<exists>es. h' = h @ es \<and> list_all P es) h"
  by (auto simp: wp_result emits_def)

text \<open>
  To reason past a call whose events are known only by their kind, and past any call on
  the events it adds: from \<open>wp m Q h\<close> to the events and the result of \<open>m\<close>.
\<close>

lemma wp_emitsI:
  assumes "emits P m" and "\<And>r es. list_all P es \<Longrightarrow> Q r (h @ es)"
  shows "wp m Q h"
  using assms by (metis emits_def wp_result)

lemma wp_eventsI:
  assumes "extends m" and "wp m (\<lambda>r h'. Q r (drop (length h) h')) h"
  shows "Q (result m h) (events m h)"
  using assms by (simp add: wp_result events_def)

lemma wp_forM_inv:
  assumes "\<And>x h. x \<in> set xs \<Longrightarrow> I h \<Longrightarrow> wp (f x) (\<lambda>_. I) h" and "I h"
  shows "wp (forM xs f) (\<lambda>_. I) h"
  using assms
proof (induction xs arbitrary: h)
  case Nil
  then show ?case by (simp add: wp_simps)
next
  case (Cons x xs)
  have "wp (f x) (\<lambda>_. I) h" using Cons.prems by simp
  then show ?case
    unfolding forM.simps wp_bind by (rule wp_mono) (use Cons in simp)
qed

lemma events_ret [simp]: "events (ret x) h = []"
  by (simp add: events_def final_hist_def)

lemma events_bind:
  assumes "extends m" and "\<And>x. extends (f x)"
  shows "events (State_Monad.bind m f) h =
    events m h @ events (f (result m h)) (h @ events m h)"
proof -
  obtain x h1 where m: "run_state m h = (x, h1)" by fastforce
  with assms(1) obtain es where es: "h1 = h @ es"
    by (metis emits_def final_hist_def snd_conv)
  obtain fs where fs: "final_hist (f x) h1 = h1 @ fs"
    using assms(2) by (metis emits_def)
  from m es fs show ?thesis
    by (simp add: events_def final_hist_def result_def)
qed

section \<open>What a program returns and does\<close>

text \<open>
  \<open>does m Q\<close>: from every history, \<open>m\<close> only adds events, and its result and the
  added events satisfy \<open>Q\<close>. The rules below take a program apart from its first
  request on, so that a goal carries the events seen so far and no history.
\<close>

definition does :: "'a prog \<Rightarrow> ('a \<Rightarrow> event list \<Rightarrow> bool) \<Rightarrow> bool" where
  "does m Q = (\<forall>h. \<exists>es. final_hist m h = h @ es \<and> Q (result m h) es)"

named_theorems does_intros \<open>rules that take a program apart\<close>

lemma does_events: "does m Q \<Longrightarrow> Q (result m h) (events m h)"
  by (auto simp: does_def events_def dest: spec [of _ h])

lemma does_extends: "does m Q \<Longrightarrow> extends m"
  by (simp add: does_def emits_def list_all_iff) blast

lemma does_mono: "does m P \<Longrightarrow> (\<And>r es. P r es \<Longrightarrow> Q r es) \<Longrightarrow> does m Q"
  by (meson does_def)

lemma does_conj: "does m P \<Longrightarrow> does m Q \<Longrightarrow> does m (\<lambda>r es. P r es \<and> Q r es)"
  unfolding does_def by (metis append_eq_append_conv)

lemma does_ret [does_intros]: "Q x [] \<Longrightarrow> does (ret x) Q"
  by (simp add: does_def final_hist_def result_def)

lemma does_request [does_intros]: "(\<And>h. Q (ask h) [ev (ask h)]) \<Longrightarrow> does (request ask ev) Q"
  by (simp add: does_def final_hist_def result_def request_def)

lemma does_observe [does_intros]: "(\<And>h. Q (f h) []) \<Longrightarrow> does (observe f) Q"
  by (simp add: does_def final_hist_def result_def observe_def)

lemma does_emit [does_intros]: "Q () [ev] \<Longrightarrow> does (emit ev) Q"
  by (simp add: does_def final_hist_def result_def emit_def)

lemma does_bind:
  assumes "does m P" and "\<And>x es. P x es \<Longrightarrow> does (f x) (\<lambda>r fs. Q r (es @ fs))"
  shows "does (State_Monad.bind m f) Q"
  unfolding does_def
proof
  fix h
  obtain x h1 where m: "run_state m h = (x, h1)" by fastforce
  with assms(1) obtain es where es: "h1 = h @ es" "P x es"
    by (auto simp: does_def final_hist_def result_def dest: spec [of _ h])
  from assms(2) [OF es(2)] obtain fs
    where "final_hist (f x) h1 = h1 @ fs" "Q (result (f x) h1) (es @ fs)"
    unfolding does_def by blast
  with m es show "\<exists>es. final_hist (State_Monad.bind m f) h = h @ es \<and> Q (result (State_Monad.bind m f) h) es"
    by (auto simp: final_hist_def result_def)
qed

lemma does_bind_request [does_intros]:
  "(\<And>h. does (f (ask h)) (\<lambda>r es. Q r (ev (ask h) # es))) \<Longrightarrow>
   does (State_Monad.bind (request ask ev) f) Q"
  by (rule does_bind [where P = "\<lambda>x es. \<exists>h. x = ask h \<and> es = [ev (ask h)]"])
    (auto intro: does_intros)

lemma does_bind_observe [does_intros]:
  "(\<And>h. does (f (ask h)) Q) \<Longrightarrow> does (State_Monad.bind (observe ask) f) Q"
  by (rule does_bind [where P = "\<lambda>x es. \<exists>h. x = ask h \<and> es = []"]) (auto intro: does_intros)

lemma does_bind_emit [does_intros]:
  "does (f ()) (\<lambda>r es. Q r (ev # es)) \<Longrightarrow> does (State_Monad.bind (emit ev) f) Q"
  by (rule does_bind [where P = "\<lambda>x es. es = [ev]"]) (auto intro: does_intros)

lemma does_bind_ret [does_intros]: "does (f x) Q \<Longrightarrow> does (State_Monad.bind (ret x) f) Q"
  by simp

lemma does_bind_assoc [does_intros]:
  "does (State_Monad.bind m (\<lambda>x. State_Monad.bind (f x) g)) Q \<Longrightarrow>
   does (State_Monad.bind (State_Monad.bind m f) g) Q"
  by simp

lemma does_case_option [does_intros]:
  "(x = None \<Longrightarrow> does a Q) \<Longrightarrow> (\<And>y. x = Some y \<Longrightarrow> does (b y) Q) \<Longrightarrow>
   does (case x of None \<Rightarrow> a | Some y \<Rightarrow> b y) Q"
  by (cases x) auto

lemma does_case_sum [does_intros]:
  "(\<And>y. x = Inl y \<Longrightarrow> does (a y) Q) \<Longrightarrow> (\<And>y. x = Inr y \<Longrightarrow> does (b y) Q) \<Longrightarrow>
   does (case x of Inl y \<Rightarrow> a y | Inr y \<Rightarrow> b y) Q"
  by (cases x) auto

lemma does_case_prod [does_intros]:
  "(\<And>y z. x = (y, z) \<Longrightarrow> does (a y z) Q) \<Longrightarrow> does (case x of (y, z) \<Rightarrow> a y z) Q"
  by (cases x) auto

lemma does_if [does_intros]:
  "(b \<Longrightarrow> does m Q) \<Longrightarrow> (\<not> b \<Longrightarrow> does n Q) \<Longrightarrow> does (if b then m else n) Q"
  by simp

lemma does_Let [does_intros]: "does (f x) Q \<Longrightarrow> does (Let x f) Q"
  by simp

text \<open>Branches in front of a continuation.\<close>

lemma does_bind_case_option [does_intros]:
  "(x = None \<Longrightarrow> does (State_Monad.bind a k) Q) \<Longrightarrow>
   (\<And>y. x = Some y \<Longrightarrow> does (State_Monad.bind (b y) k) Q) \<Longrightarrow>
   does (State_Monad.bind (case x of None \<Rightarrow> a | Some y \<Rightarrow> b y) k) Q"
  by (cases x) auto

lemma does_bind_case_sum [does_intros]:
  "(\<And>y. x = Inl y \<Longrightarrow> does (State_Monad.bind (a y) k) Q) \<Longrightarrow>
   (\<And>y. x = Inr y \<Longrightarrow> does (State_Monad.bind (b y) k) Q) \<Longrightarrow>
   does (State_Monad.bind (case x of Inl y \<Rightarrow> a y | Inr y \<Rightarrow> b y) k) Q"
  by (cases x) auto

lemma does_bind_if [does_intros]:
  "(b \<Longrightarrow> does (State_Monad.bind m k) Q) \<Longrightarrow> (\<not> b \<Longrightarrow> does (State_Monad.bind n k) Q) \<Longrightarrow>
   does (State_Monad.bind (if b then m else n) k) Q"
  by simp

lemma does_emits: "emits P m \<longleftrightarrow> does m (\<lambda>_. list_all P)"
  by (simp add: does_def emits_def)

lemma does_emitsI: "emits P m \<Longrightarrow> (\<And>r es. list_all P es \<Longrightarrow> Q r es) \<Longrightarrow> does m Q"
  unfolding does_emits by (erule does_mono)

lemma does_bind_emits:
  assumes "emits P m" and "\<And>x es. list_all P es \<Longrightarrow> does (f x) (\<lambda>r fs. Q r (es @ fs))"
  shows "does (State_Monad.bind m f) Q"
  using assms by (auto simp: does_emits intro: does_bind)

lemma does_forM:
  assumes "\<And>x. x \<in> set xs \<Longrightarrow> does (f x) (\<lambda>_. I)" and "I []"
    and "\<And>a b. I a \<Longrightarrow> I b \<Longrightarrow> I (a @ b)"
  shows "does (forM xs f) (\<lambda>_. I)"
  using assms(1)
proof (induction xs)
  case Nil
  show ?case using assms(2) by (auto intro: does_intros)
next
  case (Cons x xs)
  have "does (forM xs f) (\<lambda>_. I)" using Cons by simp
  then have rest: "I a \<Longrightarrow> does (forM xs f) (\<lambda>_ b. I (a @ b))" for a
    using assms(3) by (auto elim: does_mono)
  show ?case unfolding forM.simps
    by (rule does_bind [of _ "\<lambda>_. I"]) (use Cons.prems rest in simp_all)
qed

section \<open>Monitors\<close>

text \<open>
  A monitor reads the events one by one: \<open>nxt\<close> is its next state and \<open>ok\<close> what it
  accepts. \<open>track ok nxt s m Q\<close>: from the monitor state \<open>s\<close>, every event of \<open>m\<close> is
  accepted, and \<open>Q\<close> holds of the result and of the monitor state at the end. The rules
  make this a Hoare logic over monitor states.
\<close>

fun accepted :: "('s \<Rightarrow> event \<Rightarrow> bool) \<Rightarrow> ('s \<Rightarrow> event \<Rightarrow> 's) \<Rightarrow> 's \<Rightarrow> event list \<Rightarrow> bool" where
  "accepted ok nxt s [] = True"
| "accepted ok nxt s (e # es) = (ok s e \<and> accepted ok nxt (nxt s e) es)"

lemma accepted_append:
  "accepted ok nxt s (es @ fs) \<longleftrightarrow> accepted ok nxt s es \<and> accepted ok nxt (foldl nxt s es) fs"
  by (induction es arbitrary: s) auto

definition track ::
  "('s \<Rightarrow> event \<Rightarrow> bool) \<Rightarrow> ('s \<Rightarrow> event \<Rightarrow> 's) \<Rightarrow> 's \<Rightarrow> 'a prog \<Rightarrow> ('a \<Rightarrow> 's \<Rightarrow> bool) \<Rightarrow> bool" where
  "track ok nxt s m Q = does m (\<lambda>r es. accepted ok nxt s es \<and> Q r (foldl nxt s es))"

named_theorems track_intros \<open>rules for programs under a monitor\<close>

lemma track_events:
  "track ok nxt s m Q \<Longrightarrow>
   accepted ok nxt s (events m h) \<and> Q (result m h) (foldl nxt s (events m h))"
  unfolding track_def by (drule does_events) blast

lemma track_mono:
  "track ok nxt s m P \<Longrightarrow> (\<And>r t. P r t \<Longrightarrow> Q r t) \<Longrightarrow> track ok nxt s m Q"
  unfolding track_def by (erule does_mono) blast

lemma track_does:
  assumes "track ok nxt s m P" and "does m (\<lambda>r _. R r)"
  shows "track ok nxt s m (\<lambda>r t. P r t \<and> R r)"
  using does_conj [OF assms(1) [unfolded track_def] assms(2)] unfolding track_def
  by (rule does_mono) blast

lemma track_ret [track_intros]: "Q x s \<Longrightarrow> track ok nxt s (ret x) Q"
  unfolding track_def by (rule does_ret) simp

lemma track_request [track_intros]:
  "(\<And>r. ok s (ev r)) \<Longrightarrow> (\<And>h. Q (ask h) (nxt s (ev (ask h)))) \<Longrightarrow> track ok nxt s (request ask ev) Q"
  unfolding track_def by (rule does_request) simp

lemma track_observe [track_intros]: "(\<And>h. Q (f h) s) \<Longrightarrow> track ok nxt s (observe f) Q"
  unfolding track_def by (rule does_observe) simp

lemma track_emit [track_intros]: "ok s ev \<Longrightarrow> Q () (nxt s ev) \<Longrightarrow> track ok nxt s (emit ev) Q"
  unfolding track_def by (rule does_emit) simp

lemma track_bind:
  assumes "track ok nxt s m P" and "\<And>x t. P x t \<Longrightarrow> track ok nxt t (f x) Q"
  shows "track ok nxt s (State_Monad.bind m f) Q"
  unfolding track_def
  by (rule does_bind [OF assms(1) [unfolded track_def]])
    (use assms(2) [unfolded track_def] in \<open>auto simp: accepted_append intro: does_mono\<close>)

lemma track_bind_request [track_intros]:
  "(\<And>r. ok s (ev r)) \<Longrightarrow> (\<And>h. track ok nxt (nxt s (ev (ask h))) (f (ask h)) Q) \<Longrightarrow>
   track ok nxt s (State_Monad.bind (request ask ev) f) Q"
  unfolding track_def by (rule does_bind_request) simp

lemma track_bind_observe [track_intros]:
  "(\<And>h. track ok nxt s (f (ask h)) Q) \<Longrightarrow> track ok nxt s (State_Monad.bind (observe ask) f) Q"
  unfolding track_def by (rule does_bind_observe)

lemma track_bind_emit [track_intros]:
  "ok s ev \<Longrightarrow> track ok nxt (nxt s ev) (f ()) Q \<Longrightarrow> track ok nxt s (State_Monad.bind (emit ev) f) Q"
  unfolding track_def by (rule does_bind_emit) simp

lemma track_bind_ret [track_intros]:
  "track ok nxt s (f x) Q \<Longrightarrow> track ok nxt s (State_Monad.bind (ret x) f) Q"
  by simp

lemma track_bind_assoc [track_intros]:
  "track ok nxt s (State_Monad.bind m (\<lambda>x. State_Monad.bind (f x) g)) Q \<Longrightarrow>
   track ok nxt s (State_Monad.bind (State_Monad.bind m f) g) Q"
  by simp

lemma track_case_option [track_intros]:
  "(x = None \<Longrightarrow> track ok nxt s a Q) \<Longrightarrow> (\<And>y. x = Some y \<Longrightarrow> track ok nxt s (b y) Q) \<Longrightarrow>
   track ok nxt s (case x of None \<Rightarrow> a | Some y \<Rightarrow> b y) Q"
  by (cases x) auto

lemma track_case_sum [track_intros]:
  "(\<And>y. x = Inl y \<Longrightarrow> track ok nxt s (a y) Q) \<Longrightarrow> (\<And>y. x = Inr y \<Longrightarrow> track ok nxt s (b y) Q) \<Longrightarrow>
   track ok nxt s (case x of Inl y \<Rightarrow> a y | Inr y \<Rightarrow> b y) Q"
  by (cases x) auto

lemma track_case_prod [track_intros]:
  "(\<And>y z. x = (y, z) \<Longrightarrow> track ok nxt s (a y z) Q) \<Longrightarrow>
   track ok nxt s (case x of (y, z) \<Rightarrow> a y z) Q"
  by (cases x) auto

lemma track_if [track_intros]:
  "(b \<Longrightarrow> track ok nxt s m Q) \<Longrightarrow> (\<not> b \<Longrightarrow> track ok nxt s n Q) \<Longrightarrow>
   track ok nxt s (if b then m else n) Q"
  by simp

lemma track_Let [track_intros]: "track ok nxt s (f x) Q \<Longrightarrow> track ok nxt s (Let x f) Q"
  by simp

lemma track_bind_case_option [track_intros]:
  "(x = None \<Longrightarrow> track ok nxt s (State_Monad.bind a k) Q) \<Longrightarrow>
   (\<And>y. x = Some y \<Longrightarrow> track ok nxt s (State_Monad.bind (b y) k) Q) \<Longrightarrow>
   track ok nxt s (State_Monad.bind (case x of None \<Rightarrow> a | Some y \<Rightarrow> b y) k) Q"
  by (cases x) auto

lemma track_bind_case_sum [track_intros]:
  "(\<And>y. x = Inl y \<Longrightarrow> track ok nxt s (State_Monad.bind (a y) k) Q) \<Longrightarrow>
   (\<And>y. x = Inr y \<Longrightarrow> track ok nxt s (State_Monad.bind (b y) k) Q) \<Longrightarrow>
   track ok nxt s (State_Monad.bind (case x of Inl y \<Rightarrow> a y | Inr y \<Rightarrow> b y) k) Q"
  by (cases x) auto

lemma track_bind_if [track_intros]:
  "(b \<Longrightarrow> track ok nxt s (State_Monad.bind m k) Q) \<Longrightarrow>
   (\<not> b \<Longrightarrow> track ok nxt s (State_Monad.bind n k) Q) \<Longrightarrow>
   track ok nxt s (State_Monad.bind (if b then m else n) k) Q"
  by simp

lemma track_forM:
  assumes "I s" and "\<And>x t. x \<in> set xs \<Longrightarrow> I t \<Longrightarrow> track ok nxt t (f x) (\<lambda>_. I)"
  shows "track ok nxt s (forM xs f) (\<lambda>_. I)"
  using assms
proof (induction xs arbitrary: s)
  case Nil
  then show ?case by (auto intro: track_intros)
next
  case (Cons x xs)
  show ?case unfolding forM.simps
    by (rule track_bind [of _ _ _ _ "\<lambda>_. I"]) (use Cons in auto)
qed

text \<open>Events of a kind that the monitor accepts and that keeps a relation to its state.\<close>

lemma track_emits:
  assumes "emits P m" and "\<And>e t. P e \<Longrightarrow> I t \<Longrightarrow> ok t e \<and> I (nxt t e)" and "I s"
  shows "track ok nxt s m (\<lambda>_. I)"
proof -
  have "accepted ok nxt s es \<and> I (foldl nxt s es)" if "list_all P es" for es
    using that assms(3)
  proof (induction es arbitrary: s)
    case (Cons e es)
    then show ?case using assms(2) [of e s] by simp
  qed simp
  with assms(1) show ?thesis unfolding track_def by (rule does_emitsI)
qed

text \<open>A loop that carries a state and may return early with an error.\<close>

fun foldE :: "'a list \<Rightarrow> ('a \<Rightarrow> 's \<Rightarrow> ('e + 's) prog) \<Rightarrow> 's \<Rightarrow> ('e + 's) prog" where
  "foldE [] f s = ret (Inr s)"
| "foldE (x # xs) f s = do {
     r \<leftarrow> f x s;
     (case r of Inl e \<Rightarrow> ret (Inl e) | Inr s' \<Rightarrow> foldE xs f s')
   }"

lemma track_foldE:
  assumes "I xs a s"
    and "\<And>x ys b t. I (x # ys) b t \<Longrightarrow>
      track ok nxt t (f x b) (\<lambda>r u. case r of Inl e \<Rightarrow> F e u | Inr b' \<Rightarrow> I ys b' u)"
    and "\<And>b t. I [] b t \<Longrightarrow> G b t"
  shows "track ok nxt s (foldE xs f a) (\<lambda>r u. case r of Inl e \<Rightarrow> F e u | Inr b \<Rightarrow> G b u)"
  using assms(1)
proof (induction xs arbitrary: a s)
  case Nil
  then show ?case using assms(3) by (auto intro: track_intros)
next
  case (Cons x xs)
  show ?case unfolding foldE.simps
    by (rule track_bind [OF assms(2) [OF Cons.prems]]) (use Cons.IH in \<open>auto intro!: track_intros\<close>)
qed

fun mapP :: "'a list \<Rightarrow> ('a \<Rightarrow> 'b prog) \<Rightarrow> 'b list prog" where
  "mapP [] f = ret []"
| "mapP (x # xs) f = do { y \<leftarrow> f x; ys \<leftarrow> mapP xs f; ret (y # ys) }"

lemma emits_mapP [emits_intros]:
  "(\<And>x. x \<in> set xs \<Longrightarrow> emits P (f x)) \<Longrightarrow> emits P (mapP xs f)"
  by (induction xs) (auto intro: emits_intros)

lemma does_mapP:
  assumes "\<And>x. x \<in> set xs \<Longrightarrow> does (f x) (\<lambda>y _. R x y)"
  shows "does (mapP xs f) (\<lambda>ys _. list_all2 R xs ys)"
  using assms
proof (induction xs)
  case Nil
  show ?case by (auto intro: does_intros)
next
  case (Cons x xs)
  have "does (f x) (\<lambda>y _. R x y)" "does (mapP xs f) (\<lambda>ys _. list_all2 R xs ys)"
    using Cons by simp_all
  then show ?case unfolding mapP.simps
    by (auto intro!: does_bind [of "f x"] does_bind [of "mapP xs f"] does_intros)
qed

text \<open>What each iteration of a loop that runs to its end has done.\<close>

lemma does_forM_all:
  assumes "\<And>x. x \<in> set xs \<Longrightarrow> does (f x) (\<lambda>_ es. P x (set es))"
    and mono: "\<And>x A B. P x A \<Longrightarrow> A \<subseteq> B \<Longrightarrow> P x B"
  shows "does (forM xs f) (\<lambda>_ es. \<forall>x\<in>set xs. P x (set es))"
  using assms(1)
proof (induction xs)
  case Nil
  show ?case by (auto intro: does_intros)
next
  case (Cons x xs)
  have x: "does (f x) (\<lambda>_ es. P x (set es))"
    and xs: "does (forM xs f) (\<lambda>_ es. \<forall>x\<in>set xs. P x (set es))"
    using Cons by simp_all
  show ?case unfolding forM.simps
    by (rule does_bind [OF x], rule does_mono [OF xs]) (auto intro: mono)
qed

lemma does_foldE_all:
  assumes "\<And>x s. x \<in> set xs \<Longrightarrow> does (f x s) (\<lambda>r es. isl r \<or> P x (set es))"
    and mono: "\<And>x A B. P x A \<Longrightarrow> A \<subseteq> B \<Longrightarrow> P x B"
  shows "does (foldE xs f s) (\<lambda>r es. isl r \<or> (\<forall>x\<in>set xs. P x (set es)))"
  using assms(1)
proof (induction xs arbitrary: s)
  case Nil
  show ?case by (auto intro: does_intros)
next
  case (Cons x xs)
  have x: "does (f x s) (\<lambda>r es. isl r \<or> P x (set es))"
    and xs: "\<And>s. does (foldE xs f s) (\<lambda>r es. isl r \<or> (\<forall>x\<in>set xs. P x (set es)))"
    using Cons by simp_all
  show ?case unfolding foldE.simps
    by (rule does_bind [OF x]) (auto intro!: does_intros does_mono [OF xs] intro: mono)
qed

lemma emits_foldE [emits_intros]:
  "(\<And>x s. x \<in> set xs \<Longrightarrow> emits P (f x s)) \<Longrightarrow> emits P (foldE xs f s)"
  by (induction xs arbitrary: s) (auto intro!: emits_intros)

lemma does_foldE_rel:
  assumes "\<And>x s. x \<in> set xs \<Longrightarrow> does (f x s) (R s)" and "\<And>s. R s (Inr s) []"
    and "\<And>s t y a b. R s (Inr t) a \<Longrightarrow> R t y b \<Longrightarrow> R s y (a @ b)"
  shows "does (foldE xs f s) (R s)"
  using assms(1)
proof (induction xs arbitrary: s)
  case Nil
  show ?case using assms(2) by (auto intro: does_intros)
next
  case (Cons x xs)
  have x: "does (f x s) (R s)" and xs: "\<And>t. does (foldE xs f t) (R t)" using Cons by simp_all
  show ?case unfolding foldE.simps
    by (rule does_bind [OF x]) (auto intro!: does_intros does_mono [OF xs] intro: assms(3))
qed

end
