(* ===== verification/Names.thy ===== *)
theory Names
  imports Host
begin

text \<open>
  Container names and the other strings the orchestrator sends: the allow list of
  validate.go and deploy/executor.go, the environment-key and bind-mount guards of
  docker/docker.go, the generated deploy suffix, and the two notions of which Docker name
  belongs to which canonical name (\<open>CanonicalContainerName\<close> in docker/logstreamer.go,
  \<open>isCanonicalVariant\<close> in deploy/rolling.go).
\<close>

section \<open>Allow lists\<close>

definition name_char :: "char \<Rightarrow> bool" where
  "name_char c = ((c \<ge> CHR ''a'' \<and> c \<le> CHR ''z'') \<or> (c \<ge> CHR ''A'' \<and> c \<le> CHR ''Z'') \<or>
     (c \<ge> CHR ''0'' \<and> c \<le> CHR ''9'') \<or> c = CHR ''-'' \<or> c = CHR ''_'' \<or> c = CHR ''.'' \<or> c = CHR ''/'')"

definition validContainerName :: "string \<Rightarrow> bool" where
  "validContainerName name =
     (if name = [] \<or> length name > 128 then False else list_all name_char name)"

fun env_key_from :: "nat \<Rightarrow> string \<Rightarrow> goerr option" where
  "env_key_from i [] = None"
| "env_key_from i (c # cs) =
     (if c \<ge> CHR ''A'' \<and> c \<le> CHR ''Z'' \<or> c \<ge> CHR ''a'' \<and> c \<le> CHR ''z'' \<or> c = CHR ''_''
      then env_key_from (Suc i) cs
      else if i > 0 \<and> c \<ge> CHR ''0'' \<and> c \<le> CHR ''9'' then env_key_from (Suc i) cs
      else Some (Fmt ''invalid character %q at position %d'' [FS [c], FD (int i)]))"

definition validateEnvKey :: "string \<Rightarrow> goerr option" where
  "validateEnvKey key = (if key = [] then Some (Fmt ''empty key'' []) else env_key_from 0 key)"

section \<open>Bind mounts\<close>

definition blockedHostPaths :: "string list" where
  "blockedHostPaths =
     [''/etc'', ''/root'', ''/home'', ''/var/run/docker.sock'', ''/run/docker.sock'',
      ''/proc'', ''/sys'', ''/dev'', ''/boot'']"

text \<open>
  \<open>filepath.Clean\<close> on a rooted path: empty and \<open>.\<close> elements are dropped, \<open>..\<close>
  removes the element before it and is dropped at the root.
\<close>

fun clean_elems :: "string list \<Rightarrow> string list \<Rightarrow> string list" where
  "clean_elems done [] = done"
| "clean_elems done (x # xs) =
     (if x = [] \<or> x = ''.'' then clean_elems done xs
      else if x = ''..'' then clean_elems (butlast done) xs
      else clean_elems (done @ [x]) xs)"

definition filepath_Clean :: "string \<Rightarrow> string" where
  "filepath_Clean p = CHR ''/'' # joinWith ''/'' (clean_elems [] (Split p CHR ''/''))"

definition validateHostPath :: "string \<Rightarrow> goerr option" where
  "validateHostPath hostPath =
     (if \<not> HasPrefix hostPath ''/'' then None
      else let cleaned = filepath_Clean hostPath in
        case find (\<lambda>b. cleaned = b \<or> HasPrefix cleaned (b @ ''/'')) blockedHostPaths of
          Some b \<Rightarrow> Some (Fmt ''mount of %q is blocked for security'' [FS b])
        | None \<Rightarrow> None)"

section \<open>Deploy suffixes and canonical names\<close>

definition SuffixMarker :: string where
  "SuffixMarker = ''ltc''"

definition suffix_chars :: string where
  "suffix_chars = ''abcdefghijklmnopqrstuvwxyz0123456789''"

text \<open>The six random bytes mapped into the alphabet; a failed read leaves zero bytes.\<close>

definition suffix_of :: "nat list \<Rightarrow> string" where
  "suffix_of bs = SuffixMarker @
     map (\<lambda>b. suffix_chars ! (b mod length suffix_chars)) (take 6 (bs @ replicate 6 0))"

definition GenerateSuffix :: "host \<Rightarrow> string prog" where
  "GenerateSuffix E = observe (\<lambda>h. suffix_of (RandBytes E h))"

definition suffix_char :: "char \<Rightarrow> bool" where
  "suffix_char c = ((c \<ge> CHR ''a'' \<and> c \<le> CHR ''z'') \<or> (c \<ge> CHR ''0'' \<and> c \<le> CHR ''9''))"

definition IsGeneratedSuffixSegment :: "string \<Rightarrow> bool" where
  "IsGeneratedSuffixSegment seg =
     (if length seg \<noteq> length SuffixMarker + 6 then False
      else if \<not> HasPrefix seg SuffixMarker then False
      else list_all suffix_char (drop (length SuffixMarker) seg))"

definition strip_generated :: "string \<Rightarrow> string" where
  "strip_generated name =
     (case LastIndex name ''-'' of
        Some d \<Rightarrow> if d > 0 \<and> IsGeneratedSuffixSegment (drop (d + 1) name) then take d name else name
      | None \<Rightarrow> name)"

definition CanonicalContainerName :: "string \<Rightarrow> string" where
  "CanonicalContainerName name =
     (case Index name ''-retired-'' of
        Some (Suc i) \<Rightarrow> take (Suc i) name
      | _ \<Rightarrow>
        if HasSuffix name ''-lattice-updating'' then TrimSuffix name ''-lattice-updating''
        else strip_generated name)"

definition isCanonicalVariant :: "string \<Rightarrow> string \<Rightarrow> bool" where
  "isCanonicalVariant canonicalName dockerName =
     (if \<not> HasPrefix dockerName (canonicalName @ ''-'') then False
      else let rest = drop (length canonicalName + 1) dockerName in
        if HasPrefix rest ''retired'' \<or> rest = ''lattice-updating'' then True
        else IsGeneratedSuffixSegment rest)"

text \<open>The registry an image reference pulls from (runner_stats.go).\<close>

definition registryHost :: "string \<Rightarrow> string" where
  "registryHost imageRef =
     (case Index imageRef ''/'' of
        Some i \<Rightarrow> (let first = take i imageRef in
          if ContainsAny first ''.:'' \<or> first = ''localhost'' then first else ''docker.io'')
      | None \<Rightarrow> ''docker.io'')"

section \<open>Lemmas\<close>

lemma suffix_char_not_dash: "suffix_char c \<Longrightarrow> c \<noteq> CHR ''-''"
  by (auto simp: suffix_char_def less_eq_char_def)

lemma suffix_chars_ok: "list_all suffix_char suffix_chars"
  by (simp add: suffix_chars_def suffix_char_def less_eq_char_def)

lemma generated_segment_iff:
  "IsGeneratedSuffixSegment seg \<longleftrightarrow>
     (\<exists>cs. seg = ''ltc'' @ cs \<and> length cs = 6 \<and> list_all suffix_char cs)"
  by (auto simp: IsGeneratedSuffixSegment_def SuffixMarker_def HasPrefix_iff)

lemma generated_segment_props:
  assumes "IsGeneratedSuffixSegment seg"
  shows "CHR ''-'' \<notin> set seg" "length seg = 9"
proof -
  from assms obtain cs where cs: "seg = ''ltc'' @ cs" "length cs = 6" "list_all suffix_char cs"
    by (auto simp: generated_segment_iff)
  then have "CHR ''-'' \<notin> set cs" by (auto simp: list_all_iff dest: suffix_char_not_dash)
  with cs show "CHR ''-'' \<notin> set seg" "length seg = 9" by simp_all
qed

lemma suffix_of_generated: "IsGeneratedSuffixSegment (suffix_of bs)"
proof -
  have ok: "suffix_char (suffix_chars ! (b mod length suffix_chars))" for b
  proof -
    have "b mod length suffix_chars < length suffix_chars" by (simp add: suffix_chars_def)
    then show ?thesis using suffix_chars_ok by (simp add: list_all_length)
  qed
  let ?cs = "map (\<lambda>b. suffix_chars ! (b mod length suffix_chars)) (take 6 (bs @ replicate 6 0))"
  have "length ?cs = 6" by simp
  moreover have "list_all suffix_char ?cs" using ok ok [of 0] by (auto simp: list_all_iff)
  ultimately show ?thesis
    unfolding generated_segment_iff suffix_of_def SuffixMarker_def by blast
qed

text \<open>
  A name is plain when it contains no \<open>-retired-\<close> marker and does not end in one once a
  suffix is attached to it.
\<close>

definition plain_name :: "string \<Rightarrow> bool" where
  "plain_name name = (name \<noteq> [] \<and> \<not> Contains (name @ ''-'') ''-retired-'')"

lemma retired_not_inside:
  assumes p: "plain_name name" and suf: "CHR ''-'' \<notin> set suf"
  shows "Index (name @ ''-'' @ suf) ''-retired-'' = None"
proof (rule ccontr)
  assume "Index (name @ ''-'' @ suf) ''-retired-'' \<noteq> None"
  then have "Contains (name @ CHR ''-'' # suf) (''-retired'' @ ''-'')" by (simp add: Contains_def)
  then have "Contains (name @ ''-'') (''-retired'' @ ''-'')" using suf by (rule Contains_snoc_sep)
  with p show False by (simp add: plain_name_def)
qed

lemma updating_not_generated:
  assumes "IsGeneratedSuffixSegment suf"
  shows "\<not> HasSuffix (name @ ''-'' @ suf) ''-lattice-updating''"
proof
  assume "HasSuffix (name @ ''-'' @ suf) ''-lattice-updating''"
  then obtain t where t: "name @ ''-'' @ suf = t @ ''-lattice-updating''"
    by (auto simp: HasSuffix_iff)
  have "LastIndex (name @ CHR ''-'' # suf) ''-'' = Some (length name)"
    by (rule LastIndex_single) (rule generated_segment_props(1) [OF assms])
  moreover have "LastIndex ((t @ ''-lattice'') @ CHR ''-'' # ''updating'') ''-'' = Some (length (t @ ''-lattice''))"
    by (rule LastIndex_single) simp
  ultimately have "length name = length t + 8" using t by simp
  moreover from arg_cong [OF t, of length] have "length name + 1 + length suf = length t + 17"
    by simp
  ultimately show False using generated_segment_props(2) [OF assms] by simp
qed

lemma canonical_generated:
  assumes "plain_name name" and "IsGeneratedSuffixSegment suf"
  shows "CanonicalContainerName (name @ ''-'' @ suf) = name"
proof -
  note nd = generated_segment_props(1) [OF assms(2)]
  have i: "Index (name @ ''-'' @ suf) ''-retired-'' = None"
    using assms(1) nd by (rule retired_not_inside)
  have l: "LastIndex (name @ CHR ''-'' # suf) ''-'' = Some (length name)"
    using nd by (rule LastIndex_single)
  have ne: "length name > 0" using assms(1) by (simp add: plain_name_def)
  show ?thesis
    unfolding CanonicalContainerName_def i strip_generated_def
    using updating_not_generated [OF assms(2)] l ne assms(2) by simp
qed

lemma canonical_retired:
  assumes "plain_name name"
  shows "CanonicalContainerName (name @ ''-retired-'' @ rest) = name"
proof -
  have "Index (name @ ''-retired-'' @ rest) ''-retired-'' = Some (length name)"
    using assms Index_sep [of name "CHR ''-''" "''retired''" rest]
    by (simp add: plain_name_def)
  moreover obtain n where "length name = Suc n"
    using assms by (cases name) (auto simp: plain_name_def)
  ultimately show ?thesis by (simp add: CanonicalContainerName_def)
qed

lemma canonical_updating:
  assumes "plain_name name"
  shows "CanonicalContainerName (name @ ''-lattice-updating'') = name"
proof -
  have nc: "\<not> Contains (name @ ''-lattice-updating'') ''-retired-''"
  proof
    assume "Contains (name @ ''-lattice-updating'') ''-retired-''"
    then have "Contains ((name @ ''-lattice'') @ CHR ''-'' # ''updating'') (''-retired'' @ ''-'')"
      by simp
    then have "Contains ((name @ ''-lattice'') @ ''-'') (''-retired'' @ ''-'')"
      by (rule Contains_snoc_sep) simp
    then have "Contains (name @ ''-lattice'') (''-retired'' @ ''-'') \<or> HasSuffix (name @ ''-lattice'') ''-retired''"
      by (rule Contains_snoc)
    moreover have "\<not> HasSuffix (name @ ''-lattice'') ''-retired''"
    proof
      assume "HasSuffix (name @ ''-lattice'') ''-retired''"
      then obtain t where "name @ ''-lattice'' = t @ ''-retired''" by (auto simp: HasSuffix_iff)
      from arg_cong [OF this, of last] show False by simp
    qed
    ultimately have "Contains (name @ CHR ''-'' # ''lattice'') (''-retired'' @ ''-'')" by simp
    then have "Contains (name @ ''-'') (''-retired'' @ ''-'')" by (rule Contains_snoc_sep) simp
    with assms show False by (simp add: plain_name_def)
  qed
  then show ?thesis
    by (simp add: CanonicalContainerName_def Contains_def)
qed

section \<open>Bind mounts as paths\<close>

text \<open>The elements of the path a rooted string resolves to.\<close>

definition path_elems :: "string \<Rightarrow> string list" where
  "path_elems p = clean_elems [] (Split p CHR ''/'')"

definition slash_free :: "string \<Rightarrow> bool" where
  "slash_free x = (CHR ''/'' \<notin> set x)"

lemma Split_sep_free: "x \<in> set (Split s d) \<Longrightarrow> d \<notin> set x"
  by (induction s d arbitrary: x rule: Split.induct) (auto split: list.splits if_splits)

lemma clean_elems_set: "set (clean_elems done xs) \<subseteq> set done \<union> set xs"
proof (induction "done" xs rule: clean_elems.induct)
  case (2 "done" x xs)
  then show ?case by (auto dest: in_set_butlastD)
qed simp

lemma path_elems_slash_free: "list_all slash_free (path_elems p)"
  using clean_elems_set [of "[]" "Split p CHR ''/''"]
  by (auto simp: path_elems_def list_all_iff slash_free_def dest: Split_sep_free)

definition rooted :: "string list \<Rightarrow> string" where
  "rooted es = concat (map (\<lambda>e. CHR ''/'' # e) es)"

lemma rooted_simps [simp]: "rooted [] = []" "rooted (e # es) = CHR ''/'' # e @ rooted es"
  by (simp_all add: rooted_def)

lemma rooted_join: "es \<noteq> [] \<Longrightarrow> CHR ''/'' # joinWith ''/'' es = rooted es"
  by (induction "''/''" es rule: joinWith.induct) auto

definition at_sep :: "string \<Rightarrow> bool" where
  "at_sep r = (r = [] \<or> hd r = CHR ''/'')"

lemma at_sep_simps [simp]: "at_sep []" "at_sep (CHR ''/'' # r)" "at_sep (rooted es)"
  "at_sep (rooted es @ CHR ''/'' # r)"
  by (cases es; simp add: at_sep_def)+

lemma slash_free_split:
  assumes "x @ r = y @ s" "slash_free x" "slash_free y" "at_sep r" "at_sep s"
  shows "x = y \<and> r = s"
  using assms
proof (induction x arbitrary: y)
  case Nil
  then show ?case by (cases y; cases r) (auto simp: at_sep_def slash_free_def)
next
  case (Cons c x)
  then show ?case by (cases y; cases s) (auto simp: at_sep_def slash_free_def)
qed

lemma rooted_eq_iff:
  "list_all slash_free xs \<Longrightarrow> list_all slash_free ys \<Longrightarrow> rooted xs = rooted ys \<longleftrightarrow> xs = ys"
proof (induction ys arbitrary: xs)
  case Nil
  then show ?case by (cases xs) auto
next
  case (Cons y ys)
  then show ?case
    by (cases xs) (auto dest: slash_free_split)
qed

lemma rooted_below_iff:
  assumes "list_all slash_free xs" "list_all slash_free ys"
  shows "rooted xs = rooted ys \<or> HasPrefix (rooted xs) (rooted ys @ ''/'') \<longleftrightarrow> prefix ys xs"
  using assms
proof (induction ys arbitrary: xs)
  case Nil
  then show ?case by (cases xs) (auto simp: HasPrefix_def)
next
  case (Cons y ys)
  show ?case
  proof (cases xs)
    case Nil
    then show ?thesis by (simp add: HasPrefix_def)
  next
    case (Cons x zs)
    have "rooted (x # zs) = rooted (y # ys) \<or> HasPrefix (rooted (x # zs)) (rooted (y # ys) @ ''/'')
      \<longleftrightarrow> x = y \<and> (rooted zs = rooted ys \<or> HasPrefix (rooted zs) (rooted ys @ ''/''))"
      using Cons Cons.prems
      by (auto simp: HasPrefix_iff dest: slash_free_split)
    with Cons Cons.prems Cons.IH [of zs] show ?thesis by auto
  qed
qed

lemma filepath_Clean_elems:
  "filepath_Clean p = (if path_elems p = [] then ''/'' else rooted (path_elems p))"
  by (simp add: filepath_Clean_def path_elems_def rooted_join)

lemma clean_below_iff:
  assumes "es \<noteq> []" "list_all slash_free es" "hd es \<noteq> []"
  shows "filepath_Clean p = rooted es \<or> HasPrefix (filepath_Clean p) (rooted es @ ''/'')
    \<longleftrightarrow> prefix es (path_elems p)"
proof (cases "path_elems p = []")
  case True
  obtain e fs where es: "es = e # fs" using assms(1) by (cases es) auto
  have "slash_free e" using assms es by simp
  then show ?thesis
    using True es assms(3) by (cases e) (auto simp: filepath_Clean_elems HasPrefix_def)
next
  case False
  then show ?thesis
    using rooted_below_iff [OF path_elems_slash_free assms(2)] by (simp add: filepath_Clean_elems)
qed

text \<open>Every blocked path is the rooted form of its own elements.\<close>

lemma blocked_elems:
  assumes "b \<in> set blockedHostPaths"
  shows "rooted (path_elems b) = b" "path_elems b \<noteq> []" "hd (path_elems b) \<noteq> []"
  using assms
  by (auto simp: blockedHostPaths_def path_elems_def)

text \<open>
  C15: the bind-mount guard is exact on paths. A rooted host path is accepted if and only if
  the path it resolves to (with empty, dot and dot-dot elements resolved) is neither one of
  the blocked paths nor below one, element by element; in particular no spelling of a path
  with extra slashes or dot-dot elements evades it, and \<open>/etcetera\<close> is not \<open>/etc\<close>.
\<close>

theorem host_path_guard_exact:
  assumes "HasPrefix p ''/''"
  shows "validateHostPath p = None \<longleftrightarrow>
    (\<forall>b\<in>set blockedHostPaths. \<not> prefix (path_elems b) (path_elems p))"
proof -
  have eq: "filepath_Clean p = b \<or> HasPrefix (filepath_Clean p) (b @ ''/'') \<longleftrightarrow>
      prefix (path_elems b) (path_elems p)" if "b \<in> set blockedHostPaths" for b
    using clean_below_iff [OF _ path_elems_slash_free, of b p] blocked_elems [OF that] by simp
  have "validateHostPath p = None \<longleftrightarrow>
      find (\<lambda>b. filepath_Clean p = b \<or> HasPrefix (filepath_Clean p) (b @ ''/'')) blockedHostPaths = None"
    using assms by (simp add: validateHostPath_def Let_def split: option.splits)
  also have "\<dots> \<longleftrightarrow> (\<forall>b\<in>set blockedHostPaths.
      \<not> (filepath_Clean p = b \<or> HasPrefix (filepath_Clean p) (b @ ''/'')))"
    by (auto simp: find_None_iff)
  finally show ?thesis using eq by simp
qed

theorem host_path_guard_exact_witness:
  "HasPrefix ''/srv/../etc/./ssl'' ''/'' \<and> validateHostPath ''/srv/../etc/./ssl'' \<noteq> None"
proof
  show p: "HasPrefix ''/srv/../etc/./ssl'' ''/''" by (simp add: HasPrefix_def)
  have "''/etc'' \<in> set blockedHostPaths" by (simp add: blockedHostPaths_def)
  moreover have "prefix (path_elems ''/etc'') (path_elems ''/srv/../etc/./ssl'')"
    by (simp add: path_elems_def)
  ultimately show "validateHostPath ''/srv/../etc/./ssl'' \<noteq> None"
    using host_path_guard_exact [OF p] by blast
qed

text \<open>
  names round trip. For a plain canonical name, each of the names the runner itself
  gives to its containers (with a generated deploy suffix, retired at some time, or the
  temporary copy of a recreate) is mapped back to the canonical name, and is recognised
  as a variant of it.
\<close>

theorem runner_names_round_trip:
  assumes "plain_name name" and "d \<in> {name @ ''-'' @ result (GenerateSuffix E) h,
    name @ ''-retired-'' @ Itoa t, name @ ''-lattice-updating''}"
  shows "CanonicalContainerName d = name \<and> isCanonicalVariant name d"
proof -
  let ?s = "result (GenerateSuffix E) h"
  have g: "IsGeneratedSuffixSegment ?s"
    by (simp add: GenerateSuffix_def run_simps suffix_of_generated)
  have "CanonicalContainerName d = name"
    using assms canonical_generated [OF assms(1) g] canonical_retired [OF assms(1)]
      canonical_updating [OF assms(1)] by auto
  moreover have "isCanonicalVariant name d"
    using assms(2) g by (auto simp: isCanonicalVariant_def HasPrefix_def)
  ultimately show ?thesis by simp
qed

theorem runner_names_round_trip_witness:
  "plain_name ''web'' \<and> CanonicalContainerName (''web-retired-'' @ Itoa 17) = ''web''
     \<and> isCanonicalVariant ''web'' (''web-retired-'' @ Itoa 17)"
proof -
  have "plain_name ''web''" by (simp add: plain_name_def Contains_def HasPrefix_def)
  then show ?thesis
    using runner_names_round_trip [of "''web''" "''web'' @ ''-retired-'' @ Itoa 17" calm_host "[]" 17]
    by simp
qed

text \<open>
  the two notions of belonging agree up to one gap. A Docker name that is a variant of
  a plain name (and so is stopped and removed when that name is deployed) has that name as
  its canonical name (and so is deployed under the same lock), except for names in which
  \<open>-retired\<close> follows the name without a dash after it.
\<close>

theorem variants_are_canonical:
  assumes "plain_name name" and "isCanonicalVariant name d"
  shows "CanonicalContainerName d = name \<or>
    (\<exists>r. d = name @ ''-retired'' @ r \<and> \<not> HasPrefix r ''-'')"
proof -
  obtain rest where d: "d = name @ ''-'' @ rest"
    using assms(2) by (auto simp: isCanonicalVariant_def HasPrefix_iff split: if_splits)
  then consider (retired) "HasPrefix rest ''retired''" | (updating) "rest = ''lattice-updating''"
    | (generated) "IsGeneratedSuffixSegment rest"
    using assms(2) by (auto simp: isCanonicalVariant_def split: if_splits)
  then show ?thesis
  proof cases
    case retired
    then obtain r where r: "rest = ''retired'' @ r" by (auto simp: HasPrefix_iff)
    show ?thesis
    proof (cases "HasPrefix r ''-''")
      case True
      then obtain t where "r = ''-'' @ t" by (auto simp: HasPrefix_iff)
      with d r canonical_retired [OF assms(1), of t] show ?thesis by simp
    next
      case False
      with d r show ?thesis by simp
    qed
  next
    case updating
    with d canonical_updating [OF assms(1)] show ?thesis by simp
  next
    case generated
    with d canonical_generated [OF assms(1)] show ?thesis by simp
  qed
qed

theorem variants_are_canonical_witness:
  "isCanonicalVariant ''web'' ''web-retired'' \<and>
   (CanonicalContainerName ''web-retired'' = ''web'' \<or>
    (\<exists>r. ''web-retired'' = ''web'' @ ''-retired'' @ r \<and> \<not> HasPrefix r ''-''))"
proof -
  have "plain_name ''web''" by (simp add: plain_name_def Contains_def HasPrefix_def)
  moreover have "isCanonicalVariant ''web'' ''web-retired''"
    by (simp add: isCanonicalVariant_def HasPrefix_def)
  ultimately show ?thesis using variants_are_canonical [of "''web''" "''web-retired''"] by blast
qed

text \<open>The gap is real: the container \<open>web-retired\<close> is another service, yet a variant of \<open>web\<close>.\<close>

lemma variant_gap:
  "isCanonicalVariant ''web'' ''web-retired''" "CanonicalContainerName ''web-retired'' = ''web-retired''"
  by (simp_all add: isCanonicalVariant_def HasPrefix_def CanonicalContainerName_def strip_generated_def
      HasSuffix_def IsGeneratedSuffixSegment_def SuffixMarker_def)

text \<open>The root of the host and the parents of the blocked sockets are accepted.\<close>

lemma parents_accepted:
  "validateHostPath ''/'' = None" "validateHostPath ''/var/run'' = None" "validateHostPath ''/run'' = None"
  by (simp_all add: validateHostPath_def filepath_Clean_def blockedHostPaths_def HasPrefix_def)

end
