(* ===== verification/Docker_Client.thy ===== *)
theory Docker_Client
  imports Names
begin

text \<open>
  The Docker wrapper, docker/docker.go: the methods of \<open>Client\<close> that act on containers,
  images, networks and volumes, in the order of the file. Each is a program over the host
  that sends the requests the Go method sends; a context deadline shows as an error answer
  of the request it cuts short.
\<close>

section \<open>Specifications (docker.go)\<close>

record HealthCheck =
  h_Test :: "string list"
  h_Interval :: string
  h_Timeout :: string
  h_Retries :: int
  h_StartPeriod :: string

record PortMapping =
  pm_HostPort :: string
  pm_ContainerPort :: string
  pm_Protocol :: string

record ContainerSpec =
  s_Name :: string
  s_Image :: string
  s_Tag :: string
  s_PortMappings :: "PortMapping list"
  s_EnvVars :: "(string \<times> string) list"
  s_Volumes :: "(string \<times> string) list"
  s_CPULimit :: rat
  s_MemoryLimit :: int
  s_Ulimits :: "ulimit list"
  s_RestartPolicy :: string
  s_Command :: "string list"
  s_Entrypoint :: "string list"
  s_Networks :: "string list"
  s_NetworkAliases :: "string list"
  s_StackName :: string
  s_HealthCheck :: "HealthCheck option"

section \<open>Single requests\<close>

definition PullImage :: "host \<Rightarrow> string \<Rightarrow> regauth option \<Rightarrow> goerr option prog" where
  "PullImage E imageRef auth = do {
     r \<leftarrow> request (\<lambda>h. ImagePull E h imageRef auth) (EvPull imageRef auth);
     (case r of
        Some e \<Rightarrow> ret (Some (Fmt ''image pull: %w'' [FE e]))
      | None \<Rightarrow> request (PullDrain E) EvPullRead)
   }"

definition StopContainer :: "host \<Rightarrow> string \<Rightarrow> int \<Rightarrow> goerr option prog" where
  "StopContainer E cid timeout = request (\<lambda>h. ContainerStop E h cid timeout) (EvStop cid timeout)"

definition StartContainer :: "host \<Rightarrow> string \<Rightarrow> goerr option prog" where
  "StartContainer E cid = request (\<lambda>h. ContainerStart E h cid) (EvStart cid)"

definition KillContainer :: "host \<Rightarrow> string \<Rightarrow> goerr option prog" where
  "KillContainer E cid = request (\<lambda>h. ContainerKill E h cid) (EvKill cid)"

definition PauseContainer :: "host \<Rightarrow> string \<Rightarrow> goerr option prog" where
  "PauseContainer E cid = request (\<lambda>h. ContainerPause E h cid) (EvPause cid)"

definition UnpauseContainer :: "host \<Rightarrow> string \<Rightarrow> goerr option prog" where
  "UnpauseContainer E cid = request (\<lambda>h. ContainerUnpause E h cid) (EvUnpause cid)"

definition RemoveContainer :: "host \<Rightarrow> string \<Rightarrow> bool \<Rightarrow> goerr option prog" where
  "RemoveContainer E cid force = request (\<lambda>h. ContainerRemove E h cid force) (EvRemove cid force)"

definition RenameContainer :: "host \<Rightarrow> string \<Rightarrow> string \<Rightarrow> goerr option prog" where
  "RenameContainer E cid newName = request (\<lambda>h. ContainerRename E h cid newName) (EvRename cid newName)"

definition RestartContainer :: "host \<Rightarrow> string \<Rightarrow> int \<Rightarrow> goerr option prog" where
  "RestartContainer E cid timeout = request (\<lambda>h. ContainerRestart E h cid timeout) (EvRestart cid timeout)"

definition InspectContainer :: "host \<Rightarrow> string \<Rightarrow> container_json res prog" where
  "InspectContainer E cid = request (\<lambda>h. ContainerInspect E h cid) (EvInspect cid)"

definition ListContainers :: "host \<Rightarrow> string \<Rightarrow> container list res prog" where
  "ListContainers E nameFilter = request (\<lambda>h. ContainerList E h nameFilter) (EvList nameFilter)"

definition CreateNetwork :: "host \<Rightarrow> string \<Rightarrow> string \<Rightarrow> goerr option prog" where
  "CreateNetwork E name driver = request (\<lambda>h. NetworkCreate E h name driver) (EvNetCreate name driver)"

definition RemoveNetwork :: "host \<Rightarrow> string \<Rightarrow> goerr option prog" where
  "RemoveNetwork E name = request (\<lambda>h. NetworkRemove E h name) (EvNetRemove name)"

definition CreateVolume :: "host \<Rightarrow> string \<Rightarrow> string \<Rightarrow> goerr option prog" where
  "CreateVolume E name driver = request (\<lambda>h. VolumeCreate E h name driver) (EvVolCreate name driver)"

definition RemoveVolume :: "host \<Rightarrow> string \<Rightarrow> bool \<Rightarrow> goerr option prog" where
  "RemoveVolume E name force = request (\<lambda>h. VolumeRemove E h name force) (EvVolRemove name force)"

definition ConnectNetwork :: "host \<Rightarrow> string \<Rightarrow> string \<Rightarrow> goerr option prog" where
  "ConnectNetwork E net cid = request (\<lambda>h. NetworkConnect E h net cid) (EvNetConnect net cid None)"

definition create_container ::
  "host \<Rightarrow> string \<Rightarrow> config \<Rightarrow> hostconfig \<Rightarrow> netconfig \<Rightarrow> string res prog" where
  "create_container E name c hc nc =
     request (\<lambda>h. ContainerCreate E h name c hc nc) (EvCreate name c hc nc)"

section \<open>Looking containers up\<close>

definition names_of :: "container \<Rightarrow> string list" where
  "names_of c = map (\<lambda>n. TrimPrefix n ''/'') (ct_Names c)"

definition FindContainerByName :: "host \<Rightarrow> string \<Rightarrow> string res prog" where
  "FindContainerByName E name = do {
     r \<leftarrow> ListContainers E name;
     (case r of
        Inl e \<Rightarrow> ret (Inl e)
      | Inr cs \<Rightarrow> ret (Inr (case find (\<lambda>c. name \<in> set (names_of c)) cs of
                             Some c \<Rightarrow> ct_ID c | None \<Rightarrow> [])))
   }"

definition FindContainersByPrefix :: "host \<Rightarrow> string \<Rightarrow> container list res prog" where
  "FindContainersByPrefix E pre = do {
     r \<leftarrow> ListContainers E '''';
     (case r of
        Inl e \<Rightarrow> ret (Inl e)
      | Inr cs \<Rightarrow> ret (Inr (filter (\<lambda>c. list_ex (\<lambda>n. HasPrefix n pre) (names_of c)) cs)))
   }"

section \<open>Stop and remove\<close>

text \<open>
  The three attempts of the removal loop; \<open>n\<close> attempts are left.
\<close>

fun remove_attempts :: "host \<Rightarrow> string \<Rightarrow> nat \<Rightarrow> goerr option prog" where
  "remove_attempts E cid 0 =
     ret (Some (Fmt ''failed to remove container %s after 3 attempts'' [FS (take 12 cid)]))"
| "remove_attempts E cid (Suc n) = do {
     r \<leftarrow> RemoveContainer E cid True;
     (case r of
        None \<Rightarrow> ret None
      | Some e \<Rightarrow> do { emit (EvSleep 2000); remove_attempts E cid n })
   }"

definition StopAndRemoveContainer :: "host \<Rightarrow> string \<Rightarrow> int \<Rightarrow> goerr option prog" where
  "StopAndRemoveContainer E cid timeout = do {
     r \<leftarrow> StopContainer E cid timeout;
     (case r of
        Some e \<Rightarrow> do { KillContainer E cid; emit (EvSleep 1000) }
      | None \<Rightarrow> ret ());
     i \<leftarrow> InspectContainer E cid;
     (case i of
        Inr info \<Rightarrow>
          if st_Running (cj_State info)
          then do { KillContainer E cid; emit (EvSleep 2000) }
          else ret ()
      | Inl e \<Rightarrow> ret ());
     remove_attempts E cid 3
   }"

section \<open>Create and start\<close>

text \<open>The environment list in iteration order, or the first invalid variable.\<close>

fun build_env :: "(string \<times> string) list \<Rightarrow> string list res" where
  "build_env [] = Inr []"
| "build_env ((k, v) # kvs) =
     (case validateEnvKey k of
        Some e \<Rightarrow> Inl (Fmt ''invalid env var key %q: %w'' [FS k, FE e])
      | None \<Rightarrow>
        if CHR 0x00 \<in> set v then Inl (Fmt ''env var %q value contains null byte'' [FS k])
        else case build_env kvs of
               Inl e \<Rightarrow> Inl e
             | Inr env \<Rightarrow> Inr ((k @ ''='' @ v) # env))"

text \<open>Port bindings: a later mapping of the same container port replaces an earlier one.\<close>

fun build_ports :: "PortMapping list \<Rightarrow> (string \<times> string) list \<Rightarrow> (string \<times> string) list" where
  "build_ports [] acc = acc"
| "build_ports (pm # pms) acc =
     (let proto = (if pm_Protocol pm = [] then ''tcp'' else pm_Protocol pm)
      in build_ports pms (AList.update (pm_ContainerPort pm @ ''/'' @ proto) (pm_HostPort pm) acc))"

fun build_binds :: "(string \<times> string) list \<Rightarrow> string list res" where
  "build_binds [] = Inr []"
| "build_binds ((hp, cp) # vs) =
     (case validateHostPath hp of
        Some e \<Rightarrow> Inl (Fmt ''blocked volume mount %q: %w'' [FS hp, FE e])
      | None \<Rightarrow>
        (case build_binds vs of Inl e \<Rightarrow> Inl e | Inr bs \<Rightarrow> Inr ((hp @ '':'' @ cp) # bs)))"

definition parse_period :: "host \<Rightarrow> string \<Rightarrow> int" where
  "parse_period E s =
     (if s \<noteq> [] then case ParseDuration E s of Some d \<Rightarrow> d | None \<Rightarrow> 0 else 0)"

definition build_health :: "host \<Rightarrow> HealthCheck \<Rightarrow> healthconfig" where
  "build_health E hc =
     \<lparr>hcf_Test = h_Test hc,
      hcf_Interval = parse_period E (h_Interval hc),
      hcf_Timeout = parse_period E (h_Timeout hc),
      hcf_StartPeriod = parse_period E (h_StartPeriod hc),
      hcf_Retries = h_Retries hc\<rparr>"

fun blocked_network :: "string list \<Rightarrow> goerr option" where
  "blocked_network [] = None"
| "blocked_network (n # ns) =
     (if ToLower n = ''host''
      then Some (Fmt ''network mode 'host' is not allowed (bypasses container network isolation)'' [])
      else if HasPrefix (ToLower n) ''container:''
      then Some (Fmt ''network mode 'container:*' is not allowed'' [])
      else blocked_network ns)"

definition user_defined_net :: "string \<Rightarrow> bool" where
  "user_defined_net n = (n \<noteq> ''bridge'' \<and> n \<noteq> ''host'' \<and> n \<noteq> ''none'')"

definition build_endpoints :: "string list \<Rightarrow> string list \<Rightarrow> netconfig" where
  "build_endpoints nets aliases =
     fold (\<lambda>n. AList.update n
       \<lparr>ep_Aliases = (if aliases \<noteq> [] \<and> user_defined_net n then aliases else []),
        ep_IPAMConfig = None\<rparr>) nets []"

definition build_labels :: "string \<Rightarrow> (string \<times> string) list" where
  "build_labels stack =
     (''managed-by'', ''lattice'') # (if stack \<noteq> [] then [(''lattice-stack'', stack)] else [])"

definition build_config :: "host \<Rightarrow> ContainerSpec \<Rightarrow> string list \<Rightarrow> config" where
  "build_config E spec env =
     \<lparr>cfg_Image = (if s_Tag spec \<noteq> [] then s_Image spec @ '':'' @ s_Tag spec else s_Image spec),
      cfg_Env = env,
      cfg_ExposedPorts = map fst (build_ports (s_PortMappings spec) []),
      cfg_Labels = build_labels (s_StackName spec),
      cfg_Cmd = s_Command spec,
      cfg_Entrypoint = s_Entrypoint spec,
      cfg_Healthcheck = map_option (build_health E) (s_HealthCheck spec)\<rparr>"

definition build_hostconfig :: "ContainerSpec \<Rightarrow> string list \<Rightarrow> hostconfig" where
  "build_hostconfig spec binds =
     \<lparr>hc_PortBindings = build_ports (s_PortMappings spec) [],
      hc_Binds = binds,
      hc_RestartPolicy = (if s_RestartPolicy spec \<noteq> [] then s_RestartPolicy spec else ''unless-stopped''),
      hc_CPUs = (if s_CPULimit spec > 0 then Some (s_CPULimit spec) else None),
      hc_Memory = (if s_MemoryLimit spec > 0 then s_MemoryLimit spec else 0),
      hc_Ulimits = s_Ulimits spec,
      hc_Privileged = False,
      hc_NetworkMode = (case s_Networks spec of [] \<Rightarrow> [] | n # _ \<Rightarrow> n)\<rparr>"

definition connect_extra :: "host \<Rightarrow> ContainerSpec \<Rightarrow> string \<Rightarrow> unit prog" where
  "connect_extra E spec cid = forM (tl (s_Networks spec)) (\<lambda>n. do {
     request (\<lambda>h. NetworkConnect E h n cid)
       (EvNetConnect n cid
         (if s_NetworkAliases spec \<noteq> [] \<and> user_defined_net n then Some (s_NetworkAliases spec) else None));
     ret ()
   })"

definition CreateAndStartContainer :: "host \<Rightarrow> ContainerSpec \<Rightarrow> string res prog" where
  "CreateAndStartContainer E spec = do {
     order \<leftarrow> observe (MapOrder E);
     (case build_env (shuffle (order ''EnvVars'') (s_EnvVars spec)) of
        Inl e \<Rightarrow> ret (Inl e)
      | Inr env \<Rightarrow>
        (case build_binds (shuffle (order ''Volumes'') (s_Volumes spec)) of
           Inl e \<Rightarrow> ret (Inl e)
         | Inr binds \<Rightarrow>
           (case blocked_network (s_Networks spec) of
              Some e \<Rightarrow> ret (Inl e)
            | None \<Rightarrow> do {
                r \<leftarrow> create_container E (s_Name spec) (build_config E spec env)
                      (build_hostconfig spec binds)
                      (build_endpoints (s_Networks spec) (s_NetworkAliases spec));
                (case r of
                   Inl e \<Rightarrow> ret (Inl (Fmt ''container create: %w'' [FE e]))
                 | Inr cid \<Rightarrow> do {
                     connect_extra E spec cid;
                     s \<leftarrow> StartContainer E cid;
                     (case s of
                        Some e \<Rightarrow> ret (Inl (Fmt ''container start: %w'' [FE e]))
                      | None \<Rightarrow> ret (Inr cid))
                   })
              })))
   }"

section \<open>What is created\<close>

lemmas client_ops = PullImage_def StopContainer_def StartContainer_def KillContainer_def
  PauseContainer_def UnpauseContainer_def RemoveContainer_def RenameContainer_def
  RestartContainer_def InspectContainer_def ListContainers_def CreateNetwork_def
  RemoveNetwork_def CreateVolume_def RemoveVolume_def ConnectNetwork_def create_container_def
  FindContainerByName_def

definition env_letter :: "char \<Rightarrow> bool" where
  "env_letter c = (c \<ge> CHR ''A'' \<and> c \<le> CHR ''Z'' \<or> c \<ge> CHR ''a'' \<and> c \<le> CHR ''z'' \<or> c = CHR ''_'')"

lemma env_key_from_None:
  "i > 0 \<Longrightarrow> env_key_from i key = None \<longleftrightarrow> list_all (\<lambda>c. env_letter c \<or> is_digit c) key"
  by (induction i key rule: env_key_from.induct) (auto simp: env_letter_def is_digit_def)

lemma validateEnvKey_None:
  "validateEnvKey key = None \<longleftrightarrow>
     (case key of [] \<Rightarrow> False | c # cs \<Rightarrow> env_letter c \<and> list_all (\<lambda>c. env_letter c \<or> is_digit c) cs)"
  by (cases key) (auto simp: validateEnvKey_def env_letter_def env_key_from_None)

lemma env_key_no_equals: "validateEnvKey key = None \<Longrightarrow> CHR ''='' \<notin> set key"
  by (auto simp: validateEnvKey_None env_letter_def is_digit_def list_all_iff less_eq_char_def
      split: list.splits)

definition env_entry_ok :: "string \<times> string \<Rightarrow> bool" where
  "env_entry_ok kv = (validateEnvKey (fst kv) = None \<and> CHR 0x00 \<notin> set (snd kv))"

lemma build_env_ok:
  "build_env kvs = Inr env \<longleftrightarrow>
     list_all env_entry_ok kvs \<and> env = map (\<lambda>(k, v). k @ ''='' @ v) kvs"
proof -
  have ok: "list_all env_entry_ok kvs \<Longrightarrow> build_env kvs = Inr (map (\<lambda>(k, v). k @ ''='' @ v) kvs)"
    by (induction kvs rule: build_env.induct) (auto simp: env_entry_ok_def)
  have "build_env kvs = Inr env \<Longrightarrow> list_all env_entry_ok kvs"
    by (induction kvs arbitrary: env rule: build_env.induct)
      (auto simp: env_entry_ok_def split: option.splits sum.splits if_splits)
  with ok show ?thesis by auto
qed

lemma build_binds_ok:
  "build_binds vs = Inr bs \<longleftrightarrow>
     list_all (\<lambda>(hp, _). validateHostPath hp = None) vs \<and> bs = map (\<lambda>(hp, cp). hp @ '':'' @ cp) vs"
  by (induction vs arbitrary: bs rule: build_binds.induct) (fastforce split: option.splits sum.splits)+

lemma blocked_network_None:
  "blocked_network ns = None \<longleftrightarrow>
     list_all (\<lambda>n. ToLower n \<noteq> ''host'' \<and> \<not> HasPrefix (ToLower n) ''container:'') ns"
  by (induction ns) auto

text \<open>A create request that keeps the isolation the wrapper promises.\<close>

definition isolated_create :: "ContainerSpec \<Rightarrow> event \<Rightarrow> bool" where
  "isolated_create spec e = (case e of
     EvCreate n c hc nc r \<Rightarrow>
       n = s_Name spec \<and> \<not> hc_Privileged hc \<and> ToLower (hc_NetworkMode hc) \<noteq> ''host'' \<and>
       \<not> HasPrefix (ToLower (hc_NetworkMode hc)) ''container:'' \<and>
       mset (cfg_Env c) = image_mset (\<lambda>(k, v). k @ ''='' @ v) (mset (s_EnvVars spec)) \<and>
       list_all env_entry_ok (s_EnvVars spec) \<and>
       mset (hc_Binds hc) = image_mset (\<lambda>(hp, cp). hp @ '':'' @ cp) (mset (s_Volumes spec)) \<and>
       list_all (\<lambda>(hp, _). validateHostPath hp = None) (s_Volumes spec) \<and>
       map_of (cfg_Labels c) ''managed-by'' = Some ''lattice''
   | EvNetConnect n i al r \<Rightarrow> n \<in> set (s_Networks spec)
   | EvStart i r \<Rightarrow> True
   | _ \<Rightarrow> False)"

lemma list_all_mset: "mset xs = mset ys \<Longrightarrow> list_all P xs = list_all P ys"
  by (metis list_all_iff set_mset_mset)

lemma isolated_create_request:
  assumes "build_env (shuffle o1 (s_EnvVars spec)) = Inr env"
    and "build_binds (shuffle o2 (s_Volumes spec)) = Inr binds"
    and "blocked_network (s_Networks spec) = None"
  shows "isolated_create spec (EvCreate (s_Name spec) (build_config E spec env)
    (build_hostconfig spec binds) nc r)"
  using assms list_all_mset [OF mset_shuffle, of _ o1 "s_EnvVars spec"]
    list_all_mset [OF mset_shuffle, of _ o2 "s_Volumes spec"]
  by (auto simp: isolated_create_def build_hostconfig_def build_config_def build_labels_def
      build_env_ok build_binds_ok blocked_network_None ToLower_def HasPrefix_def split: list.splits)

lemma emits_connect_extra: "emits (isolated_create spec) (connect_extra E spec cid)"
  by (cases "s_Networks spec")
    (auto simp: connect_extra_def isolated_create_def intro!: emits_intros)

text \<open>What the call returns: the id of a container it created and started.\<close>

definition creates :: "string \<Rightarrow> event \<Rightarrow> bool" where
  "creates i e = (case e of EvCreate _ _ _ _ (Inr j) \<Rightarrow> j = i | _ \<Rightarrow> False)"

definition create_reported :: "string res \<Rightarrow> event list \<Rightarrow> bool" where
  "create_reported r es = (case r of
     Inr i \<Rightarrow> list_ex (creates i) es \<and> es \<noteq> [] \<and> last es = EvStart i None
   | Inl e \<Rightarrow> (\<forall>i. EvStart i None \<notin> set es))"

lemma does_connect_extra:
  "does (connect_extra E spec cid) (\<lambda>_ es. list_all (isolated_create spec) es \<and> (\<forall>i r. EvStart i r \<notin> set es))"
proof -
  have "emits (\<lambda>e. \<forall>i r. e \<noteq> EvStart i r) (connect_extra E spec cid)"
    by (auto simp: connect_extra_def intro!: emits_intros)
  from does_conj [OF emits_connect_extra [unfolded does_emits] this [unfolded does_emits]]
  show ?thesis by (rule does_mono) (auto simp: list_all_iff)
qed

lemma CreateAndStart_does:
  "does (CreateAndStartContainer E spec)
     (\<lambda>r es. list_all (isolated_create spec) es \<and> create_reported r es)"
proof -
  have start: "isolated_create spec (EvStart i r)" for i r by (simp add: isolated_create_def)
  show ?thesis
    unfolding CreateAndStartContainer_def client_ops create_reported_def
    by (auto simp: creates_def intro!: does_intros does_bind [OF does_connect_extra] isolated_create_request start)
qed


end
