(* ===== verification/Recreate.thy ===== *)
theory Recreate
  imports Docker_Client
begin

text \<open>
  \<open>Client.GracefulRecreate\<close> of docker/docker.go: replace one container by a copy of
  itself with a new image, keeping the old one, renamed and stopped, until the copy is up.
\<close>

section \<open>The health gate\<close>

text \<open>
  The two identical polling loops (30 s, one inspect every 2 s). At the \<open>k\<close>-th check at
  least \<open>2 k\<close> seconds have passed, plus whatever the requests took; so the loop ends
  after at most 15 checks. An inspect that fails ends the wait like a healthy answer.
\<close>

datatype gate = GateOk | GateStopped | GateUnhealthy

function health_gate :: "host \<Rightarrow> string \<Rightarrow> nat \<Rightarrow> gate prog" where
  "health_gate E cid k = do {
     j \<leftarrow> observe (Jitter E);
     (if 2000 * k + j < 30000
      then do {
        i \<leftarrow> InspectContainer E cid;
        (case i of
           Inl e \<Rightarrow> ret GateOk
         | Inr info \<Rightarrow>
           if \<not> st_Running (cj_State info)
           then do { RemoveContainer E cid True; ret GateStopped }
           else (case st_Health (cj_State info) of
                   None \<Rightarrow> ret GateOk
                 | Some (status, _) \<Rightarrow>
                   if status = ''healthy'' then ret GateOk
                   else if status = ''unhealthy''
                   then do { StopContainer E cid 5; RemoveContainer E cid True; ret GateUnhealthy }
                   else do { emit (EvSleep 2000); health_gate E cid (Suc k) }))
      }
      else ret GateOk)
   }"
  by pat_completeness auto
termination
  by (relation "measure (\<lambda>(E, cid, k). 15 - k)") auto

declare health_gate.simps [simp del]

section \<open>GracefulRecreate\<close>

definition recreate_endpoints :: "netconfig \<Rightarrow> string \<Rightarrow> netconfig" where
  "recreate_endpoints nets originalName =
     map (\<lambda>(n, ep). (n, \<lparr>ep_Aliases = (if user_defined_net n then ep_Aliases ep @ [originalName] else []),
                         ep_IPAMConfig = ep_IPAMConfig ep\<rparr>)) nets"

definition recreate_config :: "config \<Rightarrow> string \<Rightarrow> config" where
  "recreate_config c newImage =
     c\<lparr>cfg_Image := (if newImage \<noteq> [] then newImage else cfg_Image c),
       cfg_Labels := AList.update ''managed-by'' ''lattice'' (cfg_Labels c)\<rparr>"

definition drop_leftover :: "host \<Rightarrow> string \<Rightarrow> unit prog" where
  "drop_leftover E tempName = do {
     t \<leftarrow> FindContainerByName E tempName;
     (case t of
        Inr tempID \<Rightarrow>
          if tempID \<noteq> [] then do { StopContainer E tempID 5; RemoveContainer E tempID True; ret () }
          else ret ()
      | Inl e \<Rightarrow> ret ())
   }"

text \<open>Step 3: rename the old container out of the way and stop it; the flag is \<open>oldRetired\<close>.\<close>

definition retire_old :: "host \<Rightarrow> string \<Rightarrow> string \<Rightarrow> bool prog" where
  "retire_old E cid originalName = do {
     now \<leftarrow> observe (UnixNano E);
     r \<leftarrow> RenameContainer E cid (originalName @ ''-retired-'' @ Itoa now);
     (case r of
        Some e \<Rightarrow> do {
          StopContainer E cid 10;
          RemoveContainer E cid True;
          emit (EvSleep 2000);
          ret False
        }
      | None \<Rightarrow> do { StopContainer E cid 10; ret True })
   }"

definition restoreOld :: "host \<Rightarrow> string \<Rightarrow> string \<Rightarrow> bool \<Rightarrow> unit prog" where
  "restoreOld E cid originalName oldRetired =
     (if \<not> oldRetired then ret ()
      else do { RenameContainer E cid originalName; StartContainer E cid; ret () })"

text \<open>\<open>removeOld\<close> removes in a goroutine of its own; here the removal is the last request.\<close>

definition removeOld :: "host \<Rightarrow> string \<Rightarrow> bool \<Rightarrow> unit prog" where
  "removeOld E cid oldRetired =
     (if \<not> oldRetired then ret () else do { RemoveContainer E cid True; ret () })"

text \<open>Step 4: the copy again, with the host ports, under the original name.\<close>

definition recreate_final ::
  "host \<Rightarrow> string \<Rightarrow> string \<Rightarrow> config \<Rightarrow> hostconfig \<Rightarrow> netconfig \<Rightarrow> string \<Rightarrow> bool \<Rightarrow> string res prog" where
  "recreate_final E cid originalName c hc nc tempID oldRetired = do {
     StopContainer E tempID 5;
     RemoveContainer E tempID True;
     f \<leftarrow> create_container E originalName c hc nc;
     (case f of
        Inl e \<Rightarrow> do {
          restoreOld E cid originalName oldRetired;
          ret (Inl (Fmt ''recreate with ports: %w'' [FE e]))
        }
      | Inr finalID \<Rightarrow> do {
          s \<leftarrow> StartContainer E finalID;
          (case s of
             Some e \<Rightarrow> do {
               RemoveContainer E finalID True;
               restoreOld E cid originalName oldRetired;
               ret (Inl (Fmt ''start final container: %w'' [FE e]))
             }
           | None \<Rightarrow> do {
               g \<leftarrow> health_gate E finalID 0;
               (case g of
                  GateStopped \<Rightarrow> do {
                    restoreOld E cid originalName oldRetired;
                    ret (Inl (Fmt ''final container stopped unexpectedly after port bind'' []))
                  }
                | GateUnhealthy \<Rightarrow> do {
                    restoreOld E cid originalName oldRetired;
                    ret (Inl (Fmt ''final container is unhealthy after port bind'' []))
                  }
                | GateOk \<Rightarrow> do { removeOld E cid oldRetired; ret (Inr finalID) })
             })
        })
   }"

definition recreate_swap ::
  "host \<Rightarrow> string \<Rightarrow> string \<Rightarrow> config \<Rightarrow> hostconfig \<Rightarrow> netconfig \<Rightarrow> string \<Rightarrow> string res prog" where
  "recreate_swap E cid originalName c hc nc tempID = do {
     oldRetired \<leftarrow> retire_old E cid originalName;
     (if hc_PortBindings hc \<noteq> []
      then recreate_final E cid originalName c hc nc tempID oldRetired
      else do {
        RenameContainer E tempID originalName;
        removeOld E cid oldRetired;
        ret (Inr tempID)
      })
   }"

definition GracefulRecreate :: "host \<Rightarrow> string \<Rightarrow> string \<Rightarrow> string res prog" where
  "GracefulRecreate E cid newImage = do {
     i \<leftarrow> InspectContainer E cid;
     (case i of
        Inl e \<Rightarrow> ret (Inl (Fmt ''inspect container: %w'' [FE e]))
      | Inr info \<Rightarrow>
        (case (cj_Config info, cj_HostConfig info) of
           (Some cfg, Some hc) \<Rightarrow>
           (let originalName = TrimPrefix (cj_Name info) ''/'';
               c = recreate_config cfg newImage;
               nc = recreate_endpoints (cj_Networks info) originalName
            in do {
             drop_leftover E (originalName @ ''-lattice-updating'');
             r \<leftarrow> create_container E (originalName @ ''-lattice-updating'') c
                   (hc\<lparr>hc_PortBindings := []\<rparr>) nc;
             (case r of
                Inl e \<Rightarrow> ret (Inl (Fmt ''create temp container: %w'' [FE e]))
              | Inr tempID \<Rightarrow> do {
                  s \<leftarrow> StartContainer E tempID;
                  (case s of
                     Some e \<Rightarrow> do {
                       RemoveContainer E tempID True;
                       ret (Inl (Fmt ''start temp container: %w'' [FE e]))
                     }
                   | None \<Rightarrow> do {
                       g \<leftarrow> health_gate E tempID 0;
                       (case g of
                          GateStopped \<Rightarrow> ret (Inl (Fmt ''temp container stopped unexpectedly'' []))
                        | GateUnhealthy \<Rightarrow> ret (Inl (Fmt ''temp container is unhealthy'' []))
                        | GateOk \<Rightarrow> recreate_swap E cid originalName c hc nc tempID)
                     })
                })
           })
         | _ \<Rightarrow> ret (Inl (Fmt ''inspect returned incomplete container config'' []))))
   }"

section \<open>What the gate touches\<close>

text \<open>The events of the health gate of a container: none touches another container.\<close>

definition gate_event :: "string \<Rightarrow> event \<Rightarrow> bool" where
  "gate_event c e = (e = EvSleep 2000 \<or> (\<exists>r. e = EvInspect c r) \<or> (\<exists>r. e = EvRemove c True r) \<or>
     (\<exists>r. e = EvStop c 5 r))"

lemma gate_event_simps [simp]:
  "gate_event c (EvSleep 2000)" "gate_event c (EvInspect c i)" "gate_event c (EvRemove c True r)"
  "gate_event c (EvStop c 5 r)"
  by (simp_all add: gate_event_def)

lemma emits_health_gate: "emits (gate_event cid) (health_gate E cid k)"
proof (induction E cid k rule: health_gate.induct)
  case (1 E cid k)
  then show ?case
    by (subst health_gate.simps)
      (auto intro!: emits_intros simp: client_ops split: prod.splits)
qed

text \<open>An event that neither stops nor removes the container.\<close>

definition leaves_up :: "string \<Rightarrow> event \<Rightarrow> bool" where
  "leaves_up c e =
     (case e of EvRemove d _ _ \<Rightarrow> d \<noteq> c | EvStop d _ _ \<Rightarrow> d \<noteq> c | EvKill d _ \<Rightarrow> d \<noteq> c | _ \<Rightarrow> True)"

definition not_removing :: "string \<Rightarrow> event \<Rightarrow> bool" where
  "not_removing c e = (case e of EvRemove d _ _ \<Rightarrow> d \<noteq> c | _ \<Rightarrow> True)"

lemma gate_event_other: "gate_event c e \<Longrightarrow> c \<noteq> d \<Longrightarrow> leaves_up d e \<and> not_removing d e"
  by (auto simp: gate_event_def leaves_up_def not_removing_def)

lemma gate_events_other:
  "list_all (gate_event c) es \<Longrightarrow> c \<noteq> d \<Longrightarrow>
     list_all (leaves_up d) es \<and> list_all (not_removing d) es"
  using gate_event_other by (simp add: list_all_iff) blast

text \<open>
  What is left of the old container when a recreate fails: it was never stopped, or its
  last two requests give it its name back and start it. The daemon refusing to rename it is
  the one case in which it is given up.
\<close>

fun restored :: "string \<Rightarrow> string \<Rightarrow> event list \<Rightarrow> bool" where
  "restored cid orig [EvRename c n r, EvStart c' s] = (c = cid \<and> n = orig \<and> c' = cid)"
| "restored cid orig (e # es) = restored cid orig es"
| "restored cid orig [] = False"

definition rename_refused :: "string \<Rightarrow> event \<Rightarrow> bool" where
  "rename_refused cid e = (case e of EvRename c n (Some _) \<Rightarrow> c = cid | _ \<Rightarrow> False)"

definition old_recovered :: "string \<Rightarrow> string \<Rightarrow> event list \<Rightarrow> bool" where
  "old_recovered cid orig es =
     (list_ex (rename_refused cid) es \<or> list_all (leaves_up cid) es \<or>
      list_all (not_removing cid) es \<and> restored cid orig es)"

lemma restored_Cons: "restored cid orig es \<Longrightarrow> restored cid orig (e # es)"
  by (cases "(cid, orig, e # es)" rule: restored.cases) auto

lemma restored_append: "restored cid orig es \<Longrightarrow> restored cid orig (xs @ es)"
  by (induction xs) (auto intro: restored_Cons)

lemma leaves_up_simps [simp]:
  "leaves_up c (EvStop d t r) \<longleftrightarrow> d \<noteq> c" "leaves_up c (EvRemove d f r) \<longleftrightarrow> d \<noteq> c"
  "leaves_up c (EvKill d r) \<longleftrightarrow> d \<noteq> c"
  "leaves_up c (EvStart d r)" "leaves_up c (EvRename d n r)" "leaves_up c (EvInspect d ci)"
  "leaves_up c (EvList n l)" "leaves_up c (EvCreate n cf hc nc i)" "leaves_up c (EvSleep k)"
  by (auto simp: leaves_up_def)

lemma not_removing_simps [simp]:
  "not_removing c (EvRemove d f r) \<longleftrightarrow> d \<noteq> c" "not_removing c (EvStop d t q)"
  "not_removing c (EvStart d r)" "not_removing c (EvRename d n r)"
  "not_removing c (EvCreate n cf hc nc i)" "not_removing c (EvSleep k)"
  by (auto simp: not_removing_def)

text \<open>The daemon never gives a new container the id of an existing one.\<close>

definition creates_other :: "host \<Rightarrow> string \<Rightarrow> bool" where
  "creates_other E cid = (\<forall>h n c hc nc i. ContainerCreate E h n c hc nc = Inr i \<longrightarrow> i \<noteq> cid)"

text \<open>The daemon does not list the container under the name of a leftover copy.\<close>

definition not_a_leftover :: "host \<Rightarrow> string \<Rightarrow> bool" where
  "not_a_leftover E cid =
     (\<forall>h n cs c. ContainerList E h (n @ ''-lattice-updating'') = Inr cs \<longrightarrow> c \<in> set cs \<longrightarrow>
        n @ ''-lattice-updating'' \<in> set (names_of c) \<longrightarrow> ct_ID c \<noteq> cid)"

lemma find_leftover:
  assumes "not_a_leftover E cid"
    and "ContainerList E h (n @ ''-lattice-updating'') = Inr cs"
    and "find (\<lambda>c. n @ ''-lattice-updating'' \<in> set (names_of c)) cs = Some c"
  shows "ct_ID c \<noteq> cid"
  using assms(1,2) find_SomeD [OF assms(3)] unfolding not_a_leftover_def by blast

lemma emits_drop_leftover:
  assumes "not_a_leftover E cid"
  shows "emits (leaves_up cid) (drop_leftover E (n @ ''-lattice-updating''))"
  unfolding does_emits using find_leftover [OF assms]
  by (auto simp: drop_leftover_def client_ops intro!: does_intros split: option.splits)

lemma creates_otherD:
  "creates_other E cid \<Longrightarrow> ContainerCreate E h n c hc nc = Inr i \<Longrightarrow> i \<noteq> cid"
  by (auto simp: creates_other_def)

lemma creates_other_simp: "creates_other E cid \<Longrightarrow> ContainerCreate E h n c hc nc \<noteq> Inr cid"
  by (blast dest: creates_otherD)

lemma gate_not_removing: "list_all (gate_event c) es \<Longrightarrow> c \<noteq> d \<Longrightarrow> list_all (not_removing d) es"
  by (blast dest: gate_events_other)

lemma gate_leaves_up: "list_all (gate_event c) es \<Longrightarrow> c \<noteq> d \<Longrightarrow> list_all (leaves_up d) es"
  by (blast dest: gate_events_other)

lemma leaves_up_not_removing: "list_all (leaves_up c) es \<Longrightarrow> list_all (not_removing c) es"
  by (auto simp: list_all_iff leaves_up_def not_removing_def split: event.splits)

text \<open>Once the old container is retired, an error of the final step ends with its restoration.\<close>

lemma does_restoreOld:
  "does (restoreOld E cid orig True) (\<lambda>_ es. restored cid orig es \<and> list_all (not_removing cid) es)"
  by (auto simp: restoreOld_def client_ops intro!: does_intros)

lemma does_bind_restoreOld:
  assumes "\<And>es. restored cid orig es \<Longrightarrow> list_all (not_removing cid) es \<Longrightarrow> Q x es"
  shows "does (State_Monad.bind (restoreOld E cid orig True) (\<lambda>_. ret x)) Q"
  using assms by (auto intro!: does_bind [OF does_restoreOld] does_ret)

lemma recreate_final_error:
  assumes "tempID \<noteq> cid" "creates_other E cid"
  shows "does (recreate_final E cid orig c hc nc tempID True)
    (\<lambda>r es. isl r \<longrightarrow> restored cid orig es \<and> list_all (not_removing cid) es)"
  using assms
  by (auto simp: recreate_final_def removeOld_def client_ops
      intro!: does_intros does_bind_restoreOld does_bind_emits [OF emits_health_gate] restored_Cons
      split: gate.splits)
    (blast intro: restored_append gate_not_removing dest: creates_otherD)+

lemma extends_health_gate [emits_intros]: "extends (health_gate E cid k)"
  by (rule emits_extends [OF emits_health_gate])

lemma extends_recreate_final: "extends (recreate_final E cid orig c hc nc tempID b)"
  by (auto simp: recreate_final_def restoreOld_def removeOld_def client_ops
      intro!: emits_intros split: gate.splits)

text \<open>After a rename that the daemon accepted, the swap keeps or restores the old container.\<close>

lemma recreate_swap_error:
  assumes "tempID \<noteq> cid" "creates_other E cid"
  shows "does (recreate_swap E cid orig c hc nc tempID)
    (\<lambda>r es. isl r \<longrightarrow> list_ex (rename_refused cid) es \<or>
       list_all (not_removing cid) es \<and> restored cid orig es)"
proof -
  have ext: "does (recreate_final E cid orig c hc nc tempID False) (\<lambda>_ _. True)"
    by (rule does_emitsI [OF extends_recreate_final]) simp
  show ?thesis
    by (auto simp: recreate_swap_def retire_old_def removeOld_def client_ops rename_refused_def
      intro!: does_intros does_mono [OF recreate_final_error [OF assms]] does_mono [OF ext]
        restored_Cons)
qed

section \<open>The outcome of a recreate\<close>

text \<open>The container was started by a request that succeeded, and is not stopped after it.\<close>

fun left_running :: "string \<Rightarrow> event list \<Rightarrow> bool" where
  "left_running i [] = False"
| "left_running i (e # es) = (e = EvStart i None \<and> list_all (leaves_up i) es \<or> left_running i es)"

lemma left_running_append: "left_running i es \<Longrightarrow> left_running i (xs @ es)"
  by (induction xs) auto

lemma health_gate_ok:
  "does (health_gate E cid k)
     (\<lambda>g es. list_all (gate_event cid) es \<and> (g = GateOk \<longrightarrow> list_all (leaves_up cid) es))"
proof (induction "15 - k" arbitrary: k rule: less_induct)
  case less
  show ?case
    by (subst health_gate.simps,
      auto simp: client_ops intro!: does_intros does_mono [OF less] split: prod.splits, arith)
qed

lemma recreate_swap_ok:
  assumes "tempID \<noteq> cid" "creates_other E cid"
  shows "does (recreate_swap E cid orig c hc nc tempID)
    (\<lambda>r es. case r of Inr i \<Rightarrow> (i = tempID \<and> list_all (leaves_up i) es \<or> left_running i es) \<and> i \<noteq> cid | Inl _ \<Rightarrow> True)"
  using assms
  by (auto simp: recreate_swap_def retire_old_def removeOld_def recreate_final_def restoreOld_def
        client_ops creates_other_simp
      intro!: does_intros does_bind [OF health_gate_ok] split: gate.splits)

text \<open>The name the recreate works under, from its first request.\<close>

definition old_name :: "event list \<Rightarrow> string" where
  "old_name es = (case es of EvInspect _ (Inr info) # _ \<Rightarrow> TrimPrefix (cj_Name info) ''/'' | _ \<Rightarrow> [])"

definition recreate_outcome :: "string \<Rightarrow> string res \<Rightarrow> event list \<Rightarrow> bool" where
  "recreate_outcome cid r es =
     (case r of Inl _ \<Rightarrow> old_recovered cid (old_name es) es
      | Inr i \<Rightarrow> i \<noteq> cid \<and> left_running i es)"

lemma old_name_inspect [simp]:
  "old_name (EvInspect c (Inr info) # es) = TrimPrefix (cj_Name info) ''/''"
  by (simp add: old_name_def)

lemma old_recovered_append:
  "list_all (leaves_up cid) pre \<Longrightarrow> old_recovered cid orig es \<Longrightarrow> old_recovered cid orig (pre @ es)"
  by (auto simp: old_recovered_def leaves_up_not_removing intro: restored_append)

lemma old_recovered_Cons:
  "leaves_up cid e \<Longrightarrow> old_recovered cid orig es \<Longrightarrow> old_recovered cid orig (e # es)"
  using old_recovered_append [of cid "[e]"] by simp

lemma old_recovered_Nil [simp]: "old_recovered cid orig []"
  by (simp add: old_recovered_def)

lemma GracefulRecreate_outcome:
  assumes "creates_other E cid" "not_a_leftover E cid"
  shows "does (GracefulRecreate E cid img) (recreate_outcome cid)"
proof -
  have swap: "does (recreate_swap E cid orig c hc nc i) (\<lambda>r es. case r of
      Inl _ \<Rightarrow> old_recovered cid orig es
    | Inr j \<Rightarrow> (j = i \<and> list_all (leaves_up j) es \<or> left_running j es) \<and> j \<noteq> cid)"
    if "i \<noteq> cid" for orig c hc nc i
    by (rule does_mono [OF does_conj [OF recreate_swap_error [OF that assms(1)]
          recreate_swap_ok [OF that assms(1)]]])
      (auto simp: old_recovered_def split: sum.splits)
  show ?thesis
    unfolding GracefulRecreate_def client_ops Let_def recreate_outcome_def
    by (auto simp: creates_other_simp [OF assms(1)]
      intro!: does_intros does_bind_emits [OF emits_drop_leftover [OF assms(2)]]
       does_bind [OF health_gate_ok] does_mono [OF swap]
       old_recovered_Cons old_recovered_append left_running_append
      split: gate.splits sum.splits option.splits)
      (blast intro: gate_leaves_up dest: creates_otherD [OF assms(1)])+
qed

section \<open>Properties\<close>

text \<open>
  C1: a recreate never loses the service silently, whatever the daemon answers. When it
  returns an error, the old container was never stopped or removed, or its last two
  requests give it back the name it had and start it (unless the daemon refused to rename
  it, the one case in which the code gives it up). When it returns a container, that is a
  new one, whose start succeeded and which no later request stops, kills or removes. It is
  assumed that the daemon gives a new container a new id and does not list the old
  container under the name of the temporary copy.
\<close>

theorem recreate_keeps_old:
  assumes "creates_other E cid" and "not_a_leftover E cid"
  shows "recreate_outcome cid (result (GracefulRecreate E cid newImage) h)
    (events (GracefulRecreate E cid newImage) h)"
  by (rule does_events [OF GracefulRecreate_outcome [OF assms]])

definition port_host :: host where
  "port_host = calm_host\<lparr>ContainerInspect := \<lambda>_ c. Inr ((running_container c)
       \<lparr>cj_HostConfig := Some (idle_hostconfig\<lparr>hc_PortBindings := [(''80/tcp'', ''8080'')]\<rparr>)\<rparr>),
     ContainerStart := \<lambda>_ c. if c = ''id-old'' then Some (Fmt ''port is already allocated'' []) else None\<rparr>"

theorem recreate_keeps_old_witness:
  "recreate_outcome ''old'' (result (GracefulRecreate port_host ''old'' ''img:2'') [])
     (events (GracefulRecreate port_host ''old'' ''img:2'') [])
   \<and> isl (result (GracefulRecreate port_host ''old'' ''img:2'') [])"
proof
  have "creates_other port_host ''old''" "not_a_leftover port_host ''old''"
    by (simp_all add: creates_other_def not_a_leftover_def port_host_def calm_host_def)
  then show "recreate_outcome ''old'' (result (GracefulRecreate port_host ''old'' ''img:2'') [])
     (events (GracefulRecreate port_host ''old'' ''img:2'') [])"
    by (rule recreate_keeps_old)
  show "isl (result (GracefulRecreate port_host ''old'' ''img:2'') [])"
    by (simp add: GracefulRecreate_def recreate_swap_def recreate_final_def retire_old_def
        drop_leftover_def health_gate.simps restoreOld_def client_ops run_simps hosts
        port_host_def recreate_config_def Let_def TrimPrefix_def HasPrefix_def)
qed

text \<open>
  The gate does not confirm health when it cannot inspect: with a daemon that answers no
  inspect of a new container, the recreate succeeds and removes the old container,
  although no answer ever said that the new one runs.
\<close>

definition blind_host :: host where
  "blind_host = calm_host\<lparr>ContainerInspect := \<lambda>_ c.
     if c = ''old'' then Inr (running_container c) else Inl (Fmt ''context deadline exceeded'' [])\<rparr>"

lemma recreate_removes_unconfirmed:
  "result (GracefulRecreate blind_host ''old'' ''img:2'') [] = Inr ''id-old-lattice-updating''"
  "EvRemove ''old'' True None \<in> set (events (GracefulRecreate blind_host ''old'' ''img:2'') [])"
  "EvInspect ''id-old-lattice-updating'' (Inr info) \<notin>
     set (events (GracefulRecreate blind_host ''old'' ''img:2'') [])"
  by (simp_all add: GracefulRecreate_def recreate_swap_def removeOld_def retire_old_def
        drop_leftover_def health_gate.simps client_ops run_simps hosts
        blind_host_def recreate_config_def Let_def TrimPrefix_def HasPrefix_def)

end
