(* ===== verification/Deploy_Spec.thy ===== *)
theory Deploy_Spec
  imports Docker_Client
begin

text \<open>
  The deployment specification and the pure parts of deploy/executor.go: its structs,
  \<open>Validate\<close>, the progress report, the rule that decides which containers a deployment
  may clean up, and the names of the replicas. The port, health-check, ulimit and registry
  structs of package deploy have the fields of those of package docker; they are the same
  records here, and \<open>convertHealthCheck\<close> and \<open>convertUlimits\<close> are the identity.
\<close>

section \<open>Structs\<close>

record DeployContainer =
  c_ID :: int
  c_Name :: string
  c_Image :: string
  c_Tag :: string
  c_PortMappings :: "PortMapping list"
  c_EnvVars :: "(string \<times> string) list"
  c_Volumes :: "(string \<times> string) list"
  c_CPULimit :: rat
  c_MemoryLimit :: int
  c_Replicas :: int
  c_RestartPolicy :: string
  c_Command :: "string list"
  c_Entrypoint :: "string list"
  c_Networks :: "string list"
  c_NetworkAliases :: "string list"
  c_HealthCheck :: "HealthCheck option"
  c_Ulimits :: "ulimit list"
  c_RegistryAuth :: "regauth option"
  c_DependsOn :: "string list"

record NetworkSpec =
  n_Name :: string
  n_Driver :: string

record VolumeSpec =
  v_Name :: string
  v_Driver :: string

record DeploymentSpec =
  d_DeploymentID :: int
  d_StackName :: string
  d_Strategy :: string
  d_Targeted :: bool
  d_Force :: bool
  d_Containers :: "DeployContainer list"
  d_Networks :: "NetworkSpec list"
  d_Volumes :: "VolumeSpec list"

section \<open>Validate\<close>

definition shellMetaChars :: string where
  "shellMetaChars = '';$`|&''"

definition validate_container :: "nat \<Rightarrow> DeployContainer \<Rightarrow> goerr option" where
  "validate_container i c =
     (if \<not> validContainerName (c_Name c)
      then Some (Fmt ''container[%d]: invalid name %q'' [FD (int i), FS (c_Name c)])
      else if c_Image c = []
      then Some (Fmt ''container[%d] %q: image is required'' [FD (int i), FS (c_Name c)])
      else let imageRef = (if c_Tag c \<noteq> [] then c_Image c @ '':'' @ c_Tag c else c_Image c) in
        if ContainsAny imageRef shellMetaChars
        then Some (Fmt ''container[%d] %q: image ref contains shell metacharacters''
               [FD (int i), FS (c_Name c)])
        else None)"

fun validate_containers :: "nat \<Rightarrow> DeployContainer list \<Rightarrow> goerr option" where
  "validate_containers i [] = None"
| "validate_containers i (c # cs) =
     (case validate_container i c of Some e \<Rightarrow> Some e | None \<Rightarrow> validate_containers (Suc i) cs)"

definition Validate :: "DeploymentSpec \<Rightarrow> goerr option" where
  "Validate s =
     (if length (d_Containers s) > 100
      then Some (Fmt ''too many containers: %d (max 100)'' [FD (int (length (d_Containers s)))])
      else if length (d_Networks s) > 50
      then Some (Fmt ''too many networks: %d (max 50)'' [FD (int (length (d_Networks s)))])
      else if length (d_Volumes s) > 50
      then Some (Fmt ''too many volumes: %d (max 50)'' [FD (int (length (d_Volumes s)))])
      else validate_containers 0 (d_Containers s))"

section \<open>Names of the replicas\<close>

definition replicas_of :: "DeployContainer \<Rightarrow> nat" where
  "replicas_of c = (if c_Replicas c \<le> 0 then 1 else nat (c_Replicas c))"

definition replica_name :: "DeployContainer \<Rightarrow> nat \<Rightarrow> string" where
  "replica_name c replica =
     (if replicas_of c > 1 then c_Name c @ ''-'' @ Itoa (int replica + 1) else c_Name c)"

definition replica_names :: "DeployContainer \<Rightarrow> string list" where
  "replica_names c = map (replica_name c) [0..<replicas_of c]"

definition tag_of :: "DeployContainer \<Rightarrow> string" where
  "tag_of c = (if c_Tag c = [] then ''latest'' else c_Tag c)"

definition image_ref :: "DeployContainer \<Rightarrow> string" where
  "image_ref c = c_Image c @ '':'' @ tag_of c"

text \<open>The specification handed to the Docker client, as every strategy builds it.\<close>

definition docker_spec :: "DeploymentSpec \<Rightarrow> DeployContainer \<Rightarrow> string \<Rightarrow> ContainerSpec" where
  "docker_spec spec c name =
     \<lparr>s_Name = name, s_Image = c_Image c, s_Tag = c_Tag c, s_PortMappings = c_PortMappings c,
      s_EnvVars = c_EnvVars c, s_Volumes = c_Volumes c, s_CPULimit = c_CPULimit c,
      s_MemoryLimit = c_MemoryLimit c, s_Ulimits = c_Ulimits c,
      s_RestartPolicy = c_RestartPolicy c, s_Command = c_Command c,
      s_Entrypoint = c_Entrypoint c, s_Networks = c_Networks c,
      s_NetworkAliases = c_NetworkAliases c, s_StackName = d_StackName spec,
      s_HealthCheck = c_HealthCheck c\<rparr>"

section \<open>Progress reports\<close>

definition reportProgress :: "int \<Rightarrow> string \<Rightarrow> gotext \<Rightarrow> payload \<Rightarrow> unit prog" where
  "reportProgress deploymentID status msg extra =
     emit (EvProgress deploymentID status msg
       (fold (\<lambda>(k, v). AList.update k v) extra
         [(''deployment_id'', JNum (of_int deploymentID)), (''status'', JStr status),
          (''message'', JText msg)]))"

section \<open>The cleanup rule\<close>

definition cleanupDecision ::
  "(string \<times> string) list \<Rightarrow> string \<Rightarrow> nat list \<Rightarrow> string \<Rightarrow> string list \<Rightarrow> string list \<Rightarrow> bool \<times> gotext" where
  "cleanupDecision labels name publicPorts stackName specNames neededPorts =
     (if lookup_str labels ''managed-by'' \<noteq> ''lattice'' then (False, Fmt '''' [])
      else if lookup_str labels ''lattice-type'' = ''database'' then (False, Fmt '''' [])
      else if CanonicalContainerName name \<in> set specNames \<or> name \<in> set specNames
      then (False, Fmt '''' [])
      else if lookup_str labels ''lattice-stack'' = stackName
      then (True, Fmt ''stale stack container (was in stack %q, not in new spec)'' [FS stackName])
      else case find (\<lambda>p. Itoa (int p) \<in> set neededPorts) publicPorts of
             Some p \<Rightarrow> (True, Fmt ''holds port %d needed by new spec'' [FD (int p)])
           | None \<Rightarrow> (False, Fmt '''' []))"

text \<open>The two sets the cleanup compares against.\<close>

definition spec_names :: "DeploymentSpec \<Rightarrow> string list" where
  "spec_names spec = map c_Name (d_Containers spec)"

definition needed_ports :: "DeploymentSpec \<Rightarrow> string list" where
  "needed_ports spec =
     filter (\<lambda>p. p \<noteq> []) (concat (map (\<lambda>c. map pm_HostPort (c_PortMappings c)) (d_Containers spec)))"

text \<open>A container that a deployment's cleanup may touch at all.\<close>

definition stack_container :: "container \<Rightarrow> bool" where
  "stack_container c =
     (lookup_str (ct_Labels c) ''managed-by'' = ''lattice'' \<and>
      lookup_str (ct_Labels c) ''lattice-type'' \<noteq> ''database'')"

section \<open>Lemmas\<close>

lemma find_Some_iff_ex: "(\<exists>x. find P xs = Some x) \<longleftrightarrow> (\<exists>x\<in>set xs. P x)"
  by (induction xs) auto

text \<open>
  The cleanup rule, in full. A container is removed ahead of a deployment if and only if it is
  managed by Lattice, is not a managed database, has a name that neither itself nor in its
  canonical form is a name of the specification, and either carries the stack's label or
  publishes a host port that the specification needs.
\<close>

theorem cleanup_rule:
  "fst (cleanupDecision (ct_Labels c) name ports stack names needed) \<longleftrightarrow>
     stack_container c \<and> CanonicalContainerName name \<notin> set names \<and> name \<notin> set names \<and>
     (lookup_str (ct_Labels c) ''lattice-stack'' = stack \<or>
      (\<exists>p\<in>set ports. Itoa (int p) \<in> set needed))"
  using find_Some_iff_ex [of "\<lambda>p. Itoa (int p) \<in> set needed" ports]
  by (auto simp: cleanupDecision_def stack_container_def split: option.splits)

text \<open>A valid specification, as a predicate.\<close>

definition container_valid :: "DeployContainer \<Rightarrow> bool" where
  "container_valid c =
     (c_Name c \<noteq> [] \<and> length (c_Name c) \<le> 128 \<and> list_all name_char (c_Name c) \<and> c_Image c \<noteq> [] \<and>
      list_all (\<lambda>ch. ch \<notin> set shellMetaChars) (c_Image c @ c_Tag c))"

lemma validate_container_None: "validate_container i c = None \<longleftrightarrow> container_valid c"
  by (auto simp: validate_container_def container_valid_def validContainerName_def Let_def
      ContainsAny_iff list_all_iff shellMetaChars_def)

lemma validate_containers_None: "validate_containers i cs = None \<longleftrightarrow> list_all container_valid cs"
proof (induction i cs rule: validate_containers.induct)
  case (2 i c cs)
  then show ?case using validate_container_None [of i c] by (auto split: option.splits)
qed simp

text \<open>
  a specification passes \<open>Validate\<close> if and only if it is within the limits on
  containers, networks and volumes and each container has an allowed name and an image
  reference that is not empty and has no shell metacharacter in image or tag.
\<close>

theorem Validate_exact:
  "Validate s = None \<longleftrightarrow>
     length (d_Containers s) \<le> 100 \<and> length (d_Networks s) \<le> 50 \<and> length (d_Volumes s) \<le> 50 \<and>
     list_all container_valid (d_Containers s)"
  by (simp add: Validate_def validate_containers_None)

lemma replica_names_distinct:
  assumes "replicas_of c < 2 ^ 62"
  shows "distinct (replica_names c)"
proof -
  have "x = y" if "x < replicas_of c" "y < replicas_of c" "Itoa (int x + 1) = Itoa (int y + 1)" for x y
    using that assms Itoa_inj [of "int x + 1" "int y + 1"] by (simp add: int64_range_def)
  then show ?thesis
    by (auto simp: replica_names_def distinct_map inj_on_def replica_name_def split: if_splits)
qed

section \<open>A concrete specification, for witnesses\<close>

definition demo_container :: DeployContainer where
  "demo_container = \<lparr>c_ID = 1, c_Name = ''web'', c_Image = ''img'', c_Tag = ''2'', c_PortMappings = [],
     c_EnvVars = [], c_Volumes = [], c_CPULimit = 0, c_MemoryLimit = 0, c_Replicas = 1,
     c_RestartPolicy = [], c_Command = [], c_Entrypoint = [], c_Networks = [],
     c_NetworkAliases = [], c_HealthCheck = None, c_Ulimits = [], c_RegistryAuth = None,
     c_DependsOn = []\<rparr>"

definition demo_spec :: DeploymentSpec where
  "demo_spec = \<lparr>d_DeploymentID = 7, d_StackName = ''shop'', d_Strategy = ''rolling'',
     d_Targeted = False, d_Force = False, d_Containers = [demo_container], d_Networks = [],
     d_Volumes = []\<rparr>"

lemmas demos = demo_spec_def demo_container_def

end
