(* ===== verification/Rolling.thy ===== *)
theory Rolling
  imports Deploy_Spec
begin

text \<open>
  The rolling strategy, deploy/rolling.go: the snapshot of what runs now, the replacement
  of one replica after the other, and the rollback over the snapshots.
\<close>

section \<open>Finding containers by canonical name\<close>

record oldContainer =
  o_id :: string
  o_name :: string

definition belongs :: "string \<Rightarrow> string \<Rightarrow> bool" where
  "belongs canonicalName cName = (cName = canonicalName \<or> isCanonicalVariant canonicalName cName)"

fun matching :: "string \<Rightarrow> container list \<Rightarrow> oldContainer list" where
  "matching canonicalName [] = []"
| "matching canonicalName (ct # cts) =
     (case find (belongs canonicalName) (names_of ct) of
        Some cName \<Rightarrow> \<lparr>o_id = ct_ID ct, o_name = cName\<rparr> # matching canonicalName cts
      | None \<Rightarrow> matching canonicalName cts)"

definition findAllMatchingContainers :: "host \<Rightarrow> string \<Rightarrow> oldContainer list prog" where
  "findAllMatchingContainers E canonicalName = do {
     r \<leftarrow> ListContainers E '''';
     (case r of
        Inl e \<Rightarrow> ret []
      | Inr all \<Rightarrow> ret (matching canonicalName all))
   }"

definition FindCanonicalContainer :: "host \<Rightarrow> string \<Rightarrow> (string \<times> string) prog" where
  "FindCanonicalContainer E canonicalName = do {
     r \<leftarrow> FindContainerByName E canonicalName;
     (if (case r of Inr i \<Rightarrow> i \<noteq> [] | Inl e \<Rightarrow> False)
      then ret (projr r, canonicalName)
      else do {
        cs \<leftarrow> findAllMatchingContainers E canonicalName;
        (case cs of c # _ \<Rightarrow> ret (o_id c, o_name c) | [] \<Rightarrow> ret ([], []))
      })
   }"

section \<open>Snapshots\<close>

record containerSnapshot =
  sn_Name :: string
  sn_OldImage :: string
  sn_SpecIdx :: nat
  sn_Replica :: nat
  sn_OldID :: string

definition snapshot_one :: "host \<Rightarrow> nat \<Rightarrow> DeployContainer \<Rightarrow> nat \<Rightarrow> containerSnapshot prog" where
  "snapshot_one E i c replica = (let name = replica_name c replica in do {
     f \<leftarrow> FindCanonicalContainer E name;
     (if fst f \<noteq> [] then do {
        r \<leftarrow> InspectContainer E (fst f);
        ret \<lparr>sn_Name = name,
             sn_OldImage = (case r of
                Inr info \<Rightarrow> (case cj_Config info of Some cfg \<Rightarrow> cfg_Image cfg | None \<Rightarrow> image_ref c)
              | Inl e \<Rightarrow> image_ref c),
             sn_SpecIdx = i, sn_Replica = replica, sn_OldID = fst f\<rparr>
      }
      else ret \<lparr>sn_Name = name, sn_OldImage = image_ref c, sn_SpecIdx = i, sn_Replica = replica,
                sn_OldID = []\<rparr>)
   })"

text \<open>The replicas of a specification, in the order both loops visit them.\<close>

definition replica_slots :: "DeploymentSpec \<Rightarrow> (nat \<times> nat) list" where
  "replica_slots spec =
     concat (map (\<lambda>(i, c). map (\<lambda>r. (i, r)) [0..<replicas_of c])
       (List.enumerate 0 (d_Containers spec)))"

definition take_snapshots :: "host \<Rightarrow> DeploymentSpec \<Rightarrow> containerSnapshot list prog" where
  "take_snapshots E spec =
     mapP (replica_slots spec) (\<lambda>(i, replica). snapshot_one E i (d_Containers spec ! i) replica)"

section \<open>Rollback\<close>

definition remove_matching :: "host \<Rightarrow> string \<Rightarrow> unit prog" where
  "remove_matching E name = do {
     cs \<leftarrow> findAllMatchingContainers E name;
     forM cs (\<lambda>c. do { StopAndRemoveContainer E (o_id c) 10; ret () })
   }"

definition rollback_one :: "host \<Rightarrow> DeploymentSpec \<Rightarrow> containerSnapshot \<Rightarrow> unit prog" where
  "rollback_one E spec snap = (let c = d_Containers spec ! sn_SpecIdx snap in
     if sn_OldID snap = [] then do {
       reportProgress (d_DeploymentID spec) ''deploying''
         (Fmt ''rollback: removing %s (no prior version to restore)'' [FS (sn_Name snap)]) [];
       remove_matching E (sn_Name snap)
     }
     else do {
       reportProgress (d_DeploymentID spec) ''deploying''
         (Fmt ''rollback: restoring %s to %s'' [FS (sn_Name snap), FS (sn_OldImage snap)]) [];
       PullImage E (sn_OldImage snap) (c_RegistryAuth c);
       remove_matching E (sn_Name snap);
       suffix \<leftarrow> GenerateSuffix E;
       r \<leftarrow> CreateAndStartContainer E
         ((docker_spec spec c (sn_Name snap @ ''-'' @ suffix))\<lparr>s_Image := sn_OldImage snap, s_Tag := []\<rparr>);
       (case r of
          Inl e \<Rightarrow> ret ()
        | Inr cid \<Rightarrow> do { RenameContainer E cid (sn_Name snap); ret () })
     })"

text \<open>An index outside the slice is a Go panic, kept as an event; it is shown never to occur.\<close>

definition rollbackContainers ::
  "host \<Rightarrow> DeploymentSpec \<Rightarrow> containerSnapshot list \<Rightarrow> nat list \<Rightarrow> unit prog" where
  "rollbackContainers E spec snapshots updated =
     (if updated = [] then ret ()
      else do {
        reportProgress (d_DeploymentID spec) ''failed''
          (Fmt ''rolling back %d containers'' [FD (int (length updated))]) [];
        forM (rev updated) (\<lambda>idx.
          if idx < length snapshots \<and> sn_SpecIdx (snapshots ! idx) < length (d_Containers spec)
          then rollback_one E spec (snapshots ! idx)
          else emit (EvPanic ''index out of range''))
      })"

section \<open>Replacing one replica\<close>

definition shouldProbe :: "nat \<Rightarrow> nat \<Rightarrow> nat \<Rightarrow> bool" where
  "shouldProbe portMappings oldContainers volumes =
     (portMappings > 0 \<and> oldContainers > 0 \<and> volumes = 0)"

definition appendIdx :: "nat list \<Rightarrow> nat \<Rightarrow> nat list" where
  "appendIdx base idx = base @ [idx]"

definition stop_olds :: "host \<Rightarrow> oldContainer list \<Rightarrow> unit prog" where
  "stop_olds E olds = forM olds (\<lambda>old. do {
     r \<leftarrow> StopContainer E (o_id old) 10;
     (case r of Some e \<Rightarrow> do { KillContainer E (o_id old); ret () } | None \<Rightarrow> ret ())
   })"

definition step_of :: "nat \<Rightarrow> DeploymentSpec \<Rightarrow> fmtarg list" where
  "step_of i spec = [FD (int i + 1), FD (int (length (d_Containers spec)))]"

text \<open>
  The probe: a copy without ports and restarts, which must still run after two seconds.
\<close>

definition probe :: "host \<Rightarrow> DeploymentSpec \<Rightarrow> nat \<Rightarrow> string \<Rightarrow> ContainerSpec \<Rightarrow> goerr option prog" where
  "probe E spec i name ds = do {
     reportProgress (d_DeploymentID spec) ''deploying''
       (Fmt ''[%d/%d] verifying new image starts for %s'' (step_of i spec @ [FS name])) [];
     p \<leftarrow> CreateAndStartContainer E
       (ds\<lparr>s_Name := s_Name ds @ ''-probe'', s_PortMappings := [], s_RestartPolicy := ''no''\<rparr>);
     (case p of
        Inl e \<Rightarrow> do {
          reportProgress (d_DeploymentID spec) ''deploying''
            (Fmt ''[%d/%d] probe failed for %s: %v'' (step_of i spec @ [FS name, FE e])) [];
          ret (Some (Fmt ''probe container %s failed to start: %w'' [FS name, FE e]))
        }
      | Inr probeID \<Rightarrow> do {
          emit (EvSleep 2000);
          r \<leftarrow> InspectContainer E probeID;
          (if (case r of Inr info \<Rightarrow> st_Running (cj_State info) | Inl e \<Rightarrow> False)
           then do { StopAndRemoveContainer E probeID 5; ret None }
           else do {
             StopAndRemoveContainer E probeID 5;
             reportProgress (d_DeploymentID spec) ''deploying''
               (Fmt ''[%d/%d] probe container exited immediately for %s'' (step_of i spec @ [FS name])) [];
             ret (Some (Fmt ''probe container %s not running after 2s'' [FS name]))
           })
        })
   }"

text \<open>
  The new container, up to its creation: with the probe first where one is due. The result
  is its id, or the error with the indices to roll back.
\<close>

definition create_new ::
  "host \<Rightarrow> DeploymentSpec \<Rightarrow> nat \<Rightarrow> string \<Rightarrow> ContainerSpec \<Rightarrow> oldContainer list \<Rightarrow> nat list \<Rightarrow> nat \<Rightarrow>
     (goerr \<times> nat list + string) prog" where
  "create_new E spec i name ds olds updated idx =
     (if shouldProbe (length (s_PortMappings ds)) (length olds) (length (s_Volumes ds))
      then do {
        p \<leftarrow> probe E spec i name ds;
        (case p of
           Some e \<Rightarrow> ret (Inl (e, updated))
         | None \<Rightarrow> do {
             reportProgress (d_DeploymentID spec) ''deploying''
               (Fmt ''[%d/%d] swapping ports for %s'' (step_of i spec @ [FS name])) [];
             stop_olds E olds;
             r \<leftarrow> CreateAndStartContainer E ds;
             (case r of
                Inl e \<Rightarrow> do {
                  reportProgress (d_DeploymentID spec) ''deploying''
                    (Fmt ''[%d/%d] failed to create %s after port swap: %v''
                      (step_of i spec @ [FS (s_Name ds), FE e])) [];
                  ret (Inl (Fmt ''create container %s: %w'' [FS name, FE e], appendIdx updated idx))
                }
              | Inr cid \<Rightarrow> ret (Inr cid))
           })
      }
      else do {
        stop_olds E olds;
        r \<leftarrow> CreateAndStartContainer E ds;
        (case r of
           Inl e \<Rightarrow> do {
             reportProgress (d_DeploymentID spec) ''deploying''
               (Fmt ''[%d/%d] failed to create %s: %v'' (step_of i spec @ [FS (s_Name ds), FE e])) [];
             ret (Inl (Fmt ''create container %s: %w'' [FS name, FE e],
                       if olds \<noteq> [] then appendIdx updated idx else updated))
           }
         | Inr cid \<Rightarrow> ret (Inr cid))
      })"

definition step_payload :: "DeploymentSpec \<Rightarrow> nat \<Rightarrow> string \<Rightarrow> string \<Rightarrow> payload" where
  "step_payload spec i name step =
     [(''container_name'', JStr name), (''step'', JStr step), (''container_index'', JNum (of_nat i + 1)),
      (''container_total'', JNum (of_nat (length (d_Containers spec))))]"

text \<open>The body of the inner loop: replace replica \<open>replica\<close> of container \<open>i\<close>.\<close>

definition roll_replica ::
  "host \<Rightarrow> DeploymentSpec \<Rightarrow> containerSnapshot list \<Rightarrow> nat \<Rightarrow> DeployContainer \<Rightarrow> nat \<Rightarrow> nat list \<times> nat \<Rightarrow>
     (goerr + nat list \<times> nat) prog" where
  "roll_replica E spec snapshots i c replica acc = (let name = replica_name c replica;
       updated = fst acc; idx = snd acc in do {
     olds \<leftarrow> findAllMatchingContainers E name;
     suffix \<leftarrow> GenerateSuffix E;
     let deployName = name @ ''-'' @ suffix;
     reportProgress (d_DeploymentID spec) ''deploying''
       (Fmt ''[%d/%d] creating container: %s (as %s)'' (step_of i spec @ [FS name, FS deployName]))
       (step_payload spec i name ''starting'');
     r \<leftarrow> create_new E spec i name (docker_spec spec c deployName) olds updated idx;
     (case r of
        Inl (e, rb) \<Rightarrow> do { rollbackContainers E spec snapshots rb; ret (Inl e) }
      | Inr cid \<Rightarrow> do {
          q \<leftarrow> InspectContainer E cid;
          (if (case q of Inr info \<Rightarrow> st_Running (cj_State info) | Inl e \<Rightarrow> False)
           then do {
             forM olds (\<lambda>old. do { StopAndRemoveContainer E (o_id old) 10; ret () });
             n \<leftarrow> RenameContainer E cid name;
             reportProgress (d_DeploymentID spec) ''deploying''
               (Fmt ''container %s started successfully'' [FS (if n = None then name else deployName)])
               (step_payload spec i name ''running'' @ [(''container_id'', JStr cid)]);
             ret (Inr (updated @ [idx], Suc idx))
           }
           else do {
             reportProgress (d_DeploymentID spec) ''deploying''
               (Fmt ''[%d/%d] container %s created but not running'' (step_of i spec @ [FS deployName])) [];
             rollbackContainers E spec snapshots (appendIdx updated idx);
             ret (Inl (Fmt ''container %s not running after create'' [FS name]))
           })
        })
   })"

section \<open>The whole strategy\<close>

definition roll_container ::
  "host \<Rightarrow> DeploymentSpec \<Rightarrow> containerSnapshot list \<Rightarrow> nat \<times> DeployContainer \<Rightarrow> nat list \<times> nat \<Rightarrow>
     (goerr + nat list \<times> nat) prog" where
  "roll_container E spec snapshots ic acc = (let i = fst ic; c = snd ic in do {
     reportProgress (d_DeploymentID spec) ''deploying''
       (Fmt ''[%d/%d] pulling image %s for container %s'' (step_of i spec @ [FS (image_ref c), FS (c_Name c)]))
       (step_payload spec i (c_Name c) ''pulling'');
     p \<leftarrow> PullImage E (image_ref c) (c_RegistryAuth c);
     (case p of
        Some e \<Rightarrow> do {
          rollbackContainers E spec snapshots (fst acc);
          ret (Inl (Fmt ''pull image %s, rolled back %d containers: %w''
            [FS (image_ref c), FD (int (length (fst acc))), FE e]))
        }
      | None \<Rightarrow> do {
          reportProgress (d_DeploymentID spec) ''deploying''
            (Fmt ''[%d/%d] image %s pulled successfully'' (step_of i spec @ [FS (image_ref c)]))
            (step_payload spec i (c_Name c) ''pulled'');
          foldE [0..<replicas_of c] (roll_replica E spec snapshots i c) acc
        })
   })"

definition executeRolling :: "host \<Rightarrow> DeploymentSpec \<Rightarrow> goerr option prog" where
  "executeRolling E spec = do {
     snapshots \<leftarrow> take_snapshots E spec;
     r \<leftarrow> foldE (List.enumerate 0 (d_Containers spec)) (roll_container E spec snapshots) ([], 0);
     (case r of Inl e \<Rightarrow> ret (Some e) | Inr _ \<Rightarrow> ret None)
   }"

definition orphan_name :: "string \<Rightarrow> bool" where
  "orphan_name name = (Contains name ''-retired-'' \<or> HasSuffix name ''-lattice-retired'' \<or>
     HasSuffix name ''-lattice-updating'')"

definition CleanupOrphanedContainers :: "host \<Rightarrow> string list prog" where
  "CleanupOrphanedContainers E = do {
     r \<leftarrow> ListContainers E '''';
     (case r of
        Inl e \<Rightarrow> ret []
      | Inr cs \<Rightarrow> ret (concat (map (\<lambda>ct. filter orphan_name (names_of ct)) cs)))
   }"

section \<open>The monitor of a rolling update\<close>

text \<open>
  The monitor remembers the containers created by this run, whether the container created
  last has been seen running since (until the next listing or creation), whether the
  rollback has begun, and whether a container that this run did not create was stopped.
  It rejects the removal of a container that the run did not create, unless its
  replacement has been seen running or the rollback has begun, and it rejects a panic.
\<close>

record rmon =
  m_created :: "string list"
  m_confirmed :: bool
  m_failed :: bool
  m_stopped :: bool

definition r_init :: rmon where
  "r_init = \<lparr>m_created = [], m_confirmed = False, m_failed = False, m_stopped = False\<rparr>"

definition stop_seen :: "rmon \<Rightarrow> string \<Rightarrow> rmon" where
  "stop_seen s d = (if d \<in> set (m_created s) then s else s\<lparr>m_stopped := True\<rparr>)"

definition r_nxt :: "rmon \<Rightarrow> event \<Rightarrow> rmon" where
  "r_nxt s e = (case e of
     EvCreate _ _ _ _ r \<Rightarrow>
       (case r of Inr d \<Rightarrow> s\<lparr>m_created := d # m_created s, m_confirmed := False\<rparr>
        | Inl _ \<Rightarrow> s\<lparr>m_confirmed := False\<rparr>)
   | EvList _ _ \<Rightarrow> s\<lparr>m_confirmed := False\<rparr>
   | EvInspect d r \<Rightarrow>
       (case r of
          Inr info \<Rightarrow> if st_Running (cj_State info) \<and> d \<in> set (m_created s)
                      then s\<lparr>m_confirmed := True\<rparr> else s
        | Inl _ \<Rightarrow> s)
   | EvProgress _ status _ _ \<Rightarrow> if status = ''failed'' then s\<lparr>m_failed := True\<rparr> else s
   | EvStop d _ _ \<Rightarrow> stop_seen s d
   | EvKill d _ \<Rightarrow> stop_seen s d
   | _ \<Rightarrow> s)"

definition removable :: "rmon \<Rightarrow> string \<Rightarrow> bool" where
  "removable s c = (m_failed s \<or> m_confirmed s \<or> c \<in> set (m_created s))"

definition r_ok :: "rmon \<Rightarrow> event \<Rightarrow> bool" where
  "r_ok s e = (case e of EvRemove c _ _ \<Rightarrow> removable s c | EvPanic _ \<Rightarrow> False | _ \<Rightarrow> True)"

abbreviation rtrack :: "rmon \<Rightarrow> 'a prog \<Rightarrow> ('a \<Rightarrow> rmon \<Rightarrow> bool) \<Rightarrow> bool" where
  "rtrack \<equiv> track r_ok r_nxt"

lemma r_nxt_simps [simp]:
  "r_nxt s (EvCreate n c hc nc (Inr d)) = s\<lparr>m_created := d # m_created s, m_confirmed := False\<rparr>"
  "r_nxt s (EvCreate n c hc nc (Inl e)) = s\<lparr>m_confirmed := False\<rparr>"
  "r_nxt s (EvList n l) = s\<lparr>m_confirmed := False\<rparr>"
  "r_nxt s (EvProgress i st m pl) = (if st = ''failed'' then s\<lparr>m_failed := True\<rparr> else s)"
  "r_nxt s (EvStop d t q) = stop_seen s d" "r_nxt s (EvKill d q) = stop_seen s d"
  "r_nxt s (EvStart d q) = s" "r_nxt s (EvRemove d f q) = s" "r_nxt s (EvRename d n q) = s"
  "r_nxt s (EvSleep k) = s" "r_nxt s (EvNetConnect n d al q) = s" "r_nxt s (EvPull n au q) = s"
  "r_nxt s (EvPullRead q) = s"
  by (simp_all add: r_nxt_def)

lemma r_ok_simps [simp]:
  "r_ok s (EvRemove d f q) = removable s d" "r_ok s (EvPanic x) = False"
  "r_ok s (EvCreate n c hc nc i)" "r_ok s (EvList n l)" "r_ok s (EvProgress k st m pl)"
  "r_ok s (EvStop d t q)" "r_ok s (EvKill d q)" "r_ok s (EvStart d q)" "r_ok s (EvRename d n q)"
  "r_ok s (EvSleep z)" "r_ok s (EvNetConnect n d al q)" "r_ok s (EvPull n au q)"
  "r_ok s (EvPullRead q)" "r_ok s (EvInspect d ci)"
  by (simp_all add: r_ok_def)

text \<open>What may change between two monitor states of one replica.\<close>

definition grows :: "rmon \<Rightarrow> rmon \<Rightarrow> bool" where
  "grows s t = (m_failed t = m_failed s \<and> m_stopped t = m_stopped s \<and>
     set (m_created s) \<subseteq> set (m_created t))"

lemma grows_refl [simp]: "grows s s"
  by (simp add: grows_def)

lemma grows_trans [trans]: "grows s t \<Longrightarrow> grows t u \<Longrightarrow> grows s u"
  by (auto simp: grows_def)

lemma stop_seen_simps [simp]:
  "m_created (stop_seen s d) = m_created s" "m_confirmed (stop_seen s d) = m_confirmed s"
  "m_failed (stop_seen s d) = m_failed s"
  "d \<in> set (m_created s) \<Longrightarrow> stop_seen s d = s"
  by (simp_all add: stop_seen_def)

lemma r_nxt_inspect:
  "m_created (r_nxt s (EvInspect d ci)) = m_created s" "m_failed (r_nxt s (EvInspect d ci)) = m_failed s"
  "m_stopped (r_nxt s (EvInspect d ci)) = m_stopped s"
  "m_confirmed s \<Longrightarrow> m_confirmed (r_nxt s (EvInspect d ci))"
  by (simp_all add: r_nxt_def split: sum.splits)

lemma r_nxt_confirms:
  "(case r of Inr info \<Rightarrow> st_Running (cj_State info) | Inl e \<Rightarrow> False) \<Longrightarrow> d \<in> set (m_created s) \<Longrightarrow>
     m_confirmed (r_nxt s (EvInspect d r))"
  by (simp add: r_nxt_def split: sum.splits)

lemma track_CreateAndStart:
  "rtrack s (CreateAndStartContainer E spec)
     (\<lambda>r t. grows s t \<and> (\<forall>cid. r = Inr cid \<longrightarrow> cid \<in> set (m_created t)))"
proof -
  have conn: "rtrack t (connect_extra E spec cid) (\<lambda>_ u. u = t)" for t cid
    by (rule track_emits [where P = "\<lambda>e. \<exists>n d al q. e = EvNetConnect n d al q"])
      (auto simp: connect_extra_def intro!: emits_intros)
  show ?thesis
    unfolding CreateAndStartContainer_def client_ops
    by (auto simp: grows_def intro!: track_intros track_bind [OF conn])
qed

lemma emits_remove_attempts:
  "emits (\<lambda>e. e = EvSleep 2000 \<or> (\<exists>q. e = EvRemove cid True q)) (remove_attempts E cid n)"
  by (induction E cid n rule: remove_attempts.induct) (auto simp: client_ops intro!: emits_intros)

definition after_removal :: "string \<Rightarrow> rmon \<Rightarrow> rmon \<Rightarrow> bool" where
  "after_removal c s t = (m_failed t = m_failed s \<and> m_created t = m_created s \<and>
     (m_confirmed s \<longrightarrow> m_confirmed t) \<and> (c \<in> set (m_created s) \<longrightarrow> m_stopped t = m_stopped s))"

lemma track_StopAndRemove:
  assumes "removable s c"
  shows "rtrack s (StopAndRemoveContainer E c k) (\<lambda>_. after_removal c s)"
proof -
  have rem: "rtrack t (remove_attempts E c n) (\<lambda>_ u. u = t)" if "removable t c" for t n
    by (rule track_emits [OF emits_remove_attempts]) (use that in auto)
  have keep: "after_removal c s t \<Longrightarrow> removable t c" for t
    using assms by (auto simp: removable_def after_removal_def)
  show ?thesis
    unfolding StopAndRemoveContainer_def client_ops
    by (auto simp: after_removal_def r_nxt_inspect stop_seen_def
        intro!: track_intros track_mono [OF rem] keep)
qed

lemma track_report:
  "rtrack s (reportProgress i st m pl) (\<lambda>_ t. t = r_nxt s (EvProgress i st m pl))"
  by (auto simp: reportProgress_def intro!: track_intros)

lemma track_find:
  "rtrack s (findAllMatchingContainers E n) (\<lambda>_ t. t = s\<lparr>m_confirmed := False\<rparr>)"
  by (auto simp: findAllMatchingContainers_def client_ops intro!: track_intros)

lemma track_stop_olds:
  "rtrack s (stop_olds E olds) (\<lambda>_ t. m_created t = m_created s \<and> m_failed t = m_failed s \<and>
     (olds = [] \<longrightarrow> t = s))"
proof (cases "olds = []")
  case False
  have "rtrack s (stop_olds E olds) (\<lambda>_ t. m_created t = m_created s \<and> m_failed t = m_failed s)"
    unfolding stop_olds_def
    by (rule track_forM) (auto simp: client_ops intro!: track_intros)
  then show ?thesis by (rule track_mono) (use False in simp)
qed (auto simp: stop_olds_def intro!: track_intros)

lemma track_GenerateSuffix: "rtrack s (GenerateSuffix E) (\<lambda>_ t. t = s)"
  by (auto simp: GenerateSuffix_def intro!: track_intros)

lemma track_PullImage: "rtrack s (PullImage E i a) (\<lambda>_ t. t = s)"
  by (auto simp: client_ops intro!: track_intros)

lemmas track_calls = track_bind [OF track_report] track_bind [OF track_find]
  track_bind [OF track_stop_olds] track_bind [OF track_GenerateSuffix]
  track_bind [OF track_PullImage] track_bind [OF track_CreateAndStart]
  track_bind [OF track_StopAndRemove]

text \<open>The probe only ever stops and removes the container it created.\<close>

lemma track_probe: "rtrack s (probe E spec i name ds) (\<lambda>_ t. grows s t)"
  unfolding probe_def client_ops
  by (auto simp: removable_def after_removal_def grows_def r_nxt_inspect
      intro!: track_intros track_calls)

text \<open>
  Creating the new container: on success it is among the created ones; on failure the
  indices to roll back are not empty if a predecessor was stopped.
\<close>

lemma track_create_new:
  assumes "m_stopped s \<longrightarrow> updated \<noteq> []"
  shows "rtrack s (create_new E spec i name ds olds updated idx) (\<lambda>r t.
     m_failed t = m_failed s \<and>
     (case r of
        Inr cid \<Rightarrow> cid \<in> set (m_created t)
      | Inl (e, rb) \<Rightarrow> (rb = updated \<or> rb = appendIdx updated idx) \<and> (m_stopped t \<longrightarrow> rb \<noteq> [])))"
  using assms unfolding create_new_def
  by (auto simp: grows_def appendIdx_def
      intro!: track_intros track_calls track_bind [OF track_probe])

definition snapshots_fit :: "DeploymentSpec \<Rightarrow> containerSnapshot list \<Rightarrow> bool" where
  "snapshots_fit spec snaps =
     (length snaps = length (replica_slots spec) \<and>
      list_all (\<lambda>sn. sn_SpecIdx sn < length (d_Containers spec)) snaps)"

lemma track_remove_matching:
  "m_failed s \<Longrightarrow> rtrack s (remove_matching E n) (\<lambda>_. m_failed)"
  unfolding remove_matching_def
  by (auto simp: removable_def after_removal_def
      intro!: track_calls track_forM track_intros)

lemma track_rollback_one: "m_failed s \<Longrightarrow> rtrack s (rollback_one E spec sn) (\<lambda>_. m_failed)"
  unfolding rollback_one_def client_ops
  by (auto simp: grows_def Let_def
      intro!: track_intros track_calls track_remove_matching track_bind [OF track_remove_matching])

lemma track_rollback:
  assumes "snapshots_fit spec snaps" "\<forall>k\<in>set upd. k < length snaps"
  shows "rtrack s (rollbackContainers E spec snaps upd)
    (\<lambda>_ t. (upd \<noteq> [] \<longrightarrow> m_failed t) \<and> (upd = [] \<longrightarrow> t = s))"
proof -
  have loop: "rtrack t (forM (rev upd) (\<lambda>idx.
      if idx < length snaps \<and> sn_SpecIdx (snaps ! idx) < length (d_Containers spec)
      then rollback_one E spec (snaps ! idx) else emit (EvPanic ''index out of range'')))
    (\<lambda>_. m_failed)" if "m_failed t" for t
    using that assms
    by (intro track_forM) (auto simp: snapshots_fit_def list_all_length intro!: track_rollback_one)
  show ?thesis
    unfolding rollbackContainers_def
    by (auto intro!: track_intros track_calls track_mono [OF loop])
qed

text \<open>
  The state of the loops: the replicas done so far are the first \<open>idx\<close> snapshots, the
  \<open>n\<close> replicas left have the remaining ones, and no predecessor was stopped unless there
  is something to roll back.
\<close>

definition rolled :: "containerSnapshot list \<Rightarrow> nat \<Rightarrow> nat list \<times> nat \<Rightarrow> rmon \<Rightarrow> bool" where
  "rolled snaps n acc s = (fst acc = [0..<snd acc] \<and> snd acc + n = length snaps \<and>
     (m_stopped s \<longrightarrow> fst acc \<noteq> []))"

abbreviation given_up :: "goerr \<Rightarrow> rmon \<Rightarrow> bool" where
  "given_up e t \<equiv> m_stopped t \<longrightarrow> m_failed t"

lemma track_roll_replica:
  assumes fit: "snapshots_fit spec snaps" and rl: "rolled snaps (Suc n) acc s"
  shows "rtrack s (roll_replica E spec snaps i c r acc)
    (\<lambda>x t. case x of Inl e \<Rightarrow> given_up e t | Inr acc' \<Rightarrow> rolled snaps n acc' t)"
proof -
  obtain upd idx where acc: "acc = (upd, idx)" by (cases acc)
  have upd: "upd = [0..<idx]" "idx < length snaps" "m_stopped s \<longrightarrow> upd \<noteq> []" "Suc (idx + n) = length snaps"
    using rl by (auto simp: rolled_def acc)
  have rb: "rtrack t (rollbackContainers E spec snaps l) (\<lambda>_ t'. (l \<noteq> [] \<longrightarrow> m_failed t') \<and> (l = [] \<longrightarrow> t' = t))"
    if "l = upd \<or> l = appendIdx upd idx" for l t
    by (rule track_rollback [OF fit]) (use that upd in \<open>auto simp: appendIdx_def\<close>)
  have olds: "rtrack t (forM olds (\<lambda>old. do { StopAndRemoveContainer E (o_id old) 10; ret () })) (\<lambda>_. m_confirmed)"
    if "m_confirmed t" for olds t
    using that by (auto simp: removable_def after_removal_def intro!: track_forM track_calls track_intros)
  show ?thesis
    unfolding roll_replica_def acc Let_def client_ops fst_conv snd_conv
    using upd(3)
    by (auto simp: rolled_def upd appendIdx_def intro!: track_intros track_calls
        track_bind [OF track_create_new] track_bind [OF rb] track_bind [OF olds] r_nxt_confirms)
qed

lemma track_roll_container:
  assumes fit: "snapshots_fit spec snaps" and rl: "rolled snaps (replicas_of (snd ic) + n) acc s"
  shows "rtrack s (roll_container E spec snaps ic acc)
    (\<lambda>x t. case x of Inl e \<Rightarrow> given_up e t | Inr acc' \<Rightarrow> rolled snaps n acc' t)"
proof -
  have loop: "rtrack s (foldE [0..<replicas_of (snd ic)] (roll_replica E spec snaps i c) acc)
    (\<lambda>x t. case x of Inl e \<Rightarrow> given_up e t | Inr acc' \<Rightarrow> rolled snaps n acc' t)" for i c
    by (rule track_foldE [where I = "\<lambda>rs. rolled snaps (length rs + n)"])
      (use rl in \<open>auto intro!: track_roll_replica [OF fit]\<close>)
  have rb: "rtrack t (rollbackContainers E spec snaps (fst acc))
      (\<lambda>_ t'. (fst acc \<noteq> [] \<longrightarrow> m_failed t') \<and> (fst acc = [] \<longrightarrow> t' = t))" for t
    by (rule track_rollback [OF fit]) (use rl in \<open>auto simp: rolled_def\<close>)
  have "m_stopped s \<longrightarrow> fst acc \<noteq> []" using rl unfolding rolled_def by blast
  then show ?thesis
    unfolding roll_container_def Let_def
    by (auto intro!: track_intros track_calls track_bind [OF rb] loop)
qed

lemma replica_slots_length:
  "length (replica_slots spec) = sum_list (map (\<lambda>ic. replicas_of (snd ic)) (List.enumerate 0 (d_Containers spec)))"
  by (simp add: replica_slots_def length_concat o_def split_def)

lemma take_snapshots_fit: "does (take_snapshots E spec) (\<lambda>snaps _. snapshots_fit spec snaps)"
proof -
  have one: "does (snapshot_one E i c r) (\<lambda>sn _. sn_SpecIdx sn = i)" for i c r
  proof -
    have ext: "extends (FindCanonicalContainer E n)" for n
      by (auto simp: FindCanonicalContainer_def findAllMatchingContainers_def client_ops
          intro!: emits_intros split: list.splits)
    show ?thesis
      unfolding snapshot_one_def Let_def client_ops
      by (auto intro!: does_bind_emits [OF ext] does_intros)
  qed
  have "does (take_snapshots E spec)
    (\<lambda>snaps _. list_all2 (\<lambda>ir sn. sn_SpecIdx sn = fst ir) (replica_slots spec) snaps)"
    unfolding take_snapshots_def by (rule does_mapP) (auto intro: one)
  then show ?thesis
  proof (rule does_mono)
    fix snaps :: "containerSnapshot list"
    assume a: "list_all2 (\<lambda>ir sn. sn_SpecIdx sn = fst ir) (replica_slots spec) snaps"
    have "\<forall>ir\<in>set (replica_slots spec). fst ir < length (d_Containers spec)"
      by (auto simp: replica_slots_def in_set_enumerate_eq)
    with a show "snapshots_fit spec snaps"
      by (auto simp: snapshots_fit_def list_all2_conv_all_nth list_all_length)
  qed
qed

lemma track_take_snapshots:
  "rtrack r_init (take_snapshots E spec) (\<lambda>snaps t. \<not> m_stopped t \<and> snapshots_fit spec snaps)"
proof (rule track_does [OF _ take_snapshots_fit])
  have "emits (\<lambda>e. (\<exists>n l. e = EvList n l) \<or> (\<exists>d ci. e = EvInspect d ci)) (take_snapshots E spec)"
    by (auto simp: take_snapshots_def snapshot_one_def Let_def FindCanonicalContainer_def
        findAllMatchingContainers_def client_ops intro!: emits_intros split: list.splits)
  then show "rtrack r_init (take_snapshots E spec) (\<lambda>_ t. \<not> m_stopped t)"
    by (rule track_emits) (auto simp: r_nxt_inspect r_init_def)
qed

lemma track_executeRolling:
  "rtrack r_init (executeRolling E spec) (\<lambda>x t. x \<noteq> None \<longrightarrow> m_stopped t \<longrightarrow> m_failed t)"
proof -
  let ?left = "\<lambda>ics. sum_list (map (\<lambda>ic. replicas_of (snd ic)) ics)"
  have loop: "rtrack t (foldE (List.enumerate 0 (d_Containers spec)) (roll_container E spec snaps) ([], 0))
      (\<lambda>x u. case x of Inl e \<Rightarrow> given_up e u | Inr acc \<Rightarrow> rolled snaps 0 acc u)"
    if st: "\<not> m_stopped t" and fit: "snapshots_fit spec snaps" for t snaps
  proof (rule track_foldE [where I = "\<lambda>ics. rolled snaps (?left ics)"])
    show "rolled snaps (?left (List.enumerate 0 (d_Containers spec))) ([], 0) t"
      using st fit by (simp add: rolled_def snapshots_fit_def replica_slots_length)
  qed (auto intro!: track_roll_container [OF fit])
  show ?thesis
    unfolding executeRolling_def
    by (auto intro!: track_bind [OF track_take_snapshots] track_bind [OF loop] track_intros)
qed

section \<open>What a successful update has done\<close>

text \<open>
  Among the events: a container of that name was created, its start succeeded, and an
  inspect answered that it runs.
\<close>

definition created_as :: "string \<Rightarrow> string \<Rightarrow> event \<Rightarrow> bool" where
  "created_as n cid e = (case e of EvCreate m _ _ _ r \<Rightarrow> m = n \<and> r = Inr cid | _ \<Rightarrow> False)"

definition started :: "string \<Rightarrow> string \<Rightarrow> event set \<Rightarrow> bool" where
  "started n cid A = ((\<exists>e\<in>A. created_as n cid e) \<and> EvStart cid None \<in> A)"

definition seen_up :: "string \<Rightarrow> event set \<Rightarrow> bool" where
  "seen_up n A = (\<exists>cid info. started n cid A \<and> EvInspect cid (Inr info) \<in> A \<and> st_Running (cj_State info))"

definition replica_up :: "DeployContainer \<Rightarrow> nat \<Rightarrow> event set \<Rightarrow> bool" where
  "replica_up c r A = (\<exists>suf. IsGeneratedSuffixSegment suf \<and> seen_up (replica_name c r @ ''-'' @ suf) A)"

lemma replica_up_mono: "replica_up c r A \<Longrightarrow> A \<subseteq> B \<Longrightarrow> replica_up c r B"
  unfolding replica_up_def seen_up_def started_def by blast

lemma started_mono:
  "started n cid A \<Longrightarrow> started n cid (A \<union> B)" "started n cid A \<Longrightarrow> started n cid (B \<union> A)"
  "started n cid A \<Longrightarrow> started n cid (insert e A)"
  unfolding started_def by blast+

lemma CreateAndStart_started:
  "does (CreateAndStartContainer E spec)
     (\<lambda>r es. \<forall>cid. r = Inr cid \<longrightarrow> started (s_Name spec) cid (set es))"
proof -
  have ext: "extends (connect_extra E spec cid)" for cid
    by (auto simp: connect_extra_def intro!: emits_intros)
  show ?thesis
    unfolding CreateAndStartContainer_def client_ops started_def
    by (auto simp: created_as_def intro!: does_intros does_bind_emits [OF ext])
qed

lemma extends_calls [emits_intros]:
  "extends (reportProgress i st m pl)" "extends (StopAndRemoveContainer E c k)"
  "extends (stop_olds E olds)" "extends (findAllMatchingContainers E n)"
  "extends (CreateAndStartContainer E ds)" "extends (PullImage E im au)"
  by (auto simp: reportProgress_def StopAndRemoveContainer_def stop_olds_def
      findAllMatchingContainers_def client_ops
      intro!: emits_intros emits_extends [OF emits_remove_attempts] does_extends [OF CreateAndStart_does])

lemma extends_remove_matching [emits_intros]: "extends (remove_matching E n)"
  by (auto simp: remove_matching_def intro!: emits_intros)

lemma extends_rollback [emits_intros]: "extends (rollbackContainers E spec snaps upd)"
  by (auto simp: rollbackContainers_def rollback_one_def Let_def GenerateSuffix_def client_ops
      intro!: emits_intros)

lemma extends_probe [emits_intros]: "extends (probe E spec i name ds)"
  by (auto simp: probe_def client_ops intro!: emits_intros)

lemmas does_calls = does_bind_emits [OF extends_calls(1)] does_bind_emits [OF extends_calls(2)]
  does_bind_emits [OF extends_calls(3)] does_bind_emits [OF extends_calls(4)]
  does_bind_emits [OF extends_calls(6)] does_bind [OF CreateAndStart_started]
  does_bind_emits [OF extends_remove_matching] does_bind_emits [OF extends_rollback]
  does_bind_emits [OF extends_probe]

lemma create_new_started:
  "does (create_new E spec i name ds olds upd idx)
     (\<lambda>r es. \<forall>cid. r = Inr cid \<longrightarrow> started (s_Name ds) cid (set es))"
  unfolding create_new_def
  by (auto intro!: does_intros does_calls started_mono)

lemma roll_replica_up:
  "does (roll_replica E spec snaps i c r acc) (\<lambda>x es. isl x \<or> replica_up c r (set es))"
proof -
  have up: "replica_up c r (A \<union> insert (EvInspect cid q) B)"
    if st: "started (replica_name c r @ ''-'' @ suffix_of bs) cid A"
      and q: "case q of Inr info \<Rightarrow> st_Running (cj_State info) | Inl e \<Rightarrow> False" for A B cid q bs
  proof -
    obtain info where "q = Inr info" "st_Running (cj_State info)" using q by (cases q) auto
    with started_mono(1) [OF st] have "seen_up (replica_name c r @ ''-'' @ suffix_of bs) (A \<union> insert (EvInspect cid q) B)"
      unfolding seen_up_def by blast
    with suffix_of_generated [of bs] show ?thesis unfolding replica_up_def by blast
  qed
  have olds: "extends (forM olds (\<lambda>old. do { StopAndRemoveContainer E (o_id old) 10; ret () }))" for olds
    by (auto intro!: emits_intros)
  show ?thesis
    unfolding roll_replica_def Let_def GenerateSuffix_def client_ops
    by (auto simp: docker_spec_def split: prod.splits
        intro!: does_intros does_calls does_bind [OF create_new_started]
          does_bind_emits [OF olds] replica_up_mono [OF up])
qed

definition container_up :: "DeployContainer \<Rightarrow> event set \<Rightarrow> bool" where
  "container_up c A = (\<forall>r<replicas_of c. replica_up c r A)"

lemma container_up_mono: "container_up c A \<Longrightarrow> A \<subseteq> B \<Longrightarrow> container_up c B"
  unfolding container_up_def by (blast intro: replica_up_mono)

lemma roll_container_up:
  "does (roll_container E spec snaps ic acc) (\<lambda>x es. isl x \<or> container_up (snd ic) (set es))"
proof -
  have "does (foldE [0..<replicas_of c] (roll_replica E spec snaps i c) acc)
      (\<lambda>x es. isl x \<or> (\<forall>r\<in>set [0..<replicas_of c]. replica_up c r (set es)))" for i c
    by (rule does_foldE_all) (auto intro: roll_replica_up replica_up_mono)
  then have loop: "does (foldE [0..<replicas_of c] (roll_replica E spec snaps i c) acc)
      (\<lambda>x es. isl x \<or> container_up c (set es))" for i c
    by (rule does_mono) (auto simp: container_up_def)
  show ?thesis
    unfolding roll_container_def Let_def
    by (auto intro!: does_intros does_calls does_mono [OF loop])
      (erule notE, erule container_up_mono, blast)
qed

lemma extends_take_snapshots: "extends (take_snapshots E spec)"
  by (rule does_extends [OF take_snapshots_fit])

definition all_up :: "DeploymentSpec \<Rightarrow> event set \<Rightarrow> bool" where
  "all_up spec A = (\<forall>c\<in>set (d_Containers spec). container_up c A)"

lemma all_up_mono: "all_up spec A \<Longrightarrow> A \<subseteq> B \<Longrightarrow> all_up spec B"
  unfolding all_up_def by (blast intro: container_up_mono)

lemma executeRolling_up:
  "does (executeRolling E spec) (\<lambda>x es. x = None \<longrightarrow> all_up spec (set es))"
proof -
  have "does (foldE (List.enumerate 0 (d_Containers spec)) (roll_container E spec snaps) a)
      (\<lambda>x es. isl x \<or> (\<forall>ic\<in>set (List.enumerate 0 (d_Containers spec)). container_up (snd ic) (set es)))"
    for snaps a
    by (rule does_foldE_all) (auto intro: roll_container_up container_up_mono)
  moreover have "all_up spec A"
    if "\<forall>ic\<in>set (List.enumerate 0 (d_Containers spec)). container_up (snd ic) A" for A
    unfolding all_up_def
  proof
    fix c
    assume "c \<in> set (d_Containers spec)"
    then have "c \<in> snd ` set (List.enumerate 0 (d_Containers spec))"
      by (metis map_snd_enumerate set_map)
    with that show "container_up c A" by auto
  qed
  ultimately have loop: "does (foldE (List.enumerate 0 (d_Containers spec)) (roll_container E spec snaps) a)
      (\<lambda>x es. isl x \<or> all_up spec (set es))" for snaps a
    by (metis (mono_tags, lifting) does_mono)
  show ?thesis
    unfolding executeRolling_def
    by (auto intro!: does_bind_emits [OF extends_take_snapshots] does_bind [OF loop] does_intros
        elim!: all_up_mono)
qed

section \<open>What a rollback does\<close>

text \<open>
  For a snapshot with a predecessor: its old image is pulled, and unless the client refuses
  the specification (an environment key, a bind or a network it blocks), a container with
  the old image is requested under a generated name of the snapshot.
\<close>

definition admissible :: "DeployContainer \<Rightarrow> bool" where
  "admissible c = (list_all env_entry_ok (c_EnvVars c) \<and>
     list_all (\<lambda>(hp, _). validateHostPath hp = None) (c_Volumes c) \<and> blocked_network (c_Networks c) = None)"

definition asks_image :: "string \<Rightarrow> string \<Rightarrow> event \<Rightarrow> bool" where
  "asks_image n im e = (case e of
     EvCreate m cfg _ _ _ \<Rightarrow> (\<exists>suf. IsGeneratedSuffixSegment suf \<and> m = n @ ''-'' @ suf) \<and> cfg_Image cfg = im
   | _ \<Rightarrow> False)"

definition restore_tried :: "containerSnapshot \<Rightarrow> event set \<Rightarrow> bool" where
  "restore_tried sn A = (sn_OldID sn \<noteq> [] \<longrightarrow>
     (\<exists>a q. EvPull (sn_OldImage sn) a q \<in> A) \<and> (\<exists>e\<in>A. asks_image (sn_Name sn) (sn_OldImage sn) e))"

lemma restore_tried_mono: "restore_tried sn A \<Longrightarrow> A \<subseteq> B \<Longrightarrow> restore_tried sn B"
  unfolding restore_tried_def by blast

lemma admissible_build:
  assumes "admissible c"
  shows "build_env (shuffle o1 (c_EnvVars c)) \<noteq> Inl e"
    "build_binds (shuffle o2 (c_Volumes c)) \<noteq> Inl e" "blocked_network (c_Networks c) = None"
proof -
  have "build_env (shuffle o1 (c_EnvVars c)) = Inr (map (\<lambda>(k, v). k @ ''='' @ v) (shuffle o1 (c_EnvVars c)))"
    "build_binds (shuffle o2 (c_Volumes c)) = Inr (map (\<lambda>(hp, cp). hp @ '':'' @ cp) (shuffle o2 (c_Volumes c)))"
    using assms list_all_mset [OF mset_shuffle, of _ o1 "c_EnvVars c"]
      list_all_mset [OF mset_shuffle, of _ o2 "c_Volumes c"]
    by (auto simp: admissible_def build_env_ok build_binds_ok)
  then show "build_env (shuffle o1 (c_EnvVars c)) \<noteq> Inl e"
    "build_binds (shuffle o2 (c_Volumes c)) \<noteq> Inl e" by simp_all
  show "blocked_network (c_Networks c) = None" using assms by (simp add: admissible_def)
qed

lemma CreateAndStart_asks:
  assumes "admissible c"
  shows "does (CreateAndStartContainer E ((docker_spec spec c (n @ ''-'' @ suffix_of bs))\<lparr>s_Image := im, s_Tag := []\<rparr>))
    (\<lambda>_ es. \<exists>e\<in>set es. asks_image n im e)"
proof -
  have ext: "extends (connect_extra E ds cid)" for ds cid
    by (auto simp: connect_extra_def intro!: emits_intros)
  show ?thesis
    unfolding CreateAndStartContainer_def client_ops
    using suffix_of_generated [of bs]
    by (auto simp: docker_spec_def asks_image_def build_config_def admissible_build [OF assms]
        intro!: does_intros does_bind_emits [OF ext] split: sum.splits)
qed

lemma does_PullImage:
  "does (PullImage E im au) (\<lambda>_ es. \<exists>q. EvPull im au q \<in> set es)"
  by (auto simp: client_ops intro!: does_intros)

lemma rollback_one_tries:
  assumes "admissible (d_Containers spec ! sn_SpecIdx sn)"
  shows "does (rollback_one E spec sn) (\<lambda>_ es. restore_tried sn (set es))"
proof (cases "sn_OldID sn = []")
  case True
  then have "\<And>A. restore_tried sn A" by (simp add: restore_tried_def)
  moreover have "extends (rollback_one E spec sn)"
    by (auto simp: rollback_one_def Let_def GenerateSuffix_def client_ops intro!: emits_intros)
  ultimately show ?thesis by (auto intro: does_emitsI)
next
  case False
  have rename: "does (case r of Inl e \<Rightarrow> ret () | Inr cid \<Rightarrow> do { RenameContainer E cid n; ret () }) (\<lambda>_ _. True)"
    for r n
    by (auto simp: client_ops intro!: does_intros)
  have "does (rollback_one E spec sn) (\<lambda>_ es. (\<exists>a q. EvPull (sn_OldImage sn) a q \<in> set es) \<and>
      (\<exists>e\<in>set es. asks_image (sn_Name sn) (sn_OldImage sn) e))"
    unfolding rollback_one_def Let_def GenerateSuffix_def using False
    by (auto intro!: does_bind_emits [OF extends_calls(1)] does_bind [OF does_PullImage]
        does_bind_emits [OF extends_remove_matching] does_bind_observe
        does_bind [OF CreateAndStart_asks [OF assms, simplified]] does_mono [OF rename]) blast
  then show ?thesis by (rule does_mono) (simp add: restore_tried_def)
qed

lemma rollback_tries:
  assumes "list_all admissible (d_Containers spec)"
  shows "does (rollbackContainers E spec snaps upd)
    (\<lambda>_ es. \<forall>k\<in>set upd. k < length snaps \<longrightarrow> sn_SpecIdx (snaps ! k) < length (d_Containers spec) \<longrightarrow>
       restore_tried (snaps ! k) (set es))"
proof -
  have loop: "does (forM (rev upd) (\<lambda>idx.
      if idx < length snaps \<and> sn_SpecIdx (snaps ! idx) < length (d_Containers spec)
      then rollback_one E spec (snaps ! idx) else emit (EvPanic ''index out of range'')))
    (\<lambda>_ es. \<forall>k\<in>set (rev upd). k < length snaps \<longrightarrow> sn_SpecIdx (snaps ! k) < length (d_Containers spec) \<longrightarrow>
       restore_tried (snaps ! k) (set es))"
    by (rule does_forM_all)
      (use assms in \<open>auto simp: list_all_length intro!: does_intros does_mono [OF rollback_one_tries]
        intro: restore_tried_mono\<close>)
  show ?thesis
    unfolding rollbackContainers_def reportProgress_def
    by (auto intro!: does_intros does_mono [OF loop] elim!: restore_tried_mono)
qed

section \<open>Properties\<close>

text \<open>
  C2: a rolling update never removes what it has not replaced. For every specification and
  every daemon, in the events of the run, a container that the run did not create is removed
  only after the container created last in its place has been seen running, or after the
  rollback has been reported; no index is out of range; and a run that returns an error
  after having stopped a container it did not create has entered the rollback.
\<close>

theorem rolling_removal_guarded:
  "accepted r_ok r_nxt r_init (events (executeRolling E spec) h) \<and>
   (result (executeRolling E spec) h = None \<or>
    \<not> m_stopped (foldl r_nxt r_init (events (executeRolling E spec) h)) \<or>
    m_failed (foldl r_nxt r_init (events (executeRolling E spec) h)))"
  using track_events [OF track_executeRolling] by blast

text \<open>
  C5: a rolling update that reports success has brought up every replica of every
  container: under the replica's name with a generated suffix a container was created, its
  start succeeded, and the daemon answered that it runs.
\<close>

theorem rolling_success_complete:
  assumes "result (executeRolling E spec) h = None"
    and "c \<in> set (d_Containers spec)" and "r < replicas_of c"
  shows "replica_up c r (set (events (executeRolling E spec) h))"
  using does_events [OF executeRolling_up, of E spec h] assms
  by (simp add: all_up_def container_up_def)

text \<open>
  a rollback tries to restore everything it was given. For each index of the rollback
  set whose replica had a predecessor, the predecessor's image is pulled again and a
  container of that image is requested under a generated name of the replica, whatever
  fails on the way, provided that the client does not refuse the specification.
\<close>

theorem rollback_restores_all:
  assumes "list_all admissible (d_Containers spec)" and "k \<in> set upd" and "k < length snaps"
    and "sn_SpecIdx (snaps ! k) < length (d_Containers spec)"
  shows "restore_tried (snaps ! k) (set (events (rollbackContainers E spec snaps upd) h))"
  using does_events [OF rollback_tries [OF assms(1)]] assms(2-) by blast

section \<open>Witnesses\<close>

lemmas rolling_ops = executeRolling_def take_snapshots_def replica_slots_def snapshot_one_def
  FindCanonicalContainer_def findAllMatchingContainers_def roll_container_def roll_replica_def
  create_new_def shouldProbe_def stop_olds_def CreateAndStartContainer_def connect_extra_def
  GenerateSuffix_def reportProgress_def client_ops

definition full_host :: host where
  "full_host = calm_host\<lparr>ContainerList := \<lambda>_ _. Inr [\<lparr>ct_ID = ''old1'', ct_Names = [''/web''], ct_Labels = [],
     ct_Ports = [], ct_State = ''running'', ct_Status = [], ct_Networks = [], ct_Image = ''img'', ct_Created = 0\<rparr>],
     ContainerCreate := \<lambda>_ _ _ _ _. Inl (Fmt ''no space'' [])\<rparr>"

lemmas rollback_ops = rollbackContainers_def rollback_one_def remove_matching_def
  StopAndRemoveContainer_def appendIdx_def

lemmas demo_names = replicas_of_def replica_name_def image_ref_def tag_of_def docker_spec_def
  step_of_def step_payload_def belongs_def names_of_def TrimPrefix_def HasPrefix_def

theorem rolling_removal_guarded_witness:
  "result (executeRolling full_host demo_spec) [] \<noteq> None \<and>
   m_stopped (foldl r_nxt r_init (events (executeRolling full_host demo_spec) [])) \<and>
   m_failed (foldl r_nxt r_init (events (executeRolling full_host demo_spec) []))"
proof -
  have "result (executeRolling full_host demo_spec) [] \<noteq> None \<and>
     m_stopped (foldl r_nxt r_init (events (executeRolling full_host demo_spec) []))"
    by (simp add: full_host_def rolling_ops rollback_ops numeral_3_eq_3 demos hosts run_simps
        demo_names Let_def r_nxt_def r_init_def stop_seen_def)
  with rolling_removal_guarded [of full_host demo_spec "[]"] show ?thesis by blast
qed

theorem rolling_success_complete_witness:
  "replicas_of demo_container = 1 \<and>
   replica_up demo_container 0 (set (events (executeRolling calm_host demo_spec) []))"
proof
  show r: "replicas_of demo_container = 1" by (simp add: demos replicas_of_def)
  have "result (executeRolling calm_host demo_spec) [] = None"
    by (simp add: rolling_ops demos hosts run_simps replicas_of_def replica_name_def image_ref_def
        tag_of_def docker_spec_def Let_def step_of_def step_payload_def)
  then show "replica_up demo_container 0 (set (events (executeRolling calm_host demo_spec) []))"
    by (rule rolling_success_complete) (simp_all add: r, simp add: demo_spec_def)
qed

theorem rollback_restores_all_witness:
  "restore_tried \<lparr>sn_Name = ''web'', sn_OldImage = ''img:1'', sn_SpecIdx = 0, sn_Replica = 0, sn_OldID = ''old''\<rparr>
     (set (events (rollbackContainers calm_host demo_spec
       [\<lparr>sn_Name = ''web'', sn_OldImage = ''img:1'', sn_SpecIdx = 0, sn_Replica = 0, sn_OldID = ''old''\<rparr>] [0]) []))"
  using rollback_restores_all [of demo_spec 0 "[0]"
      "[\<lparr>sn_Name = ''web'', sn_OldImage = ''img:1'', sn_SpecIdx = 0, sn_Replica = 0, sn_OldID = ''old''\<rparr>]"
      calm_host "[]"]
  by (simp add: demos admissible_def)

end
