(* ===== verification/Blue_Green.thy ===== *)
theory Blue_Green
  imports Rolling
begin

text \<open>
  The blue-green strategy, deploy/bluegreen.go: green copies without ports, their health
  check, the swap that retires blue and creates the final container, and the restoration of
  blue when the swap fails.
\<close>

section \<open>Phase 1: green copies\<close>

definition needsGreen :: "DeployContainer \<Rightarrow> bool" where
  "needsGreen c = (c_Volumes c = [])"

type_synonym greens = "(string \<times> string) list"

definition cleanupGreen :: "host \<Rightarrow> greens \<Rightarrow> unit prog" where
  "cleanupGreen E greenIDs = do {
     order \<leftarrow> observe (MapOrder E);
     forM (shuffle (order ''greenIDs'') greenIDs) (\<lambda>(name, cid). do {
       StopContainer E cid 10;
       RemoveContainer E cid True;
       ret ()
     })
   }"

definition start_green ::
  "host \<Rightarrow> DeploymentSpec \<Rightarrow> DeployContainer \<Rightarrow> nat \<Rightarrow> greens \<Rightarrow> (goerr + greens) prog" where
  "start_green E spec c replica greenIDs = (let name = replica_name c replica; greenName = name @ ''-green'' in do {
     r \<leftarrow> CreateAndStartContainer E
       ((docker_spec spec c greenName)\<lparr>s_PortMappings := [], s_NetworkAliases := []\<rparr>);
     (case r of
        Inl e \<Rightarrow> do {
          cleanupGreen E greenIDs;
          ret (Inl (Fmt ''create green container %s: %w'' [FS greenName, FE e]))
        }
      | Inr cid \<Rightarrow> do {
          reportProgress (d_DeploymentID spec) ''deploying''
            (Fmt ''green container %s started'' [FS greenName])
            [(''container_name'', JStr greenName), (''step'', JStr ''green_running'')];
          ret (Inr (AList.update name cid greenIDs))
        })
   })"

definition green_container ::
  "host \<Rightarrow> DeploymentSpec \<Rightarrow> nat \<times> DeployContainer \<Rightarrow> greens \<Rightarrow> (goerr + greens) prog" where
  "green_container E spec ic greenIDs = (let i = fst ic; c = snd ic in do {
     reportProgress (d_DeploymentID spec) ''deploying''
       (Fmt ''[%d/%d] pulling image %s for green containers'' (step_of i spec @ [FS (image_ref c)]))
       [(''container_name'', JStr (c_Name c)), (''step'', JStr ''pulling'')];
     p \<leftarrow> PullImage E (image_ref c) (c_RegistryAuth c);
     (case p of
        Some e \<Rightarrow> do {
          cleanupGreen E greenIDs;
          ret (Inl (Fmt ''pull image %s: %w'' [FS (image_ref c), FE e]))
        }
      | None \<Rightarrow>
        if \<not> needsGreen c
        then do {
          reportProgress (d_DeploymentID spec) ''deploying''
            (Fmt ''[%d/%d] %s has volumes: no green copy, it is replaced in place at the swap''
              (step_of i spec @ [FS (c_Name c)]))
            [(''container_name'', JStr (c_Name c)), (''step'', JStr ''in_place'')];
          ret (Inr greenIDs)
        }
        else foldE [0..<replicas_of c] (start_green E spec c) greenIDs)
   })"

section \<open>Phase 2: health of the green copies\<close>

text \<open>The polling loop: 30 s, one inspect every 2 s; it ends early when the copy is healthy.\<close>

function green_wait :: "host \<Rightarrow> string \<Rightarrow> nat \<Rightarrow> unit prog" where
  "green_wait E cid k = do {
     j \<leftarrow> observe (Jitter E);
     (if 2000 * k + j < 30000
      then do {
        r \<leftarrow> InspectContainer E cid;
        (if (case r of
               Inr info \<Rightarrow> st_Running (cj_State info) \<and>
                 (case st_Health (cj_State info) of None \<Rightarrow> True | Some hl \<Rightarrow> fst hl = ''healthy'')
             | Inl e \<Rightarrow> False)
         then ret ()
         else do { emit (EvSleep 2000); green_wait E cid (Suc k) })
      }
      else ret ())
   }"
  by pat_completeness auto
termination
  by (relation "measure (\<lambda>(E, cid, k). 15 - k)") auto

declare green_wait.simps [simp del]

definition check_green ::
  "host \<Rightarrow> DeploymentSpec \<Rightarrow> greens \<Rightarrow> string \<times> string \<Rightarrow> goerr option prog" where
  "check_green E spec greenIDs nc = (let cName = fst nc; cid = snd nc in do {
     green_wait E cid 0;
     r \<leftarrow> InspectContainer E cid;
     (if (case r of Inr info \<Rightarrow> \<not> st_Running (cj_State info) | Inl e \<Rightarrow> True)
      then do {
        reportProgress (d_DeploymentID spec) ''failed''
          (Fmt ''health check failed: container %s not running'' [FS cName]) [];
        cleanupGreen E greenIDs;
        ret (Some (Fmt ''health check failed for %s: container not running'' [FS cName]))
      }
      else case st_Health (cj_State (projr r)) of
          Some (status, _) \<Rightarrow>
            if status \<noteq> ''healthy''
            then do {
              reportProgress (d_DeploymentID spec) ''failed''
                (Fmt ''health check failed: %s is %s'' [FS cName, FS status]) [];
              cleanupGreen E greenIDs;
              ret (Some (Fmt ''health check failed for %s: status %s'' [FS cName, FS status]))
            }
            else ret None
        | None \<Rightarrow> ret None)
   })"

section \<open>Phase 3: the swap\<close>

record blueBackup =
  bb_canonicalName :: string
  bb_id :: string
  bb_retiredName :: string

text \<open>Step 1: retire blue, that is rename it and stop it, and remember it.\<close>

definition retire_blue ::
  "host \<Rightarrow> DeploymentSpec \<Rightarrow> string \<Rightarrow> blueBackup list \<Rightarrow> blueBackup list prog" where
  "retire_blue E spec canonicalName backups = do {
     reportProgress (d_DeploymentID spec) ''deploying''
       (Fmt ''retiring blue (old) container: %s'' [FS canonicalName])
       [(''container_name'', JStr canonicalName), (''step'', JStr ''stopping_blue'')];
     r \<leftarrow> FindContainerByName E canonicalName;
     (if (case r of Inr i \<Rightarrow> i \<noteq> [] | Inl e \<Rightarrow> False)
      then do {
        now \<leftarrow> observe (UnixNano E);
        let retiredName = canonicalName @ ''-retired-'' @ Itoa now;
        q \<leftarrow> RenameContainer E (projr r) retiredName;
        StopContainer E (projr r) 30;
        ret (backups @ [\<lparr>bb_canonicalName = canonicalName, bb_id = projr r,
                         bb_retiredName = (if q = None then retiredName else [])\<rparr>])
      }
      else ret backups)
   }"

definition swap_replica ::
  "host \<Rightarrow> DeploymentSpec \<Rightarrow> greens \<Rightarrow> DeployContainer \<Rightarrow> nat \<Rightarrow> blueBackup list \<Rightarrow>
     (goerr \<times> blueBackup list + blueBackup list) prog" where
  "swap_replica E spec greenIDs c replica backups = (let canonicalName = replica_name c replica in do {
     backups \<leftarrow> retire_blue E spec canonicalName backups;
     (case map_of greenIDs canonicalName of
        Some greenID \<Rightarrow> do { StopContainer E greenID 10; RemoveContainer E greenID True; ret () }
      | None \<Rightarrow> ret ());
     r \<leftarrow> CreateAndStartContainer E (docker_spec spec c canonicalName);
     (case r of
        Inl e \<Rightarrow> ret (Inl (Fmt ''recreate container %s: %w'' [FS canonicalName, FE e], backups))
      | Inr finalID \<Rightarrow> do {
          q \<leftarrow> InspectContainer E finalID;
          (if (case q of Inr info \<Rightarrow> \<not> st_Running (cj_State info) | Inl e \<Rightarrow> True)
           then do {
             StopAndRemoveContainer E finalID 5;
             ret (Inl (Fmt ''final container %s not running after swap'' [FS canonicalName], backups))
           }
           else do {
             reportProgress (d_DeploymentID spec) ''deploying''
               (Fmt ''swapped to new container: %s'' [FS canonicalName])
               [(''container_name'', JStr canonicalName), (''step'', JStr ''swapped'')];
             ret (Inr backups)
           })
        })
   })"

definition swap_container ::
  "host \<Rightarrow> DeploymentSpec \<Rightarrow> greens \<Rightarrow> DeployContainer \<Rightarrow> blueBackup list \<Rightarrow>
     (goerr \<times> blueBackup list + blueBackup list) prog" where
  "swap_container E spec greenIDs c backups =
     foldE [0..<replicas_of c] (swap_replica E spec greenIDs c) backups"

definition restore_blue :: "host \<Rightarrow> blueBackup \<Rightarrow> unit prog" where
  "restore_blue E bb = do {
     r \<leftarrow> FindContainerByName E (bb_canonicalName bb);
     (if (case r of Inr i \<Rightarrow> i \<noteq> [] \<and> i \<noteq> bb_id bb | Inl e \<Rightarrow> False)
      then do { StopAndRemoveContainer E (projr r) 5; ret () }
      else ret ());
     (if bb_retiredName bb \<noteq> [] then do { RenameContainer E (bb_id bb) (bb_canonicalName bb); ret () }
      else ret ());
     StartContainer E (bb_id bb);
     ret ()
   }"

section \<open>The whole strategy\<close>

definition swap_all :: "host \<Rightarrow> DeploymentSpec \<Rightarrow> greens \<Rightarrow> goerr option prog" where
  "swap_all E spec greenIDs = do {
     r \<leftarrow> foldE (d_Containers spec) (swap_container E spec greenIDs) [];
     (case r of
        Inl (swapErr, backups) \<Rightarrow> do {
          forM backups (restore_blue E);
          cleanupGreen E greenIDs;
          ret (Some swapErr)
        }
      | Inr backups \<Rightarrow> do {
          forM backups (\<lambda>bb. do { RemoveContainer E (bb_id bb) True; ret () });
          ret None
        })
   }"

definition executeBlueGreen :: "host \<Rightarrow> DeploymentSpec \<Rightarrow> goerr option prog" where
  "executeBlueGreen E spec = do {
     reportProgress (d_DeploymentID spec) ''deploying''
       (Fmt ''starting blue-green deployment with %d containers'' [FD (int (length (d_Containers spec)))]) [];
     g \<leftarrow> foldE (List.enumerate 0 (d_Containers spec)) (green_container E spec) [];
     (case g of
        Inl e \<Rightarrow> ret (Some e)
      | Inr greenIDs \<Rightarrow> do {
          reportProgress (d_DeploymentID spec) ''deploying''
            (Fmt ''all green containers running, performing health checks'' []) [];
          order \<leftarrow> observe (MapOrder E);
          c \<leftarrow> forE (shuffle (order ''health'') greenIDs) (check_green E spec greenIDs);
          (case c of
             Some e \<Rightarrow> ret (Some e)
           | None \<Rightarrow> do {
               reportProgress (d_DeploymentID spec) ''deploying''
                 (Fmt ''health check passed, swapping blue->green'' []) [];
               swap_all E spec greenIDs
             })
        })
   }"

section \<open>A failed swap\<close>

text \<open>
  A container stopped with the 30 s grace of the swap is a blue one; \<open>restored_to n b\<close>
  says that it was started again, after getting back its name if it had lost it.
\<close>

definition retired :: "event set \<Rightarrow> string set" where
  "retired A = {i. \<exists>q. EvStop i 30 q \<in> A}"

definition backed_up :: "blueBackup list \<Rightarrow> event set \<Rightarrow> bool" where
  "backed_up bs A = (retired A \<subseteq> bb_id ` set bs)"

definition restarted :: "blueBackup \<Rightarrow> event set \<Rightarrow> bool" where
  "restarted bb A = ((\<exists>q. EvStart (bb_id bb) q \<in> A) \<and>
     (bb_retiredName bb \<noteq> [] \<longrightarrow> (\<exists>q. EvRename (bb_id bb) (bb_canonicalName bb) q \<in> A)))"

lemma retired_simps [simp]:
  "retired {} = {}" "retired (A \<union> B) = retired A \<union> retired B"
  by (auto simp: retired_def)

definition no_retire :: "event \<Rightarrow> bool" where
  "no_retire e = (case e of EvStop _ t _ \<Rightarrow> t \<noteq> 30 | _ \<Rightarrow> True)"

lemma retired_insert: "no_retire e \<Longrightarrow> retired (insert e A) = retired A"
  by (auto simp: retired_def no_retire_def)

lemma no_retire_retired: "list_all no_retire es \<Longrightarrow> retired (set es) = {}"
  by (force simp: retired_def list_all_iff no_retire_def split: event.splits)

lemma emits_no_retire [emits_intros]:
  "emits no_retire (reportProgress i st m pl)" "emits no_retire (CreateAndStartContainer E ds)"
  "emits no_retire (cleanupGreen E g)" "k \<noteq> 30 \<Longrightarrow> emits no_retire (StopAndRemoveContainer E c k)"
  "emits no_retire (PullImage E im au)" "emits no_retire (FindContainerByName E n)"
proof -
  have rem: "emits no_retire (remove_attempts E c n)" for n
    by (rule emits_mono [OF emits_remove_attempts]) (auto simp: no_retire_def)
  show "k \<noteq> 30 \<Longrightarrow> emits no_retire (StopAndRemoveContainer E c k)"
    by (auto simp: StopAndRemoveContainer_def client_ops no_retire_def intro!: emits_intros rem)
qed (auto simp: reportProgress_def CreateAndStartContainer_def connect_extra_def cleanupGreen_def
      client_ops no_retire_def intro!: emits_intros)

lemma emits_green_wait [emits_intros]: "emits no_retire (green_wait E cid k)"
proof (induction "15 - k" arbitrary: k rule: less_induct)
  case less
  show ?case
    by (subst green_wait.simps, auto simp: client_ops no_retire_def intro!: emits_intros less)
qed

lemma does_retire_blue:
  "does (retire_blue E spec n bs) (\<lambda>bs' es. \<exists>cs. bs' = bs @ cs \<and> retired (set es) \<subseteq> bb_id ` set cs)"
  unfolding retire_blue_def Let_def reportProgress_def client_ops
  by (auto simp: retired_def intro!: does_intros)

definition backups_of :: "(goerr \<times> blueBackup list) + blueBackup list \<Rightarrow> blueBackup list" where
  "backups_of x = (case x of Inl (e, b) \<Rightarrow> b | Inr b \<Rightarrow> b)"

definition keeps_backups ::
  "blueBackup list \<Rightarrow> (goerr \<times> blueBackup list) + blueBackup list \<Rightarrow> event list \<Rightarrow> bool" where
  "keeps_backups bs x es = (\<exists>cs. backups_of x = bs @ cs \<and> retired (set es) \<subseteq> bb_id ` set cs)"

lemma keeps_backups_append:
  "keeps_backups bs (Inr cs) a \<Longrightarrow> keeps_backups cs x b \<Longrightarrow> keeps_backups bs x (a @ b)"
  by (auto simp: keeps_backups_def backups_of_def image_Un)

lemma swap_replica_backed: "does (swap_replica E spec g c r bs) (keeps_backups bs)"
  unfolding swap_replica_def Let_def client_ops keeps_backups_def backups_of_def
  by (auto simp: no_retire_retired retired_insert no_retire_def
      intro!: does_bind [OF does_retire_blue] does_intros does_bind_emits [OF emits_no_retire(1)]
       does_bind_emits [OF emits_no_retire(2)] does_bind_emits [OF emits_no_retire(4)])

lemma keeps_backups_Nil: "keeps_backups bs (Inr bs) []"
  by (simp add: keeps_backups_def backups_of_def)

lemma swap_container_backed: "does (swap_container E spec g c bs) (keeps_backups bs)"
  unfolding swap_container_def
  by (rule does_foldE_rel) (auto intro: swap_replica_backed keeps_backups_Nil keeps_backups_append)

lemma swap_loop_backed: "does (foldE cs (swap_container E spec g) bs) (keeps_backups bs)"
  by (rule does_foldE_rel) (auto intro: swap_container_backed keeps_backups_Nil keeps_backups_append)

lemma restarted_mono: "restarted bb A \<Longrightarrow> A \<subseteq> B \<Longrightarrow> restarted bb B"
  unfolding restarted_def by blast

lemma restore_blue_restarts: "does (restore_blue E bb) (\<lambda>_ es. restarted bb (set es))"
  unfolding restore_blue_def restarted_def client_ops
  by (auto intro!: does_intros does_bind_emits [OF extends_calls(2)])

lemma emits_restore_blue: "emits no_retire (restore_blue E bb)"
  unfolding restore_blue_def client_ops
  by (auto simp: no_retire_def intro!: emits_intros emits_no_retire(4))

text \<open>Every blue container that the swap stopped is started again when the swap fails.\<close>

definition blues_restarted :: "event list \<Rightarrow> bool" where
  "blues_restarted es = (\<forall>i\<in>retired (set es). \<exists>q. EvStart i q \<in> set es)"

lemma restarted_starts:
  assumes "retired A \<subseteq> bb_id ` set bs" "\<forall>bb\<in>set bs. restarted bb B" "i \<in> retired A"
  shows "\<exists>q. EvStart i q \<in> A \<union> (B \<union> C)"
  using assms unfolding restarted_def by blast

lemma swap_all_error:
  "does (swap_all E spec g) (\<lambda>x es. x \<noteq> None \<longrightarrow> blues_restarted es)"
proof -
  have loop: "does (forM bs (restore_blue E)) (\<lambda>_ es. (\<forall>bb\<in>set bs. restarted bb (set es)) \<and> list_all no_retire es)" for bs
    by (rule does_conj [OF does_forM_all])
      (auto simp: does_emits [symmetric] intro: restore_blue_restarts restarted_mono intro!: emits_forM emits_restore_blue)
  have dispose: "extends (forM bs (\<lambda>bb. do { RemoveContainer E (bb_id bb) True; ret () }))" for bs
    by (auto simp: client_ops intro!: emits_intros)
  have err: "blues_restarted (a @ b @ c)"
    if "keeps_backups [] (Inl (e, bs)) a" "\<forall>bb\<in>set bs. restarted bb (set b)"
      "list_all no_retire b" "list_all no_retire c" for a b c e bs
    using that restarted_starts [of "set a" bs "set b" _ "set c"]
    by (auto simp: blues_restarted_def keeps_backups_def backups_of_def no_retire_retired)
  show ?thesis
    unfolding swap_all_def
    by (auto intro!: does_bind [OF swap_loop_backed] does_intros does_bind [OF loop]
        does_bind_emits [OF emits_no_retire(3)] does_bind_emits [OF dispose] err)
qed

lemma blues_restarted_prefix: "list_all no_retire a \<Longrightarrow> blues_restarted b \<Longrightarrow> blues_restarted (a @ b)"
  by (auto simp: blues_restarted_def no_retire_retired)

lemma blues_restarted_none: "list_all no_retire a \<Longrightarrow> blues_restarted a"
  by (simp add: blues_restarted_def no_retire_retired)

lemma emits_greens: "emits no_retire (foldE xs (green_container E spec) g)"
  unfolding green_container_def start_green_def Let_def
  by (auto intro!: emits_intros)

lemma emits_checks: "emits no_retire (forE xs (check_green E spec g))"
  unfolding check_green_def Let_def client_ops
  by (auto simp: no_retire_def intro!: emits_intros split: prod.splits)

lemma executeBlueGreen_error:
  "does (executeBlueGreen E spec) (\<lambda>x es. x \<noteq> None \<longrightarrow> blues_restarted es)"
  unfolding executeBlueGreen_def
  by (auto intro!: does_bind_emits [OF emits_no_retire(1)] does_bind_emits [OF emits_greens]
      does_bind_emits [OF emits_checks] does_bind_observe does_ret does_case_option does_case_sum
      does_mono [OF swap_all_error] blues_restarted_prefix intro: blues_restarted_none)

section \<open>A successful swap\<close>

definition final_up :: "DeployContainer \<Rightarrow> nat \<Rightarrow> event set \<Rightarrow> bool" where
  "final_up c r A = seen_up (replica_name c r) A"

definition finals_up :: "DeployContainer \<Rightarrow> event set \<Rightarrow> bool" where
  "finals_up c A = (\<forall>r<replicas_of c. final_up c r A)"

lemma final_up_mono: "final_up c r A \<Longrightarrow> A \<subseteq> B \<Longrightarrow> final_up c r B"
  unfolding final_up_def seen_up_def started_def by blast

lemma finals_up_mono: "finals_up c A \<Longrightarrow> A \<subseteq> B \<Longrightarrow> finals_up c B"
  unfolding finals_up_def by (blast intro: final_up_mono)

lemma seen_upI:
  assumes "started n cid A" "\<not> (case q of Inr info \<Rightarrow> \<not> st_Running (cj_State info) | Inl e \<Rightarrow> True)"
  shows "seen_up n (insert (EvInspect cid q) A)"
proof -
  obtain info where "q = Inr info" "st_Running (cj_State info)" using assms(2) by (cases q) auto
  with started_mono(3) [OF assms(1)] show ?thesis unfolding seen_up_def by blast
qed

lemma swap_replica_up:
  "does (swap_replica E spec g c r bs) (\<lambda>x es. isl x \<or> final_up c r (set es))"
proof -
  have ext: "extends (retire_blue E spec n bs)" for n by (rule does_extends [OF does_retire_blue])
  have up: "final_up c r B" if "started (replica_name c r) cid A"
      "\<not> (case q of Inr info \<Rightarrow> \<not> st_Running (cj_State info) | Inl e \<Rightarrow> True)"
      "insert (EvInspect cid q) A \<subseteq> B" for cid A q B
    by (rule final_up_mono [OF _ that(3)]) (simp add: final_up_def seen_upI [OF that(1,2)])
  show ?thesis
    unfolding swap_replica_def Let_def client_ops
    by (auto simp: docker_spec_def intro!: does_bind_emits [OF ext] does_intros does_calls up)
qed

lemma swap_container_up:
  "does (swap_container E spec g c bs) (\<lambda>x es. isl x \<or> finals_up c (set es))"
proof -
  have "does (swap_container E spec g c bs)
      (\<lambda>x es. isl x \<or> (\<forall>r\<in>set [0..<replicas_of c]. final_up c r (set es)))"
    unfolding swap_container_def
    by (rule does_foldE_all) (auto intro: swap_replica_up final_up_mono)
  then show ?thesis by (rule does_mono) (auto simp: finals_up_def)
qed

definition all_finals_up :: "DeploymentSpec \<Rightarrow> event set \<Rightarrow> bool" where
  "all_finals_up spec A = (\<forall>c\<in>set (d_Containers spec). finals_up c A)"

lemma all_finals_up_mono: "all_finals_up spec A \<Longrightarrow> A \<subseteq> B \<Longrightarrow> all_finals_up spec B"
  unfolding all_finals_up_def by (blast intro: finals_up_mono)

lemma swap_all_up: "does (swap_all E spec g) (\<lambda>x es. x = None \<longrightarrow> all_finals_up spec (set es))"
proof -
  have loop: "does (foldE (d_Containers spec) (swap_container E spec g) bs)
      (\<lambda>x es. isl x \<or> all_finals_up spec (set es))" for bs
    unfolding all_finals_up_def by (rule does_foldE_all) (auto intro: swap_container_up finals_up_mono)
  have restore: "extends (forM bs (restore_blue E))" for bs
    by (auto intro!: emits_forM emits_extends [OF emits_restore_blue])
  have dispose: "extends (forM bs (\<lambda>bb. do { RemoveContainer E (bb_id bb) True; ret () }))" for bs
    by (auto simp: client_ops intro!: emits_intros)
  show ?thesis
    unfolding swap_all_def
    by (auto intro!: does_bind [OF loop] does_intros does_bind_emits [OF restore]
        does_bind_emits [OF emits_no_retire(3)] does_bind_emits [OF dispose] elim!: all_finals_up_mono)
qed

lemma executeBlueGreen_up:
  "does (executeBlueGreen E spec) (\<lambda>x es. x = None \<longrightarrow> all_finals_up spec (set es))"
  unfolding executeBlueGreen_def
  by (auto intro!: does_bind_emits [OF emits_no_retire(1)] does_bind_emits [OF emits_greens]
      does_bind_emits [OF emits_checks] does_bind_observe does_ret does_case_option does_case_sum
      does_mono [OF swap_all_up] elim!: all_finals_up_mono)

section \<open>Properties\<close>

text \<open>
  C6: a blue-green deployment that fails does not leave blue down. When it returns an
  error, at whatever point and for whatever reason, every container that the swap had
  stopped (with its grace of 30 seconds) has been asked to start again.
\<close>

theorem bluegreen_restores_blue:
  "result (executeBlueGreen E spec) h = None \<or> blues_restarted (events (executeBlueGreen E spec) h)"
  using does_events [OF executeBlueGreen_error] by blast

text \<open>
  a blue-green deployment that reports success has created every replica under its
  canonical name, with a start that succeeded and an inspect that answered that it runs.
\<close>

theorem bluegreen_success_complete:
  assumes "result (executeBlueGreen E spec) h = None"
    and "c \<in> set (d_Containers spec)" and "r < replicas_of c"
  shows "seen_up (replica_name c r) (set (events (executeBlueGreen E spec) h))"
  using does_events [OF executeBlueGreen_up, of E spec h] assms
  by (simp add: all_finals_up_def finals_up_def final_up_def)

theorem bluegreen_success_complete_witness:
  "replicas_of demo_container = 1 \<and>
   seen_up (replica_name demo_container 0) (set (events (executeBlueGreen calm_host demo_spec) []))"
proof
  show r: "replicas_of demo_container = 1" by (simp add: demos replicas_of_def)
  have "result (executeBlueGreen calm_host demo_spec) [] = None"
    by (simp add: executeBlueGreen_def green_container_def start_green_def needsGreen_def
        check_green_def green_wait.simps swap_all_def swap_container_def swap_replica_def
        retire_blue_def rolling_ops demos hosts run_simps replicas_of_def replica_name_def
        image_ref_def tag_of_def docker_spec_def Let_def step_of_def)
  then show "seen_up (replica_name demo_container 0) (set (events (executeBlueGreen calm_host demo_spec) []))"
    by (rule bluegreen_success_complete) (simp_all add: r, simp add: demo_spec_def)
qed

end
