(* ===== verification/Canary.thy ===== *)
theory Canary
  imports Rolling
begin

text \<open>
  The canary strategy, deploy/canary.go: one copy of the first container without ports,
  watched for thirty seconds, then a rolling update.
\<close>

section \<open>Watching the canary\<close>

text \<open>
  Check \<open>i\<close> of six. The timer of the check fires 5 s after the previous check, so at
  \<open>5 (i + 1)\<close> seconds plus the time the earlier checks took; the context expires thirty
  seconds after the watch began. The \<open>select\<close> takes whichever is ready first.
\<close>

definition canary_select :: "host \<Rightarrow> nat \<Rightarrow> bool prog" where
  "canary_select E i = do {
     j \<leftarrow> observe (Jitter E);
     ctx \<leftarrow> observe (CtxErr E);
     tie \<leftarrow> observe (SelectDone E);
     (if ctx \<noteq> None \<or> 30000 < 5000 * Suc i + j \<or> (30000 = 5000 * Suc i + j \<and> tie)
      then ret True
      else do { emit (EvSleep 5000); ret False })
   }"

definition canary_step :: "nat \<Rightarrow> fmtarg list" where
  "canary_step i = [FD (int i + 1), FD 6]"

text \<open>The loop with \<open>n\<close> checks left, at check \<open>6 - n\<close>.\<close>

fun monitorCanary :: "host \<Rightarrow> string \<Rightarrow> int \<Rightarrow> nat \<Rightarrow> bool prog" where
  "monitorCanary E cid deploymentID 0 = ret True"
| "monitorCanary E cid deploymentID (Suc n) = do {
     stop \<leftarrow> canary_select E (6 - Suc n);
     (if stop then ret False
      else do {
        r \<leftarrow> InspectContainer E cid;
        (case r of
           Inl e \<Rightarrow> do {
             reportProgress deploymentID ''deploying''
               (Fmt ''canary check %d/%d: inspect failed: %v'' (canary_step (6 - Suc n) @ [FE e])) [];
             ret False
           }
         | Inr info \<Rightarrow>
           if \<not> st_Running (cj_State info)
           then do {
             reportProgress deploymentID ''deploying''
               (Fmt ''canary check %d/%d: container stopped'' (canary_step (6 - Suc n))) [];
             ret False
           }
           else (case st_Health (cj_State info) of
              Some (status, _) \<Rightarrow>
                if status = ''unhealthy''
                then do {
                  reportProgress deploymentID ''deploying''
                    (Fmt ''canary check %d/%d: unhealthy'' (canary_step (6 - Suc n))) [];
                  ret False
                }
                else do {
                  reportProgress deploymentID ''deploying''
                    (Fmt ''canary check %d/%d: running (health=%s)'' (canary_step (6 - Suc n) @ [FS status])) [];
                  monitorCanary E cid deploymentID n
                }
            | None \<Rightarrow> do {
                reportProgress deploymentID ''deploying''
                  (Fmt ''canary check %d/%d: running'' (canary_step (6 - Suc n))) [];
                monitorCanary E cid deploymentID n
              }))
      })
   }"

section \<open>The strategy\<close>

text \<open>Everything before the rolling update; \<^const>\<open>None\<close> means that the canary is healthy.\<close>

definition canary_phase :: "host \<Rightarrow> DeploymentSpec \<Rightarrow> DeployContainer \<Rightarrow> goerr option prog" where
  "canary_phase E spec c = (let canaryName = c_Name c @ ''-canary'' in do {
     reportProgress (d_DeploymentID spec) ''deploying''
       (Fmt ''starting canary deployment: %s (image=%s:%s)'' [FS canaryName, FS (c_Image c), FS (c_Tag c)]) [];
     reportProgress (d_DeploymentID spec) ''deploying''
       (Fmt ''pulling canary image: %s:%s'' [FS (c_Image c), FS (c_Tag c)])
       [(''container_name'', JStr canaryName), (''step'', JStr ''pulling'')];
     p \<leftarrow> PullImage E (image_ref c) (c_RegistryAuth c);
     (case p of
        Some e \<Rightarrow> ret (Some (Fmt ''pull canary image: %w'' [FE e]))
      | None \<Rightarrow> do {
          reportProgress (d_DeploymentID spec) ''deploying''
            (Fmt ''canary image pulled, creating container: %s'' [FS canaryName])
            [(''container_name'', JStr canaryName), (''step'', JStr ''creating'')];
          r \<leftarrow> CreateAndStartContainer E
            ((docker_spec spec c canaryName)\<lparr>s_PortMappings := [], s_RestartPolicy := ''no''\<rparr>);
          (case r of
             Inl e \<Rightarrow> ret (Some (Fmt ''create canary: %w'' [FE e]))
           | Inr canaryID \<Rightarrow> do {
               reportProgress (d_DeploymentID spec) ''deploying''
                 (Fmt ''canary running, monitoring for %v'' [FS ''30s''])
                 [(''canary_container_id'', JStr canaryID), (''step'', JStr ''monitoring'')];
               healthy \<leftarrow> monitorCanary E canaryID (d_DeploymentID spec) 6;
               StopContainer E canaryID 10;
               RemoveContainer E canaryID True;
               (if \<not> healthy
                then ret (Some (Fmt ''canary health check failed - aborting deployment'' []))
                else do {
                  reportProgress (d_DeploymentID spec) ''deploying''
                    (Fmt ''canary healthy, proceeding with rolling update'' []) [];
                  ret None
                })
             })
        })
   })"

definition executeCanary :: "host \<Rightarrow> DeploymentSpec \<Rightarrow> goerr option prog" where
  "executeCanary E spec =
     (case d_Containers spec of
        [] \<Rightarrow> ret (Some (Fmt ''no containers in deployment spec'' []))
      | c # _ \<Rightarrow> do {
          r \<leftarrow> canary_phase E spec c;
          (case r of Some e \<Rightarrow> ret (Some e) | None \<Rightarrow> executeRolling E spec)
        })"

section \<open>What the canary phase touches\<close>

text \<open>A monitor that only accepts changes to containers created in the run.\<close>

definition own_nxt :: "string list \<Rightarrow> event \<Rightarrow> string list" where
  "own_nxt s e = (case e of EvCreate _ _ _ _ (Inr d) \<Rightarrow> d # s | _ \<Rightarrow> s)"

definition own_ok :: "string list \<Rightarrow> event \<Rightarrow> bool" where
  "own_ok s e = (case e of
     EvStop c _ _ \<Rightarrow> c \<in> set s | EvKill c _ \<Rightarrow> c \<in> set s | EvRemove c _ _ \<Rightarrow> c \<in> set s
   | EvRename _ _ _ \<Rightarrow> False | EvRestart _ _ _ \<Rightarrow> False | EvPause _ _ \<Rightarrow> False | _ \<Rightarrow> True)"

definition healthy_check :: "event \<Rightarrow> bool" where
  "healthy_check e = (case e of
     EvInspect _ (Inr info) \<Rightarrow> st_Running (cj_State info) \<and>
       (case st_Health (cj_State info) of Some (status, _) \<Rightarrow> status \<noteq> ''unhealthy'' | None \<Rightarrow> True)
   | _ \<Rightarrow> False)"

lemma healthy_check_simps [simp]:
  "\<not> healthy_check (EvSleep k)" "\<not> healthy_check (EvProgress i st m pl)"
  "\<not> healthy_check (EvInspect c (Inl e))" "\<not> healthy_check (EvPull im au q)"
  "\<not> healthy_check (EvPullRead q)" "\<not> healthy_check (EvStop d t q)" "\<not> healthy_check (EvRemove d f q)"
  "healthy_check (EvInspect c (Inr info)) \<longleftrightarrow> st_Running (cj_State info) \<and>
     (case st_Health (cj_State info) of Some (status, _) \<Rightarrow> status \<noteq> ''unhealthy'' | None \<Rightarrow> True)"
  by (simp_all add: healthy_check_def)

definition watch_event :: "string \<Rightarrow> event \<Rightarrow> bool" where
  "watch_event cid e = (case e of EvSleep _ \<Rightarrow> True | EvInspect c _ \<Rightarrow> c = cid | EvProgress _ _ _ _ \<Rightarrow> True | _ \<Rightarrow> False)"

lemma emits_monitorCanary: "emits (watch_event cid) (monitorCanary E cid dep n)"
  by (induction E cid dep n rule: monitorCanary.induct)
    (auto simp: canary_select_def reportProgress_def client_ops watch_event_def
      intro!: emits_intros split: prod.splits)

lemma monitorCanary_checks:
  "does (monitorCanary E cid dep n) (\<lambda>b es. b \<longrightarrow> length (filter healthy_check es) = n)"
proof (induction n)
  case 0
  show ?case by (auto intro!: does_intros)
next
  case (Suc n)
  show ?case
    unfolding monitorCanary.simps canary_select_def client_ops reportProgress_def
    by (auto intro!: does_intros does_mono [OF Suc] split: prod.splits)
qed

text \<open>At the last check the timer is due no earlier than the deadline of the context.\<close>

lemma monitorCanary_late:
  assumes "\<And>h. Jitter E h > 0"
  shows "n \<le> 6 \<Longrightarrow> n > 0 \<Longrightarrow> does (monitorCanary E cid dep n) (\<lambda>b es. \<not> b)"
proof (induction n)
  case (Suc n)
  have nz: "Jitter E h \<noteq> 0" for h using assms [of h] by simp
  show ?case
  proof (cases n)
    case 0
    then show ?thesis
      unfolding monitorCanary.simps canary_select_def
      by (auto intro!: does_intros simp: nz)
  next
    case (Suc m)
    then have IH: "does (monitorCanary E cid dep n) (\<lambda>b es. \<not> b)" using Suc.IH Suc.prems by simp
    show ?thesis
      unfolding monitorCanary.simps canary_select_def client_ops reportProgress_def
      by (auto intro!: does_intros does_mono [OF IH] split: prod.splits)
  qed
qed simp

lemma track_canary_phase: "track own_ok own_nxt s (canary_phase E spec c) (\<lambda>_ _. True)"
proof -
  have prog: "track own_ok own_nxt t (reportProgress i st m pl) (\<lambda>_ u. u = t)" for t i st m pl
    by (auto simp: reportProgress_def own_ok_def own_nxt_def intro!: track_intros)
  have create: "track own_ok own_nxt t (CreateAndStartContainer E ds)
      (\<lambda>r u. \<forall>cid. r = Inr cid \<longrightarrow> cid \<in> set u)" for t ds
  proof -
    have conn: "track own_ok own_nxt t (connect_extra E ds cid) (\<lambda>_ u. u = t)" for t cid
      by (rule track_emits [where P = "\<lambda>e. \<exists>n d al q. e = EvNetConnect n d al q"])
        (auto simp: connect_extra_def own_ok_def own_nxt_def intro!: emits_intros)
    show ?thesis
      unfolding CreateAndStartContainer_def client_ops
      by (auto simp: own_ok_def own_nxt_def intro!: track_intros track_bind [OF conn])
  qed
  have watch: "track own_ok own_nxt t (monitorCanary E cid dep n) (\<lambda>_ u. u = t)" for t cid dep n
    by (rule track_emits [OF emits_monitorCanary])
      (auto simp: watch_event_def own_ok_def own_nxt_def split: event.splits)
  show ?thesis
    unfolding canary_phase_def Let_def client_ops
    by (auto simp: own_ok_def own_nxt_def
        intro!: track_intros track_bind [OF prog] track_bind [OF create] track_bind [OF watch])
qed

lemma canary_phase_checks:
  "does (canary_phase E spec c) (\<lambda>r es. r = None \<longrightarrow> length (filter healthy_check es) \<ge> 6)"
  unfolding canary_phase_def Let_def client_ops
  by (auto intro!: does_intros does_bind_emits [OF extends_calls(1)] does_bind [OF CreateAndStart_started]
      does_bind [OF monitorCanary_checks])

lemma canary_phase_late:
  assumes "\<And>h. Jitter E h > 0"
  shows "does (canary_phase E spec c) (\<lambda>r es. r \<noteq> None)"
  unfolding canary_phase_def Let_def client_ops
  by (auto intro!: does_intros does_bind_emits [OF extends_calls(1)] does_bind [OF CreateAndStart_started]
      does_bind [OF monitorCanary_late [OF assms]])

text \<open>
  C7: the canary gates the update. The canary phase stops, kills, removes or renames no
  container but the one it created, and it lets the rolling update begin only after six
  checks that found a running container that is not unhealthy.
\<close>

theorem canary_gate:
  "accepted own_ok own_nxt [] (events (canary_phase E spec c) h) \<and>
   (result (canary_phase E spec c) h \<noteq> None \<or>
    length (filter healthy_check (events (canary_phase E spec c) h)) \<ge> 6)"
  using track_events [OF track_canary_phase] does_events [OF canary_phase_checks, of E spec c h] by blast

lemma calm_watch:
  "n \<le> 6 \<Longrightarrow> run_state (monitorCanary calm_host cid d n) h = (True, final_hist (monitorCanary calm_host cid d n) h)"
proof (induction n arbitrary: h)
  case (Suc n)
  then have "\<And>h. fst (run_state (monitorCanary calm_host cid d n) h) = True" by simp
  with Suc.prems show ?case
    by (simp add: canary_select_def client_ops reportProgress_def hosts run_simps prod_eq_iff)
qed (simp add: final_hist_def)

theorem canary_gate_witness:
  "result (canary_phase calm_host demo_spec demo_container) [] = None \<and>
   length (filter healthy_check (events (canary_phase calm_host demo_spec demo_container) [])) \<ge> 6"
proof -
  have "result (canary_phase calm_host demo_spec demo_container) [] = None"
    by (simp add: canary_phase_def calm_watch rolling_ops demos demo_names Let_def result_def
        request_def observe_def emit_def calm_simps)
  with canary_gate [of calm_host demo_spec demo_container "[]"] show ?thesis by blast
qed

text \<open>
  C8: the watch cannot end in time. Its context expires after thirty seconds, and the
  sixth timer is due after six times five seconds plus the time that the first five checks
  took; so whenever the checks take any time at all, a canary deployment fails, and the
  containers of the stack are left untouched.
\<close>

theorem canary_never_promotes:
  assumes "\<And>h. Jitter E h > 0"
  shows "result (executeCanary E spec) h \<noteq> None \<and>
    accepted own_ok own_nxt [] (events (executeCanary E spec) h)"
proof (cases "d_Containers spec")
  case Nil
  then show ?thesis by (simp add: executeCanary_def run_simps)
next
  case (Cons c cs)
  have "does (executeCanary E spec) (\<lambda>r es. r \<noteq> None \<and> accepted own_ok own_nxt [] es)"
    unfolding executeCanary_def Cons list.case
    by (rule does_bind [OF does_conj [OF canary_phase_late [OF assms] track_canary_phase [unfolded track_def]]])
      (auto intro!: does_intros)
  then show ?thesis by (rule does_events)
qed

definition slow_host :: host where
  "slow_host = calm_host\<lparr>Jitter := \<lambda>_. 1\<rparr>"

theorem canary_never_promotes_witness:
  "(\<forall>h. Jitter slow_host h > 0) \<and> result (executeCanary slow_host demo_spec) [] \<noteq> None"
proof -
  have j: "\<And>h. Jitter slow_host h > 0" by (simp add: slow_host_def)
  from canary_never_promotes [OF j, of demo_spec "[]"] j show ?thesis by blast
qed

end
