(* ===== verification/Transitions.thy ===== *)
theory Transitions
  imports Prelude
begin

text \<open>
  The interface between a step relation and the facts that hold in all its reachable
  states. Every stateful component of the runner that several goroutines share (container
  locks, database in-flight table, deployment admission, snapshot schedule, send queue)
  is such a system, and provides the two laws of the locale for its invariant.
\<close>

locale guarded_system =
  fixes initial :: "'s \<Rightarrow> bool" and step :: "'s \<Rightarrow> 's \<Rightarrow> bool" and inv :: "'s \<Rightarrow> bool"
  assumes initial_inv: "initial s \<Longrightarrow> inv s"
    and step_inv: "inv s \<Longrightarrow> step s t \<Longrightarrow> inv t"
begin

lemma steps_inv: "step\<^sup>*\<^sup>* s t \<Longrightarrow> inv s \<Longrightarrow> inv t"
  by (induction rule: rtranclp_induct) (auto intro: step_inv)

lemma reachable_inv: "initial s \<Longrightarrow> step\<^sup>*\<^sup>* s t \<Longrightarrow> inv t"
  by (blast intro: initial_inv steps_inv)

lemma reachable_step_inv: "initial s \<Longrightarrow> step\<^sup>*\<^sup>* s t \<Longrightarrow> step t u \<Longrightarrow> inv t \<and> inv u"
  by (blast intro: reachable_inv step_inv)

end

text \<open>
  A system that also has a measure on its work left: every step that makes progress
  decreases it, so no run makes progress forever.
\<close>

locale terminating_system = guarded_system +
  fixes work :: "'a \<Rightarrow> nat"
  assumes step_work: "inv s \<Longrightarrow> step s t \<Longrightarrow> work t < work s"
begin

lemma run_length:
  "inv s \<Longrightarrow> (step ^^ n) s t \<Longrightarrow> n + work t \<le> work s"
proof (induction n arbitrary: t)
  case 0
  then show ?case by simp
next
  case (Suc n)
  then obtain u where u: "(step ^^ n) s u" "step u t" by auto
  have "inv u" using Suc.prems(1) u(1) steps_inv by (metis relpowp_imp_rtranclp)
  then have "work t < work u" using u(2) by (rule step_work)
  moreover have "n + work u \<le> work s" using Suc u(1) by blast
  ultimately show ?case by simp
qed

end

text \<open>
  A system that implements an abstract one: its state is read through an abstraction, and
  every step is a step of the abstract system or changes nothing there.
\<close>

locale refined_system = guarded_system +
  fixes abs :: "'a \<Rightarrow> 'b" and astep :: "'b \<Rightarrow> 'b \<Rightarrow> bool"
  assumes simulates: "inv s \<Longrightarrow> step s t \<Longrightarrow> abs t = abs s \<or> astep (abs s) (abs t)"
begin

lemma refined_run:
  assumes "initial s" "step\<^sup>*\<^sup>* s t"
  shows "astep\<^sup>*\<^sup>* (abs s) (abs t)"
  using assms(2,1)
proof (induction rule: rtranclp_induct)
  case (step t u)
  have "inv t" using step.hyps(1) step.prems by (blast intro: reachable_inv)
  then have "abs u = abs t \<or> astep (abs t) (abs u)" using step.hyps(2) by (rule simulates)
  with step show ?case by (metis rtranclp.rtrancl_into_rtrancl)
qed simp

end

text \<open>
  A loop that polls until it is ready or its deadline has passed, as the drain of the send
  queue and the wait for deployments do: when each round takes at least \<open>tick\<close>, it returns
  after as many rounds as fit before the deadline, and as soon as it is ready.
\<close>

lemma deadline_loop_returns:
  fixes clock :: "nat \<Rightarrow> int" and tick :: int
  assumes loop: "\<And>i. loop i = (if clock i < deadline then (if ready i then Some i else loop (Suc i)) else Some i)"
    and tick: "\<And>i. start \<le> i \<Longrightarrow> clock i + tick \<le> clock (Suc i)"
    and "start \<le> i" "deadline \<le> clock i + tick * int k"
  shows "\<exists>j\<ge>i. j \<le> i + k \<and> loop i = Some j \<and> (ready j \<or> deadline \<le> clock j) \<and> (\<forall>l. i \<le> l \<longrightarrow> l < j \<longrightarrow> \<not> ready l)"
  using assms(3,4)
proof (induction k arbitrary: i)
  case 0
  then show ?case by (simp add: loop [of i])
next
  case (Suc k)
  show ?case
  proof (cases "clock i < deadline \<and> \<not> ready i")
    case True
    have "deadline \<le> clock (Suc i) + tick * int k" using Suc.prems tick [of i] by (simp add: algebra_simps)
    with Suc.IH [of "Suc i"] Suc.prems(1) obtain j where j: "Suc i \<le> j" "j \<le> Suc i + k" "loop (Suc i) = Some j"
      "ready j \<or> deadline \<le> clock j" "\<forall>l. Suc i \<le> l \<longrightarrow> l < j \<longrightarrow> \<not> ready l" by auto
    have "loop i = Some j" using True j(3) by (simp add: loop [of i])
    moreover have "\<forall>l. i \<le> l \<longrightarrow> l < j \<longrightarrow> \<not> ready l" using True j(5) by (metis Suc_leI le_neq_implies_less)
    ultimately show ?thesis using j(1,2,4) by (intro exI [of _ j]) simp
  next
    case False
    then show ?thesis by (intro exI [of _ i]) (auto simp: loop [of i])
  qed
qed

end
