(* ===== verification/Locks.thy ===== *)
theory Locks
  imports Deploy_Spec Transitions
begin

text \<open>
  Per-container operation locks, deploy/locks.go. \<open>LockContainer\<close> and
  \<open>lockSpecContainers\<close> are programs; whether a \<open>TryLock\<close> succeeds is an answer of
  the host, because the other holders are other goroutines. The second part is the table
  that all of them share, as a step relation over any number of operations.
\<close>

section \<open>Taking one lock\<close>

text \<open>An unlock function is the key it releases, or \<^const>\<open>None\<close> for the no-op.\<close>

definition try_lock :: "host \<Rightarrow> string \<Rightarrow> bool prog" where
  "try_lock E key = request (\<lambda>h. LockFree E h key) (EvTryLock key)"

text \<open>The ticker loop: after \<open>k\<close> ticks of 250 ms, up to the wait limit of ten minutes.\<close>

function lock_wait :: "host \<Rightarrow> string \<Rightarrow> nat \<Rightarrow> string option prog" where
  "lock_wait E key k = do {
     emit (EvSleep 250);
     ok \<leftarrow> try_lock E key;
     (if ok then ret (Some key)
      else do {
        j \<leftarrow> observe (Jitter E);
        (if 250 * Suc k + j \<ge> 600000 then ret None else lock_wait E key (Suc k))
      })
   }"
  by pat_completeness auto
termination
  by (relation "measure (\<lambda>(E, key, k). 2400 - k)") auto

declare lock_wait.simps [simp del]

definition LockContainer :: "host \<Rightarrow> string \<Rightarrow> string option prog" where
  "LockContainer E name = (let canonical = CanonicalContainerName name in do {
     ok \<leftarrow> try_lock E canonical;
     (if ok then ret (Some canonical) else lock_wait E canonical 0)
   })"

definition unlock :: "string option \<Rightarrow> unit prog" where
  "unlock u = (case u of Some key \<Rightarrow> emit (EvUnlock key) | None \<Rightarrow> ret ())"

section \<open>Locking a deployment\<close>

definition lock_names :: "DeploymentSpec \<Rightarrow> string list" where
  "lock_names spec =
     sort (remdups (map CanonicalContainerName (concat (map replica_names (d_Containers spec)))))"

fun lock_all :: "host \<Rightarrow> string list \<Rightarrow> string option list prog" where
  "lock_all E [] = ret []"
| "lock_all E (n # ns) = do { u \<leftarrow> LockContainer E n; us \<leftarrow> lock_all E ns; ret (u # us) }"

definition lockSpecContainers :: "host \<Rightarrow> DeploymentSpec \<Rightarrow> string option list prog" where
  "lockSpecContainers E spec = lock_all E (lock_names spec)"

definition unlock_all :: "string option list \<Rightarrow> unit prog" where
  "unlock_all us = forM (rev us) unlock"

section \<open>The wait is bounded\<close>

fun tries :: "event list \<Rightarrow> bool list" where
  "tries [] = []"
| "tries (EvTryLock _ b # es) = b # tries es"
| "tries (_ # es) = tries es"

fun slept :: "event list \<Rightarrow> nat" where
  "slept [] = 0"
| "slept (EvSleep n # es) = n + slept es"
| "slept (_ # es) = slept es"

definition lock_event :: "string \<Rightarrow> event \<Rightarrow> bool" where
  "lock_event key e = (e = EvSleep 250 \<or> (\<exists>b. e = EvTryLock key b))"

definition lock_outcome :: "string \<Rightarrow> string option \<Rightarrow> event list \<Rightarrow> bool" where
  "lock_outcome key u es =
     (list_all (lock_event key) es \<and> tries es \<noteq> [] \<and> list_all Not (butlast (tries es)) \<and>
      (u = (if last (tries es) then Some key else None)))"

lemma lock_wait_outcome:
  "does (lock_wait E key k) (\<lambda>u es. lock_outcome key u es \<and> slept es = 250 * length (tries es))"
proof (induction "2400 - k" arbitrary: k rule: less_induct)
  case less
  show ?case
    by (subst lock_wait.simps, auto simp: try_lock_def lock_outcome_def lock_event_def
        intro!: does_intros does_mono [OF less])
qed

lemma lock_wait_bound:
  "k < 2400 \<Longrightarrow> does (lock_wait E key k) (\<lambda>u es. length (tries es) \<le> 2400 - k)"
proof (induction "2400 - k" arbitrary: k rule: less_induct)
  case less
  have IH: "does (lock_wait E key (Suc k)) (\<lambda>u es. length (tries es) \<le> 2400 - Suc k)"
    if "250 * Suc k + j < 600000" for j
    using less.hyps [of "Suc k"] that by simp
  show ?case
    using less.prems
    by (subst lock_wait.simps, auto simp: try_lock_def not_le
        intro!: does_intros does_mono [OF IH])
qed

lemma LockContainer_does:
  "does (LockContainer E name) (\<lambda>u es. lock_outcome (CanonicalContainerName name) u es \<and>
     length (tries es) \<le> 2401 \<and> slept es \<le> 600000)"
proof -
  note wait = does_conj [OF lock_wait_outcome lock_wait_bound [of 0, simplified]]
  show ?thesis
    unfolding LockContainer_def Let_def try_lock_def
    by (auto simp: lock_outcome_def lock_event_def intro!: does_intros does_mono [OF wait])
qed

section \<open>The shared table\<close>

text \<open>
  Any number of operations, each with the keys it will take, in order. An operation takes
  its keys one after the other, runs, and releases them, the last taken first. \<open>l_giveup\<close> is
  the wait limit: the operation goes on without that lock.
\<close>

datatype phase =
    Locking "string list" "string list"
  | Working "string list"
  | Releasing "string list"
  | Finished

record lock_table =
  procs :: "phase list"
  owner :: "string \<Rightarrow> nat option"

inductive lmove :: "lock_table \<Rightarrow> lock_table \<Rightarrow> bool" where
  l_acquire: "p < length (procs s) \<Longrightarrow> procs s ! p = Locking (n # ns) got \<Longrightarrow> owner s n = None \<Longrightarrow>
     lmove s (s\<lparr>procs := (procs s)[p := Locking ns (n # got)], owner := (owner s)(n \<mapsto> p)\<rparr>)"
| l_enter: "p < length (procs s) \<Longrightarrow> procs s ! p = Locking [] got \<Longrightarrow>
     lmove s (s\<lparr>procs := (procs s)[p := Working got]\<rparr>)"
| l_leave: "p < length (procs s) \<Longrightarrow> procs s ! p = Working got \<Longrightarrow>
     lmove s (s\<lparr>procs := (procs s)[p := Releasing got]\<rparr>)"
| l_release: "p < length (procs s) \<Longrightarrow> procs s ! p = Releasing (n # got) \<Longrightarrow>
     lmove s (s\<lparr>procs := (procs s)[p := Releasing got], owner := (owner s)(n := None)\<rparr>)"
| l_done: "p < length (procs s) \<Longrightarrow> procs s ! p = Releasing [] \<Longrightarrow>
     lmove s (s\<lparr>procs := (procs s)[p := Finished]\<rparr>)"

inductive lstep :: "lock_table \<Rightarrow> lock_table \<Rightarrow> bool" where
  l_move: "lmove s t \<Longrightarrow> lstep s t"
| l_giveup: "p < length (procs s) \<Longrightarrow> procs s ! p = Locking (n # ns) got \<Longrightarrow> owner s n \<noteq> None \<Longrightarrow>
     lstep s (s\<lparr>procs := (procs s)[p := Locking ns got]\<rparr>)"

fun held :: "phase \<Rightarrow> string list" where
  "held (Locking ns got) = got"
| "held (Working got) = got"
| "held (Releasing got) = got"
| "held Finished = []"

fun todo :: "phase \<Rightarrow> string list" where
  "todo (Locking ns got) = ns"
| "todo _ = []"

definition fresh_table :: "lock_table \<Rightarrow> bool" where
  "fresh_table s = ((\<forall>ph\<in>set (procs s). \<exists>ns. ph = Locking ns []) \<and> owner s = (\<lambda>_. None))"

text \<open>The keys an operation still wants are increasing, and greater than those it holds.\<close>

definition sorted_phase :: "phase \<Rightarrow> bool" where
  "sorted_phase ph = (sorted_wrt (<) (todo ph) \<and> (\<forall>x\<in>set (held ph). \<forall>y\<in>set (todo ph). x < y))"

definition ordered :: "lock_table \<Rightarrow> bool" where
  "ordered s = list_all sorted_phase (procs s)"

definition lock_inv :: "lock_table \<Rightarrow> bool" where
  "lock_inv s = (list_all (\<lambda>ph. distinct (held ph)) (procs s) \<and>
     (\<forall>n p. owner s n = Some p \<longleftrightarrow> p < length (procs s) \<and> n \<in> set (held (procs s ! p))))"

fun weight :: "phase \<Rightarrow> nat" where
  "weight (Locking ns got) = 2 * length ns + length got + 3"
| "weight (Working got) = length got + 2"
| "weight (Releasing got) = length got + 1"
| "weight Finished = 0"

definition lock_work :: "lock_table \<Rightarrow> nat" where
  "lock_work s = sum_list (map weight (procs s))"

lemma lock_inv_update:
  assumes "lock_inv s" "p < length (procs s)" "held ph = held (procs s ! p)"
  shows "lock_inv (s\<lparr>procs := (procs s)[p := ph]\<rparr>)"
  using assms by (auto simp: lock_inv_def list_all_length nth_list_update)

lemma lock_inv_distinct: "lock_inv s \<Longrightarrow> p < length (procs s) \<Longrightarrow> distinct (held (procs s ! p))"
  by (simp add: lock_inv_def list_all_length)

lemma lock_inv_owner:
  "lock_inv s \<Longrightarrow> owner s n = Some p \<longleftrightarrow> p < length (procs s) \<and> n \<in> set (held (procs s ! p))"
  by (simp add: lock_inv_def)

lemma lock_inv_release:
  assumes inv: "lock_inv s" and p: "p < length (procs s)" "procs s ! p = Releasing (n # got)"
  shows "lock_inv (s\<lparr>procs := (procs s)[p := Releasing got], owner := (owner s)(n := None)\<rparr>)"
    (is "lock_inv ?t")
proof -
  have ok: "distinct (n # got)" using lock_inv_distinct [OF inv p(1)] p(2) by simp
  have own: "owner s n = Some p" using lock_inv_owner [OF inv, of n p] p by simp
  have uniq: "n \<notin> set (held (procs s ! q))" if "q < length (procs s)" "q \<noteq> p" for q
    using lock_inv_owner [OF inv, of n q] own that by simp
  have "owner ?t m = Some q \<longleftrightarrow> q < length (procs ?t) \<and> m \<in> set (held (procs ?t ! q))" for m q
  proof (cases "q = p")
    case True
    then show ?thesis using lock_inv_owner [OF inv, of m p] ok p by auto
  next
    case False
    then show ?thesis using lock_inv_owner [OF inv, of m q] uniq [of q] p by auto
  qed
  moreover have "list_all (\<lambda>ph. distinct (held ph)) (procs ?t)"
    using ok inv p by (simp add: lock_inv_def list_all_length nth_list_update)
  ultimately show ?thesis by (simp add: lock_inv_def)
qed

lemma lock_inv_acquire:
  assumes inv: "lock_inv s" and p: "p < length (procs s)" "procs s ! p = Locking (n # ns) got"
    "owner s n = None"
  shows "lock_inv (s\<lparr>procs := (procs s)[p := Locking ns (n # got)], owner := (owner s)(n \<mapsto> p)\<rparr>)"
proof -
  have free: "\<And>q. q < length (procs s) \<Longrightarrow> n \<notin> set (held (procs s ! q))"
    using lock_inv_owner [OF inv, of n] p by auto
  then have "n \<notin> set got" using p by force
  with free show ?thesis
    using inv p by (auto simp: lock_inv_def list_all_length nth_list_update)
qed

lemma lmove_inv: "lmove s t \<Longrightarrow> lock_inv s \<Longrightarrow> lock_inv t"
  by (erule lmove.cases) (auto intro: lock_inv_update lock_inv_release lock_inv_acquire)

lemma lstep_inv: "lock_inv s \<Longrightarrow> lstep s t \<Longrightarrow> lock_inv t"
  by (erule lstep.cases) (auto intro: lmove_inv lock_inv_update)

lemma fresh_table_inv:
  assumes "fresh_table s"
  shows "lock_inv s"
proof -
  have "held (procs s ! p) = []" if p: "p < length (procs s)" for p
    using assms nth_mem [OF p] unfolding fresh_table_def by fastforce
  then show ?thesis using assms by (simp add: lock_inv_def list_all_length fresh_table_def)
qed

lemma ordered_update:
  assumes "ordered s" "p < length (procs s)" "sorted_phase (procs s ! p) \<Longrightarrow> sorted_phase ph"
  shows "list_all sorted_phase ((procs s)[p := ph])"
  using assms by (simp add: ordered_def list_all_length nth_list_update)

lemma lstep_ordered: "ordered s \<Longrightarrow> lstep s t \<Longrightarrow> ordered t"
  by (auto elim!: lstep.cases lmove.cases intro!: ordered_update simp: ordered_def [of t] sorted_phase_def)

lemma lock_work_update:
  assumes "p < length (procs s)" "weight ph < weight (procs s ! p)"
  shows "sum_list (map weight ((procs s)[p := ph])) < sum_list (map weight (procs s))"
  using assms elem_le_sum_list [of p "map weight (procs s)"]
  by (simp add: map_update sum_list_update)

lemma lstep_work: "lstep s t \<Longrightarrow> lock_work t < lock_work s"
  by (auto simp: lock_work_def elim!: lstep.cases lmove.cases intro!: lock_work_update)

interpretation lock_system: terminating_system fresh_table lstep lock_inv lock_work
  by unfold_locales (auto intro: fresh_table_inv lstep_inv lstep_work)

interpretation ordered_locks: guarded_system "\<lambda>s. fresh_table s \<and> ordered s" lstep
  "\<lambda>s. lock_inv s \<and> ordered s"
  by unfold_locales (auto intro: fresh_table_inv lstep_inv lstep_ordered)

section \<open>Exclusion and progress\<close>

lemma holders_distinct:
  assumes "lock_inv s" "p < length (procs s)" "q < length (procs s)" "p \<noteq> q"
  shows "set (held (procs s ! p)) \<inter> set (held (procs s ! q)) = {}"
  using assms lock_inv_owner [OF assms(1)] by (auto; metis option.inject)

text \<open>
  When nobody can move, every unfinished operation waits for a key that a holder has, and
  that holder waits for a greater key: impossible for finitely many operations.
\<close>

definition stuck :: "lock_table \<Rightarrow> bool" where
  "stuck s = (\<forall>t. \<not> lmove s t)"

lemma stuck_wants:
  assumes "stuck s" "p < length (procs s)" "procs s ! p \<noteq> Finished"
  obtains n ns got q where "procs s ! p = Locking (n # ns) got" "owner s n = Some q"
proof (cases "procs s ! p")
  case (Locking ks got)
  show ?thesis
  proof (cases ks)
    case Nil
    with Locking have "lmove s (s\<lparr>procs := (procs s)[p := Working got]\<rparr>)"
      by (intro l_enter) (use assms in auto)
    with assms(1) show ?thesis by (simp add: stuck_def)
  next
    case (Cons n ns)
    then show ?thesis
      using that Locking assms(1,2) l_acquire [of p s n ns got] by (auto simp: stuck_def)
  qed
next
  case (Releasing got)
  with assms show ?thesis
    by (cases got) (auto simp: stuck_def dest: l_release l_done)
qed (use assms in \<open>auto simp: stuck_def dest: l_leave\<close>)

lemma no_deadlock:
  assumes inv: "lock_inv s" and ord: "ordered s" and "p < length (procs s)" "procs s ! p \<noteq> Finished"
  shows "\<not> stuck s"
proof
  assume st: "stuck s"
  let ?W = "{n. \<exists>p ns got. p < length (procs s) \<and> procs s ! p = Locking (n # ns) got}"
  have "?W \<subseteq> (\<lambda>ph. hd (todo ph)) ` set (procs s)" by (force simp: image_iff in_set_conv_nth)
  then have fin: "finite ?W" by (rule finite_subset) simp
  obtain n ns got where "procs s ! p = Locking (n # ns) got"
    using stuck_wants [OF st assms(3,4)] by metis
  then have "n \<in> ?W" using assms(3) by blast
  then have "Max ?W \<in> ?W" using fin by (intro Max_in) auto
  then obtain p ns got where p: "p < length (procs s)" "procs s ! p = Locking (Max ?W # ns) got"
    by blast
  obtain q where q: "owner s (Max ?W) = Some q"
    using stuck_wants [OF st p(1)] p(2) by auto
  then have ql: "q < length (procs s)" and qh: "Max ?W \<in> set (held (procs s ! q))"
    using lock_inv_owner [OF inv] by auto
  have "procs s ! q \<noteq> Finished" using qh by auto
  then obtain m ms got' where m: "procs s ! q = Locking (m # ms) got'"
    using stuck_wants [OF st ql] by metis
  then have "Max ?W < m" using ord ql qh by (auto simp: ordered_def list_all_length sorted_phase_def)
  moreover have "m \<le> Max ?W" using fin m ql by (intro Max_ge) auto
  ultimately show False by simp
qed

section \<open>Deployments and container actions\<close>

text \<open>
  The keys a deployment takes: \<open>LockContainer\<close> maps each name of \<open>lock_names\<close> to its
  canonical name again. A container action takes the one key of its container.
\<close>

definition lock_keys :: "DeploymentSpec \<Rightarrow> string list" where
  "lock_keys spec = map CanonicalContainerName (lock_names spec)"

definition table_of :: "DeploymentSpec list \<Rightarrow> string list \<Rightarrow> lock_table" where
  "table_of specs actions =
     \<lparr>procs = map (\<lambda>ns. Locking ns [])
        (map lock_keys specs @ map (\<lambda>n. [CanonicalContainerName n]) actions),
      owner = (\<lambda>_. None)\<rparr>"

definition stable_names :: "DeploymentSpec \<Rightarrow> bool" where
  "stable_names spec = list_all (\<lambda>n. CanonicalContainerName n = n) (lock_names spec)"

lemma lock_names_sorted: "sorted_wrt (<) (lock_names spec)"
  by (simp add: lock_names_def strict_sorted_iff)

lemma lock_keys_stable: "stable_names spec \<Longrightarrow> lock_keys spec = lock_names spec"
  by (simp add: lock_keys_def stable_names_def list_all_iff map_idI)

lemma table_of_fresh: "fresh_table (table_of specs actions)"
  by (auto simp: fresh_table_def table_of_def)

lemma table_of_ordered: "list_all stable_names specs \<Longrightarrow> ordered (table_of specs actions)"
  by (auto simp: ordered_def table_of_def list_all_iff sorted_phase_def lock_keys_stable lock_names_sorted)

lemma lockSpecContainers_keys:
  "does (lock_all E ns) (\<lambda>us es. list_all2 (\<lambda>u n. u = None \<or> u = Some (CanonicalContainerName n)) us ns)"
proof (induction ns)
  case Nil
  show ?case by (auto intro: does_intros)
next
  case (Cons n ns)
  show ?case
    unfolding lock_all.simps
    by (rule does_bind [OF LockContainer_does], rule does_bind [OF Cons])
      (auto intro!: does_intros simp: lock_outcome_def)
qed

text \<open>
  waiting for a container lock is bounded. \<open>LockContainer\<close> polls the canonical name at
  most 2401 times and sleeps at most ten minutes in all; it returns the lock exactly when
  its last try succeeded, having given up at no earlier success, and otherwise returns
  without it.
\<close>

theorem lock_wait_limit:
  "lock_outcome (CanonicalContainerName name) (result (LockContainer E name) h)
     (events (LockContainer E name) h) \<and>
   length (tries (events (LockContainer E name) h)) \<le> 2401 \<and>
   slept (events (LockContainer E name) h) \<le> 600000"
  using does_events [OF LockContainer_does] .


text \<open>
  C11: no deadlock. When the canonical names of the specifications are canonical
  themselves, then in every reachable state with an unfinished operation some operation
  can go on without anyone giving up a wait, and no run takes more steps than the size of
  the work it started with.
\<close>

theorem deployments_never_deadlock:
  assumes "list_all stable_names specs" and "(lstep ^^ k) (table_of specs actions) s"
  shows "k + lock_work s \<le> lock_work (table_of specs actions) \<and>
    ((\<exists>p<length (procs s). procs s ! p \<noteq> Finished) \<longrightarrow> (\<exists>t. lmove s t))"
proof -
  have "lstep\<^sup>*\<^sup>* (table_of specs actions) s" using assms(2) by (rule relpowp_imp_rtranclp)
  then have inv: "lock_inv s \<and> ordered s"
    using ordered_locks.reachable_inv table_of_fresh table_of_ordered [OF assms(1)] by blast
  have "k + lock_work s \<le> lock_work (table_of specs actions)"
    using lock_system.run_length [OF fresh_table_inv [OF table_of_fresh] assms(2)] .
  moreover have "\<exists>t. lmove s t" if "p < length (procs s)" "procs s ! p \<noteq> Finished" for p
    using no_deadlock [of s p] inv that by (auto simp: stuck_def)
  ultimately show ?thesis by blast
qed

text \<open>Two actions on one container: the first takes the lock, the second waits.\<close>

definition demo_taken :: lock_table where
  "demo_taken = (table_of [] [''web'', ''web''])
     \<lparr>procs := [Locking [] [''web''], Locking [''web''] []], owner := [''web'' \<mapsto> 0]\<rparr>"

lemma web_canonical: "CanonicalContainerName ''web'' = ''web''"
  by (simp add: CanonicalContainerName_def strip_generated_def HasPrefix_def HasSuffix_def)

lemma demo_step: "lstep (table_of [] [''web'', ''web'']) demo_taken"
proof -
  let ?s = "table_of [] [''web'', ''web'']"
  have "lmove ?s (?s\<lparr>procs := (procs ?s)[0 := Locking [] [''web'']], owner := (owner ?s)(''web'' \<mapsto> 0)\<rparr>)"
    by (rule l_acquire) (simp_all add: table_of_def web_canonical)
  moreover have "(procs ?s)[0 := Locking [] [''web'']] = [Locking [] [''web''], Locking [''web''] []]"
    "(owner ?s)(''web'' \<mapsto> 0) = [''web'' \<mapsto> 0]"
    by (simp_all add: table_of_def web_canonical)
  ultimately show ?thesis unfolding demo_taken_def by (metis l_move)
qed


theorem deployments_never_deadlock_witness:
  "(lstep ^^ 1) (table_of [] [''web'', ''web'']) demo_taken \<and> (\<exists>t. lmove demo_taken t)"
proof
  show run: "(lstep ^^ 1) (table_of [] [''web'', ''web'']) demo_taken" using demo_step by (simp only: relpowp_1)
  have "\<exists>p<length (procs demo_taken). procs demo_taken ! p \<noteq> Finished"
    by (auto simp: demo_taken_def intro: exI [of _ 0])
  then show "\<exists>t. lmove demo_taken t"
    using deployments_never_deadlock [of "[]" 1 "[''web'', ''web'']" demo_taken] run by simp
qed

text \<open>
  Canonical names are not always stable: a name of two layers loses one layer in
  \<open>lockSpecContainers\<close> and the other in \<open>LockContainer\<close>, so its key can collide with
  another container's and the deployment then waits for itself.
\<close>

lemma canonical_not_idempotent:
  "CanonicalContainerName ''web-ltcabc123-lattice-updating'' = ''web-ltcabc123''"
  "CanonicalContainerName ''web-ltcabc123'' = ''web''"
  by (simp_all add: CanonicalContainerName_def strip_generated_def HasPrefix_def HasSuffix_def
      TrimSuffix_def IsGeneratedSuffixSegment_def SuffixMarker_def suffix_char_def less_eq_char_def)

section \<open>What taking a lock does\<close>

lemma emits_lock_wait:
  assumes "\<And>b. P (EvTryLock key b)" "\<And>n. P (EvSleep n)"
  shows "emits P (lock_wait E key k)"
proof (induction "2400 - k" arbitrary: k rule: less_induct)
  case less
  show ?case
    by (subst lock_wait.simps, auto simp: try_lock_def intro!: emits_intros less assms)
qed

lemma emits_LockContainer:
  assumes "\<And>k b. P (EvTryLock k b)" "\<And>n. P (EvSleep n)"
  shows "emits P (LockContainer E n)"
  by (auto simp: LockContainer_def Let_def try_lock_def intro!: emits_intros emits_lock_wait assms)

lemma emits_locks:
  assumes "\<And>k b. P (EvTryLock k b)" "\<And>n. P (EvSleep n)" "\<And>k. P (EvUnlock k)"
  shows "emits P (lock_all E ns)" "emits P (unlock_all us)"
proof -
  show "emits P (lock_all E ns)" by (induction ns) (auto intro!: emits_intros emits_LockContainer assms)
  show "emits P (unlock_all us)" by (auto simp: unlock_all_def unlock_def intro!: emits_intros assms)
qed

end
