(* ===== verification/Executor.thy ===== *)
theory Executor
  imports Blue_Green Canary Locks
begin

text \<open>
  The deployment executor, deploy/executor.go: the cleanups before a deployment, the
  verification after it, and \<open>Execute\<close>, which locks, dispatches to the strategy and
  reports the life cycle of the deployment.
\<close>

section \<open>Cleanup before a deployment\<close>

definition first_name :: "container \<Rightarrow> string" where
  "first_name c = (case ct_Names c of n # _ \<Rightarrow> TrimPrefix n ''/'' | [] \<Rightarrow> [])"

definition cleanup_one :: "host \<Rightarrow> DeploymentSpec \<Rightarrow> container \<Rightarrow> unit prog" where
  "cleanup_one E spec c =
     (if first_name c = [] then ret ()
      else let d = cleanupDecision (ct_Labels c) (first_name c) (filter (\<lambda>p. p > 0) (ct_Ports c))
                     (d_StackName spec) (spec_names spec) (needed_ports spec) in
        if fst d then do {
          reportProgress (d_DeploymentID spec) ''deploying''
            (Fmt ''removing stale container %s (%s)'' [FS (first_name c), FE (snd d)])
            [(''step'', JStr ''cleanup'')];
          StopAndRemoveContainer E (ct_ID c) 10;
          ret ()
        }
        else ret ())"

definition cleanupStaleContainers :: "host \<Rightarrow> DeploymentSpec \<Rightarrow> unit prog" where
  "cleanupStaleContainers E spec = do {
     r \<leftarrow> ListContainers E '''';
     (case r of Inl e \<Rightarrow> ret () | Inr cs \<Rightarrow> forM cs (cleanup_one E spec))
   }"

definition force_one :: "host \<Rightarrow> DeploymentSpec \<Rightarrow> container \<Rightarrow> unit prog" where
  "force_one E spec c =
     (if lookup_str (ct_Labels c) ''managed-by'' \<noteq> ''lattice'' then ret ()
      else if lookup_str (ct_Labels c) ''lattice-type'' = ''database'' then ret ()
      else if lookup_str (ct_Labels c) ''lattice-stack'' \<noteq> d_StackName spec then ret ()
      else do {
        reportProgress (d_DeploymentID spec) ''deploying''
          (Fmt ''force removing container %s''
            [FS (if first_name c = [] then take 12 (ct_ID c) else first_name c)])
          [(''step'', JStr ''force_cleanup'')];
        StopAndRemoveContainer E (ct_ID c) 10;
        ret ()
      })"

definition forceRemoveAllStackContainers :: "host \<Rightarrow> DeploymentSpec \<Rightarrow> unit prog" where
  "forceRemoveAllStackContainers E spec = do {
     r \<leftarrow> ListContainers E '''';
     (case r of Inl e \<Rightarrow> ret () | Inr cs \<Rightarrow> forM cs (force_one E spec))
   }"

section \<open>Verification after a deployment\<close>

definition expected_names :: "DeploymentSpec \<Rightarrow> string list" where
  "expected_names spec = remdups (concat (map replica_names (d_Containers spec)))"

text \<open>The map from canonical name to state: a later container of the list replaces an earlier one.\<close>

definition running_states :: "container list \<Rightarrow> (string \<times> string) list" where
  "running_states cs = fold (\<lambda>c. AList.update (CanonicalContainerName (first_name c)) (ct_State c)) cs []"

definition verify_id :: "container list \<Rightarrow> string \<Rightarrow> string" where
  "verify_id cs name = fold (\<lambda>c acc. if name \<in> set (map CanonicalContainerName (names_of c)) then ct_ID c else acc) cs []"

definition verify_one :: "host \<Rightarrow> container list \<Rightarrow> string \<Rightarrow> gotext list prog" where
  "verify_one E cs name =
     (case map_of (running_states cs) name of
        None \<Rightarrow> ret [Fmt ''%s: not found (removed or crashed)'' [FS name]]
      | Some state \<Rightarrow>
        if state = ''running'' then
          (if verify_id cs name \<noteq> [] then do {
             r \<leftarrow> InspectContainer E (verify_id cs name);
             (case r of
                Inl e \<Rightarrow> ret []
              | Inr info \<Rightarrow> ret (
                  (if cj_RestartCount info > 0
                   then [Fmt ''%s: restarted %d times since deploy'' [FS name, FD (cj_RestartCount info)]] else []) @
                  (case st_Health (cj_State info) of
                     Some (status, _) \<Rightarrow> if status = ''unhealthy''
                       then [Fmt ''%s: health check reports unhealthy'' [FS name]] else []
                   | None \<Rightarrow> [])))
           }
           else ret [])
        else if state = ''restarting'' then ret [Fmt ''%s: stuck in restarting state'' [FS name]]
        else if state = ''exited'' \<or> state = ''dead''
        then ret [Fmt ''%s: exited (state=%s)'' [FS name, FS state]]
        else ret [])"

definition verify_payload :: "nat \<Rightarrow> nat \<Rightarrow> payload" where
  "verify_payload check n =
     [(''step'', JText (Fmt ''verify-%d'' [FD (int check)])), (''verify_check'', JNum (of_nat check)),
      (''verify_total'', JNum 6), (''container_count'', JNum (of_nat n))]"

text \<open>The checks from number \<open>check\<close> on, with \<open>n\<close> of them left; check 6 decides.\<close>

fun verify_checks :: "host \<Rightarrow> DeploymentSpec \<Rightarrow> nat \<Rightarrow> nat \<Rightarrow> goerr option prog" where
  "verify_checks E spec check 0 = ret None"
| "verify_checks E spec check (Suc n) = do {
     ctx \<leftarrow> observe (CtxErr E);
     (case ctx of
        Some e \<Rightarrow> ret (Some e)
      | None \<Rightarrow> do {
          emit (EvSleep 10000);
          r \<leftarrow> ListContainers E '''';
          (case r of
             Inl e \<Rightarrow> verify_checks E spec (Suc check) n
           | Inr cs \<Rightarrow> do {
               order \<leftarrow> observe (MapOrder E);
               iss \<leftarrow> mapP (shuffle (order ''expected'') (expected_names spec)) (verify_one E cs);
               let issues = concat iss;
               (if issues \<noteq> []
                then do {
                  reportProgress (d_DeploymentID spec) ''validating''
                    (Fmt ''verify check %d/%d: %s'' [FD (int check), FD 6, FL issues])
                    (verify_payload check (length (expected_names spec)));
                  (if check = 6
                   then ret (Some (Fmt ''containers unhealthy after %d checks: %s'' [FD 6, FL issues]))
                   else verify_checks E spec (Suc check) n)
                }
                else do {
                  reportProgress (d_DeploymentID spec) ''validating''
                    (Fmt ''verify check %d/%d: all containers healthy'' [FD (int check), FD 6])
                    (verify_payload check (length (expected_names spec)));
                  verify_checks E spec (Suc check) n
                })
             })
        })
   }"

definition postDeployVerify :: "host \<Rightarrow> DeploymentSpec \<Rightarrow> goerr option prog" where
  "postDeployVerify E spec = do {
     reportProgress (d_DeploymentID spec) ''validating''
       (Fmt ''verifying deployment health (%d checks over %s)'' [FD 6, FS ''1m0s''])
       [(''step'', JStr ''verify-0''), (''verify_check'', JNum 0), (''verify_total'', JNum 6),
        (''container_count'', JNum (of_nat (length (expected_names spec))))];
     verify_checks E spec 1 6
   }"

section \<open>Execute\<close>

definition ensure_networks :: "host \<Rightarrow> DeploymentSpec \<Rightarrow> unit prog" where
  "ensure_networks E spec = forM (d_Networks spec) (\<lambda>net. do {
     let driver = (if n_Driver net = [] then ''bridge'' else n_Driver net);
     reportProgress (d_DeploymentID spec) ''deploying''
       (Fmt ''ensuring network: %s (driver=%s)'' [FS (n_Name net), FS driver]) [(''step'', JStr ''network'')];
     CreateNetwork E (n_Name net) driver;
     ret ()
   })"

definition ensure_volumes :: "host \<Rightarrow> DeploymentSpec \<Rightarrow> unit prog" where
  "ensure_volumes E spec = forM (d_Volumes spec) (\<lambda>vol. do {
     let driver = (if v_Driver vol = [] then ''local'' else v_Driver vol);
     reportProgress (d_DeploymentID spec) ''deploying''
       (Fmt ''ensuring volume: %s (driver=%s)'' [FS (v_Name vol), FS driver]) [(''step'', JStr ''volume'')];
     CreateVolume E (v_Name vol) driver;
     ret ()
   })"

definition strategy_name :: "DeploymentSpec \<Rightarrow> string" where
  "strategy_name spec =
     (if d_Strategy spec \<in> {''rolling'', ''blue-green'', ''canary''} then d_Strategy spec else ''rolling (default)'')"

definition run_strategy :: "host \<Rightarrow> DeploymentSpec \<Rightarrow> goerr option prog" where
  "run_strategy E spec =
     (if d_Strategy spec = ''rolling'' then executeRolling E spec
      else if d_Strategy spec = ''blue-green'' then executeBlueGreen E spec
      else if d_Strategy spec = ''canary'' then executeCanary E spec
      else executeRolling E spec)"

text \<open>The part of \<open>execute\<close> under the container locks; the result is the failed step and its error.\<close>

definition locked_part :: "host \<Rightarrow> DeploymentSpec \<Rightarrow> (string \<times> goerr option) prog" where
  "locked_part E spec = do {
     (if \<not> d_Targeted spec then cleanupStaleContainers E spec else ret ());
     (if d_Force spec then forceRemoveAllStackContainers E spec else ret ());
     err \<leftarrow> run_strategy E spec;
     (case err of
        Some e \<Rightarrow> do {
          reportProgress (d_DeploymentID spec) ''failed''
            (Fmt ''deployment failed during %s: %v'' [FS (strategy_name spec), FE e]) [];
          ret (''strategy'', Some e)
        }
      | None \<Rightarrow> do {
          v \<leftarrow> postDeployVerify E spec;
          (case v of
             Some e \<Rightarrow> do {
               reportProgress (d_DeploymentID spec) ''failed''
                 (Fmt ''post-deploy verification failed: %v'' [FE e]) [];
               ret (''verify'', Some e)
             }
           | None \<Rightarrow> do {
               reportProgress (d_DeploymentID spec) ''deployed''
                 (Fmt ''deployment completed successfully via %s strategy'' [FS (strategy_name spec)]) [];
               ret ('''', None)
             })
        })
   }"

text \<open>\<open>StatfsAvail\<close> is the free space in bytes, absent when the call fails.\<close>

definition execute :: "host \<Rightarrow> DeploymentSpec \<Rightarrow> (string \<times> goerr option) prog" where
  "execute E spec =
     (case Validate spec of
        Some e \<Rightarrow> ret (''validate'', Some (Fmt ''spec validation failed: %w'' [FE e]))
      | None \<Rightarrow> do {
          avail \<leftarrow> observe (StatfsAvail E);
          (if (case avail of Some b \<Rightarrow> b < 1024 * 1024 * 1024 | None \<Rightarrow> False)
           then ret (''preflight'', Some (Fmt ''insufficient disk space: %.1fGB available, need at least 1GB''
                  [FD (int (the avail))]))
           else do {
             reportProgress (d_DeploymentID spec) ''deploying''
               (Fmt ''starting deployment: strategy=%s, containers=%d, networks=%d, volumes=%d''
                 [FS (d_Strategy spec), FD (int (length (d_Containers spec))),
                  FD (int (length (d_Networks spec))), FD (int (length (d_Volumes spec)))]) [];
             ensure_networks E spec;
             ensure_volumes E spec;
             us \<leftarrow> lockSpecContainers E spec;
             r \<leftarrow> locked_part E spec;
             unlock_all us;
             ret r
           })
        })"

definition Execute :: "host \<Rightarrow> DeploymentSpec \<Rightarrow> goerr option prog" where
  "Execute E spec = do {
     emit (EvDeployLog ''deployment.started'' '''');
     r \<leftarrow> execute E spec;
     (case snd r of
        Some e \<Rightarrow> do { emit (EvDeployLog ''deployment.failed'' (fst r)); ret (Some e) }
      | None \<Rightarrow> do { emit (EvDeployLog ''deployment.succeeded'' ''''); ret None })
   }"

section \<open>The life cycle and the locks\<close>

text \<open>Events other than those of locks and of the deployment's life cycle.\<close>

definition inner :: "event \<Rightarrow> bool" where
  "inner e = (case e of EvTryLock _ _ \<Rightarrow> False | EvUnlock _ \<Rightarrow> False | EvDeployLog _ _ \<Rightarrow> False
     | EvSend _ _ \<Rightarrow> False | EvExt _ \<Rightarrow> False | _ \<Rightarrow> True)"

lemma inner_simps [simp]:
  "inner (EvCreate n c hc nc i)" "inner (EvList n l)" "inner (EvProgress k st m pl)"
  "inner (EvStop d t q)" "inner (EvKill d q)" "inner (EvStart d q)" "inner (EvRename d n q)"
  "inner (EvRemove d f q)" "inner (EvSleep z)" "inner (EvNetConnect n d al q)" "inner (EvPull n au q)"
  "inner (EvPullRead q)" "inner (EvInspect d ci)" "inner (EvNetCreate n dr q)" "inner (EvVolCreate n dr q)"
  "inner (EvPanic x)"
  by (simp_all add: inner_def)

lemma inner_calls [emits_intros]:
  "emits inner (reportProgress i st m pl)" "emits inner (PullImage E im au)"
  "emits inner (StopAndRemoveContainer E c k)" "emits inner (CreateAndStartContainer E ds)"
  "emits inner (findAllMatchingContainers E n)" "emits inner (GenerateSuffix E)"
  "emits inner (stop_olds E olds)" "emits inner (FindContainerByName E n)"
proof -
  have rem: "emits inner (remove_attempts E c n)" for n
    by (rule emits_mono [OF emits_remove_attempts]) auto
  show "emits inner (StopAndRemoveContainer E c k)"
    by (auto simp: StopAndRemoveContainer_def client_ops intro!: emits_intros rem)
qed (auto simp: reportProgress_def CreateAndStartContainer_def connect_extra_def client_ops
      findAllMatchingContainers_def GenerateSuffix_def stop_olds_def intro!: emits_intros)

lemma inner_rollback [emits_intros]: "emits inner (rollbackContainers E spec snaps upd)"
  by (auto simp: rollbackContainers_def rollback_one_def remove_matching_def Let_def client_ops
      intro!: emits_intros)

lemma inner_rolling [emits_intros]: "emits inner (executeRolling E spec)"
proof -
  have snaps: "emits inner (take_snapshots E spec)"
    by (auto simp: take_snapshots_def snapshot_one_def FindCanonicalContainer_def Let_def client_ops
        intro!: emits_intros split: list.splits)
  have new: "emits inner (create_new E spec i name ds olds upd idx)" for i name ds olds upd idx
    by (auto simp: create_new_def probe_def client_ops intro!: emits_intros)
  have one: "emits inner (roll_replica E spec sn i c r acc)" for sn i c r acc
    by (auto simp: roll_replica_def Let_def client_ops intro!: emits_intros new split: prod.splits)
  show ?thesis
    by (auto simp: executeRolling_def roll_container_def Let_def intro!: emits_intros snaps one)
qed

lemma inner_cleanupGreen [emits_intros]: "emits inner (cleanupGreen E g)"
  by (auto simp: cleanupGreen_def client_ops intro!: emits_intros)

lemma inner_green_wait [emits_intros]: "emits inner (green_wait E cid k)"
proof (induction "15 - k" arbitrary: k rule: less_induct)
  case less
  show ?case
    by (subst green_wait.simps, auto simp: client_ops intro!: emits_intros less)
qed

lemma inner_bluegreen [emits_intros]: "emits inner (executeBlueGreen E spec)"
proof -
  have green: "emits inner (green_container E spec ic g)" for ic g
    by (auto simp: green_container_def start_green_def Let_def intro!: emits_intros)
  have check: "emits inner (check_green E spec g nc)" for g nc
    by (auto simp: check_green_def Let_def client_ops intro!: emits_intros split: prod.splits)
  have swap: "emits inner (swap_container E spec g c bs)" for g c bs
    by (auto simp: swap_container_def swap_replica_def retire_blue_def Let_def client_ops
        intro!: emits_intros)
  show ?thesis
    by (auto simp: executeBlueGreen_def swap_all_def restore_blue_def client_ops
        intro!: emits_intros green check swap split: prod.splits)
qed

lemma inner_canary [emits_intros]: "emits inner (executeCanary E spec)"
proof -
  have watch: "emits inner (monitorCanary E cid dep n)" for cid dep n
  proof (rule emits_mono [OF emits_monitorCanary])
    fix e
    assume "watch_event cid e"
    then show "inner e" by (cases e) (simp_all add: watch_event_def)
  qed
  show ?thesis
    by (auto simp: executeCanary_def canary_phase_def Let_def client_ops
        intro!: emits_intros watch split: list.splits)
qed

lemma inner_verify [emits_intros]: "emits inner (verify_checks E spec k n)"
proof (induction n arbitrary: k)
  case 0
  show ?case by (auto intro!: emits_intros)
next
  case (Suc n)
  have "emits inner (verify_one E cs name)" for cs name
    unfolding verify_one_def client_ops by (intro emits_intros) simp
  then show ?case using Suc by (auto simp: client_ops Let_def intro!: emits_intros)
qed

lemma inner_locked_part: "emits inner (locked_part E spec)"
  by (auto simp: locked_part_def cleanupStaleContainers_def cleanup_one_def run_strategy_def
      forceRemoveAllStackContainers_def force_one_def postDeployVerify_def Let_def client_ops
      intro!: emits_intros)

lemma inner_ensure: "emits inner (ensure_networks E spec)" "emits inner (ensure_volumes E spec)"
  by (auto simp: ensure_networks_def ensure_volumes_def Let_def client_ops intro!: emits_intros)

text \<open>
  The monitor of the lock discipline: the keys held (the last taken first), whether a
  container has been changed, and whether a lock has been released. Locks are taken before
  the first change, released in the reverse order, and nothing is changed after a release.
\<close>

record lockmon =
  lk_held :: "string list"
  lk_changed :: bool
  lk_released :: bool

definition lk_init :: lockmon where
  "lk_init = \<lparr>lk_held = [], lk_changed = False, lk_released = False\<rparr>"

definition changes_container :: "event \<Rightarrow> bool" where
  "changes_container e = (case e of
     EvCreate _ _ _ _ _ \<Rightarrow> True | EvStart _ _ \<Rightarrow> True | EvStop _ _ _ \<Rightarrow> True | EvKill _ _ \<Rightarrow> True
   | EvRemove _ _ _ \<Rightarrow> True | EvRename _ _ _ \<Rightarrow> True | _ \<Rightarrow> False)"

definition lk_nxt :: "lockmon \<Rightarrow> event \<Rightarrow> lockmon" where
  "lk_nxt s e = (case e of
     EvTryLock k b \<Rightarrow> if b then s\<lparr>lk_held := k # lk_held s\<rparr> else s
   | EvUnlock k \<Rightarrow> s\<lparr>lk_held := tl (lk_held s), lk_released := True\<rparr>
   | _ \<Rightarrow> if changes_container e then s\<lparr>lk_changed := True\<rparr> else s)"

definition lk_ok :: "lockmon \<Rightarrow> event \<Rightarrow> bool" where
  "lk_ok s e = (case e of
     EvTryLock k b \<Rightarrow> \<not> lk_changed s \<and> \<not> lk_released s
   | EvUnlock k \<Rightarrow> lk_held s \<noteq> [] \<and> hd (lk_held s) = k
   | _ \<Rightarrow> changes_container e \<longrightarrow> \<not> lk_released s)"

lemma lk_inner:
  assumes "inner e" "\<not> lk_released s"
  shows "lk_ok s e" "lk_held (lk_nxt s e) = lk_held s" "\<not> lk_released (lk_nxt s e)"
    "\<not> changes_container e \<Longrightarrow> lk_nxt s e = s"
  using assms by (cases e; simp add: lk_ok_def lk_nxt_def inner_def)+

lemma track_lock_wait:
  "\<not> lk_changed s \<Longrightarrow> \<not> lk_released s \<Longrightarrow>
   track lk_ok lk_nxt s (lock_wait E key k)
     (\<lambda>u t. t = s\<lparr>lk_held := (case u of Some n \<Rightarrow> n # lk_held s | None \<Rightarrow> lk_held s)\<rparr>)"
proof (induction "2400 - k" arbitrary: k rule: less_induct)
  case less
  have IH: "track lk_ok lk_nxt s (lock_wait E key (Suc k))
      (\<lambda>u t. t = s\<lparr>lk_held := (case u of Some n \<Rightarrow> n # lk_held s | None \<Rightarrow> lk_held s)\<rparr>)"
    if "250 * Suc k + j < 600000" for j
    using less that by simp
  show ?case
    using less.prems
    by (subst lock_wait.simps, auto simp: try_lock_def lk_ok_def lk_nxt_def changes_container_def not_le
        intro!: track_intros IH)
qed

lemma track_LockContainer:
  "\<not> lk_changed s \<Longrightarrow> \<not> lk_released s \<Longrightarrow>
   track lk_ok lk_nxt s (LockContainer E n)
     (\<lambda>u t. t = s\<lparr>lk_held := (case u of Some n \<Rightarrow> n # lk_held s | None \<Rightarrow> lk_held s)\<rparr>)"
  unfolding LockContainer_def Let_def try_lock_def
  by (auto simp: lk_ok_def lk_nxt_def intro!: track_intros track_lock_wait)

definition keys_of :: "string option list \<Rightarrow> string list" where
  "keys_of us = rev (List.map_filter id us)"

lemma track_lock_all:
  "\<not> lk_changed s \<Longrightarrow> \<not> lk_released s \<Longrightarrow>
   track lk_ok lk_nxt s (lock_all E ns) (\<lambda>us t. t = s\<lparr>lk_held := keys_of us @ lk_held s\<rparr>)"
proof (induction ns arbitrary: s)
  case Nil
  show ?case by (auto simp: keys_of_def map_filter_simps intro!: track_intros)
next
  case (Cons n ns)
  have rest: "track lk_ok lk_nxt t (lock_all E ns) (\<lambda>us u. u = t\<lparr>lk_held := keys_of us @ lk_held t\<rparr>)"
    if "t = s\<lparr>lk_held := x\<rparr>" for t x
    using Cons.IH [of t] Cons.prems that by simp
  show ?case unfolding lock_all.simps
    by (rule track_bind [OF track_LockContainer [OF Cons.prems]], rule track_bind [OF rest])
      (auto simp: keys_of_def map_filter_simps intro!: track_intros split: option.splits)
qed

lemma track_unlocks:
  "lk_held s = keys_of (rev us) @ rest \<Longrightarrow>
   track lk_ok lk_nxt s (forM us unlock) (\<lambda>_ t. lk_held t = rest)"
proof (induction us arbitrary: s)
  case Nil
  then show ?case by (auto simp: keys_of_def map_filter_simps intro!: track_intros)
next
  case (Cons u us)
  show ?case
  proof (cases u)
    case None
    with Cons show ?thesis
      by (auto simp: unlock_def keys_of_def List.map_filter_def intro!: track_intros)
  next
    case (Some k)
    with Cons show ?thesis
      by (auto simp: unlock_def keys_of_def List.map_filter_def lk_ok_def lk_nxt_def intro!: track_intros)
  qed
qed

lemma track_execute: "track lk_ok lk_nxt lk_init (execute E spec) (\<lambda>_ t. lk_held t = [])"
proof -
  have quiet: "track lk_ok lk_nxt s m (\<lambda>_ t. t = s)"
    if "emits (\<lambda>e. inner e \<and> \<not> changes_container e) m" "\<not> lk_released s" for s and m :: "'b prog"
    by (rule track_emits [OF that(1)]) (use that(2) in \<open>auto simp: lk_inner\<close>)
  have prog: "emits (\<lambda>e. inner e \<and> \<not> changes_container e) (reportProgress i st m pl)" for i st m pl
    by (auto simp: reportProgress_def changes_container_def intro!: emits_intros)
  have ensure: "emits (\<lambda>e. inner e \<and> \<not> changes_container e) (ensure_networks E spec)"
    "emits (\<lambda>e. inner e \<and> \<not> changes_container e) (ensure_volumes E spec)"
    by (auto simp: ensure_networks_def ensure_volumes_def Let_def client_ops reportProgress_def
        changes_container_def intro!: emits_intros)
  have work: "track lk_ok lk_nxt s (locked_part E spec) (\<lambda>_ t. lk_held t = lk_held s \<and> \<not> lk_released t)"
    if "\<not> lk_released s" for s
    by (rule track_emits [OF inner_locked_part]) (use that in \<open>auto simp: lk_inner\<close>)
  show ?thesis
    unfolding execute_def lockSpecContainers_def unlock_all_def
    by (auto intro!: track_intros track_bind [OF quiet [OF prog]] track_bind [OF quiet [OF ensure(1)]]
        track_bind [OF quiet [OF ensure(2)]] track_bind [OF track_lock_all] track_bind [OF work]
        track_bind [OF track_unlocks] simp: lk_init_def)
qed

section \<open>What the cleanups touch\<close>

text \<open>
  The monitor of the cleanups: the ids of the listed containers that are managed by Lattice
  and are not databases; only those may be stopped, killed or removed.
\<close>

definition sweep_nxt :: "string list \<Rightarrow> event \<Rightarrow> string list" where
  "sweep_nxt s e = (case e of EvList _ (Inr cs) \<Rightarrow> map ct_ID (filter stack_container cs) | _ \<Rightarrow> s)"

definition sweep_ok :: "string list \<Rightarrow> event \<Rightarrow> bool" where
  "sweep_ok s e = (case e of
     EvStop c _ _ \<Rightarrow> c \<in> set s | EvKill c _ \<Rightarrow> c \<in> set s | EvRemove c _ _ \<Rightarrow> c \<in> set s
   | EvRename _ _ _ \<Rightarrow> False | EvCreate _ _ _ _ _ \<Rightarrow> False | EvStart _ _ \<Rightarrow> False | _ \<Rightarrow> True)"

lemma track_sweep_remove:
  assumes "c \<in> set s"
  shows "track sweep_ok sweep_nxt s (StopAndRemoveContainer E c k) (\<lambda>_ t. t = s)"
proof -
  have "emits (\<lambda>e. (\<exists>t q. e = EvStop c t q) \<or> (\<exists>q. e = EvKill c q) \<or> (\<exists>z. e = EvSleep z) \<or>
      (\<exists>ci. e = EvInspect c ci) \<or> (\<exists>q. e = EvRemove c True q)) (StopAndRemoveContainer E c k)"
    unfolding StopAndRemoveContainer_def client_ops
    by (auto intro!: emits_intros emits_mono [OF emits_remove_attempts])
  then show ?thesis
    by (rule track_emits) (use assms in \<open>auto simp: sweep_ok_def sweep_nxt_def\<close>)
qed

lemma track_sweep_report: "track sweep_ok sweep_nxt s (reportProgress i st m pl) (\<lambda>_ t. t = s)"
  by (auto simp: reportProgress_def sweep_ok_def sweep_nxt_def intro!: track_intros)

lemma cleanupDecision_stack:
  "fst (cleanupDecision (ct_Labels c) n ps st names needed) \<Longrightarrow> stack_container c"
  by (auto simp: cleanupDecision_def stack_container_def split: if_splits)

lemma track_cleanup:
  "track sweep_ok sweep_nxt s (cleanupStaleContainers E spec) (\<lambda>_ _. True)"
  "track sweep_ok sweep_nxt s (forceRemoveAllStackContainers E spec) (\<lambda>_ _. True)"
proof -
  have stale: "track sweep_ok sweep_nxt t (forM cs (cleanup_one E spec)) (\<lambda>_ u. u = t)"
    if "t = map ct_ID (filter stack_container cs)" for cs t
    by (rule track_forM) (use that in \<open>auto simp: cleanup_one_def Let_def cleanupDecision_stack
        intro!: track_intros track_bind [OF track_sweep_report] track_bind [OF track_sweep_remove]\<close>)
  have force: "track sweep_ok sweep_nxt t (forM cs (force_one E spec)) (\<lambda>_ u. u = t)"
    if "t = map ct_ID (filter stack_container cs)" for cs t
    by (rule track_forM) (use that in \<open>auto simp: force_one_def stack_container_def
        intro!: track_intros track_bind [OF track_sweep_report] track_bind [OF track_sweep_remove]\<close>)
  show "track sweep_ok sweep_nxt s (cleanupStaleContainers E spec) (\<lambda>_ _. True)"
    unfolding cleanupStaleContainers_def client_ops
    by (auto simp: sweep_ok_def sweep_nxt_def intro!: track_intros track_mono [OF stale])
  show "track sweep_ok sweep_nxt s (forceRemoveAllStackContainers E spec) (\<lambda>_ _. True)"
    unfolding forceRemoveAllStackContainers_def client_ops
    by (auto simp: sweep_ok_def sweep_nxt_def intro!: track_intros track_mono [OF force])
qed

section \<open>Properties\<close>

text \<open>
  C12: the cleanups before a deployment, stale and forced, only ever stop, kill or remove
  containers that the daemon listed as managed by Lattice and not as a database, whatever
  the deployment specifies (even an empty stack name) and whatever fails.
\<close>

theorem cleanup_spares_foreign:
  "accepted sweep_ok sweep_nxt [] (events (cleanupStaleContainers E spec) h) \<and>
   accepted sweep_ok sweep_nxt [] (events (forceRemoveAllStackContainers E spec) h)"
  using track_events [OF track_cleanup(1)] track_events [OF track_cleanup(2)] by blast


definition replica_ct :: container where
  "replica_ct = \<lparr>ct_ID = ''r1'', ct_Names = [''/web-1''],
     ct_Labels = [(''managed-by'', ''lattice''), (''lattice-stack'', ''shop'')], ct_Ports = [],
     ct_State = ''running'', ct_Status = [], ct_Networks = [], ct_Image = ''img'', ct_Created = 0\<rparr>"

definition replica_spec :: DeploymentSpec where
  "replica_spec = demo_spec\<lparr>d_Containers := [demo_container\<lparr>c_Replicas := 2\<rparr>]\<rparr>"



section \<open>The life cycle of a deployment\<close>

definition not_log :: "event \<Rightarrow> bool" where
  "not_log e = (case e of EvDeployLog _ _ \<Rightarrow> False | _ \<Rightarrow> True)"

lemma not_log_simps [simp]:
  "not_log (EvTryLock k b)" "not_log (EvUnlock k)" "not_log (EvSleep n)" "not_log (EvProgress i st m pl)"
  "\<not> not_log (EvDeployLog ev step)"
  by (simp_all add: not_log_def)

lemma inner_not_log: "inner e \<Longrightarrow> not_log e"
  by (cases e) (simp_all add: inner_def not_log_def)

lemma emits_execute:
  assumes "\<And>e. inner e \<Longrightarrow> P e" "\<And>k b. P (EvTryLock k b)" "\<And>k. P (EvUnlock k)"
  shows "emits P (execute E spec)"
proof -
  have sleep: "P (EvSleep n)" for n by (rule assms(1)) simp
  show ?thesis unfolding execute_def lockSpecContainers_def
    by (auto intro!: emits_intros emits_mono [OF inner_calls(1) assms(1)]
      emits_mono [OF inner_locked_part assms(1)] emits_mono [OF inner_ensure(1) assms(1)]
      emits_mono [OF inner_ensure(2) assms(1)] emits_locks assms(2,3) sleep)
qed

lemma not_log_filter: "list_all not_log es \<Longrightarrow> filter (\<lambda>e. \<not> not_log e) es = []"
  by (simp add: list_all_iff filter_empty_conv)

lemma Execute_log:
  "does (Execute E spec) (\<lambda>r es. \<exists>step. filter (\<lambda>e. \<not> not_log e) es =
     [EvDeployLog ''deployment.started'' [],
      (case r of None \<Rightarrow> EvDeployLog ''deployment.succeeded'' []
       | Some _ \<Rightarrow> EvDeployLog ''deployment.failed'' step)])"
  unfolding Execute_def
  by (auto simp: not_log_filter
      intro!: does_intros does_bind_emits [OF emits_execute [of not_log, OF inner_not_log not_log_simps(1,2)]])

text \<open>
  each deployment has exactly one life cycle. A run of \<open>Execute\<close> logs the event
  \<open>deployment.started\<close> once and then exactly one outcome: \<open>deployment.succeeded\<close> when it
  returns no error, \<open>deployment.failed\<close> when it returns one.
\<close>

theorem deployment_lifecycle:
  "\<exists>step. filter (\<lambda>e. \<not> not_log e) (events (Execute E spec) h) =
     [EvDeployLog ''deployment.started'' [],
      (case result (Execute E spec) h of None \<Rightarrow> EvDeployLog ''deployment.succeeded'' []
       | Some _ \<Rightarrow> EvDeployLog ''deployment.failed'' step)]"
  by (rule does_events [OF Execute_log])

section \<open>What a verification has seen\<close>

definition verified_last :: "event list \<Rightarrow> bool" where
  "verified_last es = (es \<noteq> [] \<and> (case last es of
     EvProgress _ _ m _ \<Rightarrow> m = Fmt ''verify check %d/%d: all containers healthy'' [FD 6, FD 6]
   | EvList _ (Inl _) \<Rightarrow> True
   | _ \<Rightarrow> False))"

lemma verified_last_append: "verified_last es \<Longrightarrow> verified_last (xs @ es)"
  by (simp add: verified_last_def)

lemma verified_last_Cons: "verified_last es \<Longrightarrow> verified_last (e # es)"
  by (simp add: verified_last_def)

lemma extends_verify_one: "extends (mapP ns (verify_one E cs))"
  unfolding verify_one_def client_ops by (intro emits_intros) simp

lemma verify_checks_last:
  "k + n = 7 \<Longrightarrow> n > 0 \<Longrightarrow> does (verify_checks E spec k n) (\<lambda>r es. r = None \<longrightarrow> verified_last es)"
proof (induction n arbitrary: k)
  case (Suc n)
  show ?case
  proof (cases n)
    case 0
    with Suc.prems show ?thesis
      by (auto simp: client_ops Let_def reportProgress_def verified_last_def
          intro!: does_intros does_bind_emits [OF extends_verify_one])
  next
    case (Suc m)
    then have IH: "does (verify_checks E spec (Suc k) n) (\<lambda>r es. r = None \<longrightarrow> verified_last es)"
      using Suc.IH [of "Suc k"] Suc.prems by simp
    have "k \<noteq> 6" using Suc Suc.prems by simp
    then show ?thesis
      unfolding verify_checks.simps client_ops Let_def reportProgress_def
      by (auto intro!: does_intros does_bind_emits [OF extends_verify_one] does_mono [OF IH]
          verified_last_Cons verified_last_append)
  qed
qed simp

text \<open>
  The verification decides at its last check. When \<open>postDeployVerify\<close> returns no error,
  the last thing it did was to report that all containers are healthy at check six of six,
  or a listing that failed.
\<close>

theorem verify_decides_last:
  assumes "result (postDeployVerify E spec) h = None"
  shows "verified_last (events (postDeployVerify E spec) h)"
proof -
  have "does (postDeployVerify E spec) (\<lambda>r es. r = None \<longrightarrow> verified_last es)"
    unfolding postDeployVerify_def reportProgress_def
    by (auto intro!: does_intros does_mono [OF verify_checks_last] verified_last_Cons)
  from does_events [OF this, of h] assms show ?thesis by blast
qed

lemma verify_blind:
  assumes "\<And>h. isl (ContainerList E h [])" and "\<And>h. CtxErr E h = None"
  shows "result (postDeployVerify E spec) h = None"
proof -
  have checks: "does (verify_checks E spec k n) (\<lambda>r _. r = None)" for k n
  proof (induction n arbitrary: k)
    case (Suc n)
    have "ContainerList E h [] \<noteq> Inr cs" for h cs using assms(1) [of h] by auto
    then show ?case
      unfolding verify_checks.simps client_ops
      by (auto simp: assms(2) intro!: does_intros Suc)
  qed (auto intro: does_intros)
  have "does (postDeployVerify E spec) (\<lambda>r _. r = None)"
    unfolding postDeployVerify_def reportProgress_def
    by (auto intro!: does_intros checks)
  then show ?thesis by (rule does_events)
qed

definition mute_host :: host where
  "mute_host = calm_host\<lparr>ContainerList := \<lambda>_ _. Inl (Fmt ''down'' [])\<rparr>"

theorem verify_decides_last_witness:
  "verified_last (events (postDeployVerify mute_host demo_spec) [])"
  by (rule verify_decides_last, rule verify_blind) (simp_all add: mute_host_def calm_host_def)

text \<open>
  a daemon that cannot be asked passes the verification. If every listing fails and the
  deployment is not cancelled, \<open>postDeployVerify\<close> returns no error although it has not
  looked at a single container.
\<close>

theorem verify_passes_blind:
  assumes "\<And>h. isl (ContainerList E h [])" and "\<And>h. CtxErr E h = None"
  shows "result (postDeployVerify E spec) h = None"
  using assms by (rule verify_blind)

theorem verify_passes_blind_witness:
  "result (postDeployVerify mute_host demo_spec) [] = None"
  by (rule verify_passes_blind) (simp_all add: mute_host_def calm_host_def)

end
