(* ===== verification/Replies.thy ===== *)
theory Replies
  imports Names
begin

text \<open>
  Commands and replies: the envelope of a command and the context its handler runs under
  (command_context.go), the readers of a decoded payload and the payload of a database reply
  (main.go), and the sends, each recorded as an event with the message that is queued.
\<close>

section \<open>Envelopes and payloads\<close>

record Envelope =
  e_Type :: string
  e_CommandID :: string
  e_RequestID :: string
  e_TraceID :: string
  e_Payload :: payload

text \<open>\<open>v, _ := p[k].(string)\<close> and its like: the zero value when the field is absent or of another type.\<close>

definition pstr :: "payload \<Rightarrow> string \<Rightarrow> string" where
  "pstr p k = (case map_of p k of Some (JStr s) \<Rightarrow> s | _ \<Rightarrow> [])"

definition pnum :: "payload \<Rightarrow> string \<Rightarrow> rat" where
  "pnum p k = (case map_of p k of Some (JNum r) \<Rightarrow> r | _ \<Rightarrow> 0)"

definition pbool :: "payload \<Rightarrow> string \<Rightarrow> bool" where
  "pbool p k = (case map_of p k of Some (JBool b) \<Rightarrow> b | _ \<Rightarrow> False)"

definition pobj :: "payload \<Rightarrow> string \<Rightarrow> payload option" where
  "pobj p k = (case map_of p k of Some (JObj m) \<Rightarrow> Some m | _ \<Rightarrow> None)"

definition payloadInt :: "payload \<Rightarrow> string \<Rightarrow> int" where
  "payloadInt p k = (case map_of p k of
     Some (JNum r) \<Rightarrow> go_trunc r
   | Some (JStr s) \<Rightarrow> (case Atoi s of Some n \<Rightarrow> n | None \<Rightarrow> 0)
   | _ \<Rightarrow> 0)"

fun payloadString :: "payload \<Rightarrow> string list \<Rightarrow> string" where
  "payloadString p [] = []"
| "payloadString p (k # ks) =
     (case map_of p k of
        Some (JStr v) \<Rightarrow> if v \<noteq> [] then v else payloadString p ks
      | Some (JNum r) \<Rightarrow> Itoa (go_trunc r)
      | _ \<Rightarrow> payloadString p ks)"

definition payloadNested :: "payload \<Rightarrow> string \<Rightarrow> string \<Rightarrow> json option" where
  "payloadNested p parent child =
     (case map_of p parent of Some (JObj m) \<Rightarrow> map_of m child | _ \<Rightarrow> None)"

definition backupDestinationFrom :: "payload \<Rightarrow> string \<times> payload option" where
  "backupDestinationFrom p =
     (let t = payloadString p [''dest_type'']; c = pobj p ''dest_config''
      in (if t = [] then case payloadNested p ''backup_destination'' ''type'' of Some (JStr s) \<Rightarrow> s | _ \<Rightarrow> []
          else t,
          case c of Some m \<Rightarrow> Some m
          | None \<Rightarrow> case payloadNested p ''backup_destination'' ''config'' of Some (JObj m) \<Rightarrow> Some m | _ \<Rightarrow> None))"

section \<open>Job ids\<close>

definition zero_pad :: "nat \<Rightarrow> string \<Rightarrow> string" where
  "zero_pad w s = replicate (w - length s) (CHR ''0'') @ s"

definition unitJobID :: "string \<Rightarrow> string \<Rightarrow> string" where
  "unitJobID kind raw =
     (case Atoi raw of
        None \<Rightarrow> []
      | Some n \<Rightarrow>
        if n \<le> 0 then []
        else let i = kind @ zero_pad 14 (Itoa n) in if length i \<noteq> 16 then [] else i)"

text \<open>
  \<open>valid\<close> stands for \<open>monitor.ValidCorrelationID\<close> and \<open>fresh\<close> for the id that
  \<open>monitor.NewJobID\<close> mints; both are of the go-monitor package.
\<close>

fun firstCorrelationID :: "(string \<Rightarrow> bool) \<Rightarrow> string list \<Rightarrow> string" where
  "firstCorrelationID valid [] = []"
| "firstCorrelationID valid (i # is) = (if i \<noteq> [] \<and> valid i then i else firstCorrelationID valid is)"

definition commandJobID :: "(string \<Rightarrow> bool) \<Rightarrow> string \<Rightarrow> Envelope \<Rightarrow> string" where
  "commandJobID valid fresh env =
     (let p = e_Payload env; t = e_Type env;
          unit = (if t \<in> {''deploy'', ''deployment_ping''} then unitJobID ''de'' (payloadString p [''deployment_id''])
                  else if t \<in> {''db_snapshot'', ''db_mirror_snapshot'', ''db_delete_snapshot_file''}
                  then unitJobID ''ba'' (payloadString p [''snapshot_id''])
                  else if t = ''db_restore'' then unitJobID ''bd'' (payloadString p [''restore_id'', ''snapshot_id''])
                  else []);
          db = (if unit = [] then unitJobID ''db'' (payloadString p [''database_instance_id'', ''instance_id''])
                else unit);
          cmd = (if db = [] then firstCorrelationID valid [e_CommandID env] else db)
      in if cmd = [] then fresh else cmd)"

section \<open>Contexts\<close>

text \<open>The values a context carries: the mark of a command with its id, and the correlation ids.\<close>

record cmdctx =
  cx_Command :: "string option"
  cx_RequestID :: string
  cx_TraceID :: string
  cx_JobID :: string

definition commandContext :: "(string \<Rightarrow> bool) \<Rightarrow> string \<Rightarrow> cmdctx \<Rightarrow> Envelope \<Rightarrow> cmdctx" where
  "commandContext valid fresh parent env =
     (let c0 = parent\<lparr>cx_Command := Some (e_CommandID env)\<rparr>;
          rid = firstCorrelationID valid [e_RequestID env, e_CommandID env];
          c1 = (if rid \<noteq> [] then c0\<lparr>cx_RequestID := rid\<rparr> else c0);
          tid = firstCorrelationID valid [e_TraceID env];
          c2 = (if tid \<noteq> [] then c1\<lparr>cx_TraceID := tid\<rparr> else c1)
      in c2\<lparr>cx_JobID := commandJobID valid fresh env\<rparr>)"

definition cycleContext :: "string \<Rightarrow> cmdctx \<Rightarrow> cmdctx" where
  "cycleContext fresh parent = parent\<lparr>cx_JobID := fresh\<rparr>"

definition dispatchContext :: "(string \<Rightarrow> bool) \<Rightarrow> string \<Rightarrow> cmdctx \<Rightarrow> Envelope \<Rightarrow> cmdctx" where
  "dispatchContext valid fresh parent env =
     (if e_Type env = ''connected'' then cycleContext fresh parent
      else commandContext valid fresh parent env)"

definition stampIDs :: "cmdctx \<Rightarrow> message \<Rightarrow> message" where
  "stampIDs ctx m =
     (case cx_Command ctx of
        None \<Rightarrow> m
      | Some c \<Rightarrow> m\<lparr>om_CommandID := (if om_CommandID m = [] then c else om_CommandID m),
                    om_RequestID := (if om_RequestID m = [] then cx_RequestID ctx else om_RequestID m),
                    om_TraceID := (if om_TraceID m = [] then cx_TraceID ctx else om_TraceID m)\<rparr>)"

section \<open>Sends\<close>

definition msg :: "string \<Rightarrow> payload \<Rightarrow> message" where
  "msg t p = \<lparr>om_Type = t, om_CommandID = [], om_RequestID = [], om_TraceID = [], om_Status = [], om_Payload = p\<rparr>"

definition wsSend :: "cmdctx \<Rightarrow> message \<Rightarrow> unit prog" where
  "wsSend ctx m = emit (EvSend False (stampIDs ctx m))"

definition wsSendReliable :: "cmdctx \<Rightarrow> message \<Rightarrow> unit prog" where
  "wsSendReliable ctx m = emit (EvSend True (stampIDs ctx m))"

definition sendLifecycleLog :: "cmdctx \<Rightarrow> string \<Rightarrow> string \<Rightarrow> gotext \<Rightarrow> unit prog" where
  "sendLifecycleLog ctx name ev m = wsSend ctx (msg ''lifecycle_log''
     [(''container_name'', JStr name), (''event'', JStr ev), (''message'', JText m)])"

definition sendLifecycleWarn :: "cmdctx \<Rightarrow> string \<Rightarrow> string \<Rightarrow> gotext \<Rightarrow> unit prog" where
  "sendLifecycleWarn ctx name ev m = sendLifecycleLog ctx name ev m"

text \<open>The slot of the handler pool that a handler holds while it runs.\<close>

definition pooled :: "string \<Rightarrow> unit prog \<Rightarrow> unit prog" where
  "pooled t m = do { emit (EvExt (EvAcquire t)); m; emit (EvExt EvRelease) }"

section \<open>Database replies\<close>

definition echo_field :: "payload \<Rightarrow> string \<Rightarrow> payload \<Rightarrow> payload" where
  "echo_field src k p =
     (case map_of src k of Some v \<Rightarrow> if map_of p k = None then p @ [(k, v)] else p | None \<Rightarrow> p)"

definition phase_of :: "json option \<Rightarrow> string" where
  "phase_of status =
     (if status \<in> {Some (JStr ''success''), Some (JStr ''completed'')} then ''completed''
      else if status \<in> {Some (JStr ''failed''), Some (JStr ''error'')} then ''failed''
      else ''ack'')"

definition buildDbReplyPayload :: "Envelope \<Rightarrow> payload \<Rightarrow> payload" where
  "buildDbReplyPayload env p0 =
     (let p1 = fold (echo_field (e_Payload env)) [''database_instance_id'', ''request_id'', ''idempotency_key''] p0;
          p2 = (if map_of p1 ''database_instance_id'' = None
                then case map_of p1 ''instance_id'' of Some v \<Rightarrow> p1 @ [(''database_instance_id'', v)] | None \<Rightarrow> p1
                else p1);
          p3 = (if map_of p2 ''action'' = None \<and> e_Type env \<noteq> [] then p2 @ [(''action'', JStr (e_Type env))] else p2)
      in if map_of p3 ''phase'' = None then p3 @ [(''phase'', JStr (phase_of (map_of p3 ''status'')))] else p3)"

definition sendDbReply :: "cmdctx \<Rightarrow> Envelope \<Rightarrow> string \<Rightarrow> payload \<Rightarrow> unit prog" where
  "sendDbReply ctx env t p = wsSendReliable ctx (msg t (buildDbReplyPayload env p))"

definition normaliseMemoryLimit :: "int \<Rightarrow> int" where
  "normaliseMemoryLimit limit =
     (if 0 < limit \<and> limit < 6 * 1024 * 1024 then limit * 1024 * 1024 else limit)"

definition scheduledEnv :: "int \<Rightarrow> Envelope" where
  "scheduledEnv instanceID =
     \<lparr>e_Type = ''db_snapshot'', e_CommandID = [], e_RequestID = [], e_TraceID = [],
      e_Payload = [(''database_instance_id'', JNum (of_int instanceID))]\<rparr>"

section \<open>Lemmas\<close>

lemma stampIDs_type [simp]: "om_Type (stampIDs ctx m) = om_Type m"
  and stampIDs_payload [simp]: "om_Payload (stampIDs ctx m) = om_Payload m"
  by (simp_all add: stampIDs_def split: option.splits)

lemma msg_sel [simp]: "om_Type (msg t p) = t" "om_Payload (msg t p) = p"
  by (simp_all add: msg_def)

lemma map_of_snoc: "map_of (p @ [(k, v)]) x = (case map_of p x of Some w \<Rightarrow> Some w | None \<Rightarrow> if x = k then Some v else None)"
  by (simp add: map_add_def split: option.splits)

lemma echo_field_map_of:
  "map_of (echo_field src k p) x =
     (case map_of p x of Some w \<Rightarrow> Some w | None \<Rightarrow> if x = k then map_of src k else None)"
  by (auto simp: echo_field_def map_of_snoc simp del: map_of_append split: option.splits)

lemma echo_fields_map_of:
  "map_of (fold (echo_field src) ks p) x =
     (case map_of p x of Some w \<Rightarrow> Some w | None \<Rightarrow> if x \<in> set ks then map_of src x else None)"
  by (induction ks arbitrary: p) (auto simp: echo_field_map_of split: option.splits)

text \<open>What a reply says about a field that its handler did not set.\<close>

definition reply_default :: "Envelope \<Rightarrow> payload \<Rightarrow> string \<Rightarrow> json option" where
  "reply_default env p k =
     (if k = ''database_instance_id''
      then (case map_of (e_Payload env) k of Some v \<Rightarrow> Some v | None \<Rightarrow> map_of p ''instance_id'')
      else if k = ''request_id'' \<or> k = ''idempotency_key'' then map_of (e_Payload env) k
      else if k = ''action'' then (if e_Type env = [] then None else Some (JStr (e_Type env)))
      else if k = ''phase'' then Some (JStr (phase_of (map_of p ''status'')))
      else None)"

lemma snoc_default:
  "map_of (if map_of p k = None \<and> b then p @ [(k, v)] else p) x =
     (case map_of p x of Some w \<Rightarrow> Some w | None \<Rightarrow> if x = k \<and> b then Some v else None)"
  by (auto simp: map_of_snoc simp del: map_of_append split: option.splits)

lemma snoc_opt:
  "map_of (if map_of p k = None then case d of Some v \<Rightarrow> p @ [(k, v)] | None \<Rightarrow> p else p) x =
     (case map_of p x of Some w \<Rightarrow> Some w | None \<Rightarrow> if x = k then d else None)"
  by (auto simp: map_of_snoc simp del: map_of_append split: option.splits)

lemma db_reply_lookup:
  "map_of (buildDbReplyPayload env p) k =
     (case map_of p k of Some v \<Rightarrow> Some v | None \<Rightarrow> reply_default env p k)"
proof -
  define p1 where "p1 = fold (echo_field (e_Payload env)) [''database_instance_id'', ''request_id'', ''idempotency_key''] p"
  define p2 where "p2 = (if map_of p1 ''database_instance_id'' = None
     then case map_of p1 ''instance_id'' of Some v \<Rightarrow> p1 @ [(''database_instance_id'', v)] | None \<Rightarrow> p1 else p1)"
  define p3 where "p3 = (if map_of p2 ''action'' = None \<and> e_Type env \<noteq> [] then p2 @ [(''action'', JStr (e_Type env))] else p2)"
  have 1: "map_of p1 x = (case map_of p x of Some w \<Rightarrow> Some w | None \<Rightarrow>
      if x \<in> set [''database_instance_id'', ''request_id'', ''idempotency_key''] then map_of (e_Payload env) x else None)" for x
    unfolding p1_def by (rule echo_fields_map_of)
  have 2: "map_of p2 x = (case map_of p1 x of Some w \<Rightarrow> Some w | None \<Rightarrow>
      if x = ''database_instance_id'' then map_of p1 ''instance_id'' else None)" for x
    unfolding p2_def by (rule snoc_opt)
  have 3: "map_of p3 x = (case map_of p2 x of Some w \<Rightarrow> Some w | None \<Rightarrow>
      if x = ''action'' \<and> e_Type env \<noteq> [] then Some (JStr (e_Type env)) else None)" for x
    unfolding p3_def by (rule snoc_default)
  have 4: "map_of (buildDbReplyPayload env p) x = (case map_of p3 x of Some w \<Rightarrow> Some w | None \<Rightarrow>
      if x = ''phase'' \<and> True then Some (JStr (phase_of (map_of p3 ''status''))) else None)" for x
    unfolding buildDbReplyPayload_def Let_def p1_def [symmetric] p2_def [symmetric] p3_def [symmetric]
    using snoc_default [of p3 "''phase''" True] by simp
  have st: "map_of p3 ''status'' = map_of p ''status''" "map_of p1 ''instance_id'' = map_of p ''instance_id''"
    unfolding 3 2 1 by (simp_all split: option.split)
  show ?thesis
  proof (cases "map_of p k")
    case None
    show ?thesis unfolding 4 3 2 1 None option.case st reply_default_def
      by (cases "k = ''database_instance_id''"; cases "k = ''request_id''"; cases "k = ''idempotency_key''";
          cases "k = ''action''"; cases "k = ''phase''"; simp split: option.split)
  qed (simp add: 4 3 2 1)
qed

section \<open>Properties\<close>

text \<open>
  a database reply carries what its handler set and, for the rest, exactly the stated
  defaults: the instance id of the command (or of the schedule), the echoed correlation
  fields, the command's type as the action, and the phase that belongs to its status.
\<close>

theorem db_reply_contract:
  "map_of (buildDbReplyPayload env p) k =
     (case map_of p k of Some v \<Rightarrow> Some v | None \<Rightarrow> reply_default env p k)"
  by (rule db_reply_lookup)

section \<open>Job ids are accepted and can be read back\<close>

lemma digits_val_zeros: "digits_val (replicate k (CHR ''0'') @ s) = digits_val s"
proof -
  have "foldl (\<lambda>n c. 10 * n + digit_val c) 0 (replicate k (CHR ''0'')) = 0"
    by (induction k) (simp_all add: digit_val_def)
  then show ?thesis by (simp add: digits_val_def)
qed

lemma Atoi_zero_pad:
  assumes "0 < n" "int64_range n"
  shows "Atoi (zero_pad w (Itoa n)) = Some n"
proof -
  have d: "Itoa n = nat_digits (nat n)" using assms by (simp add: Itoa_def)
  let ?s = "zero_pad w (Itoa n)"
  have digs: "list_all is_digit ?s" "?s \<noteq> []" "digits_val ?s = n"
    using nat_digits_props [of "nat n"] assms
    by (auto simp: d zero_pad_def digits_val_zeros list_all_iff is_digit_def less_eq_char_def)
  have "\<not> HasPrefix ?s ''-''" "\<not> HasPrefix ?s ''+''"
    using digs(1) by (auto simp: HasPrefix_iff is_digit_def less_eq_char_def)
  with digs assms show ?thesis by (simp add: Atoi_def)
qed

lemma unitJobID_form:
  assumes "unitJobID kind raw \<noteq> []"
  obtains n where "Atoi raw = Some n" "0 < n" "unitJobID kind raw = kind @ zero_pad 14 (Itoa n)"
    "length (unitJobID kind raw) = 16"
  using assms by (auto simp: unitJobID_def Let_def split: option.splits if_splits)

lemma Atoi_range: "Atoi s = Some n \<Longrightarrow> int64_range n"
  by (auto simp: Atoi_def Let_def split: if_splits)

text \<open>
  The job id of a unit of work can be read back: its first two characters are the kind
  and the rest is the unit's number, so two units of different kind or number never share
  a job id; and it always has sixteen characters.
\<close>

theorem unit_job_id_round_trip:
  assumes "length kind = 2" and "unitJobID kind raw \<noteq> []"
  shows "length (unitJobID kind raw) = 16 \<and> take 2 (unitJobID kind raw) = kind \<and>
    Atoi (drop 2 (unitJobID kind raw)) = Atoi raw"
proof -
  from assms(2) obtain n where n: "Atoi raw = Some n" "0 < n"
    "unitJobID kind raw = kind @ zero_pad 14 (Itoa n)" "length (unitJobID kind raw) = 16"
    by (rule unitJobID_form)
  with Atoi_zero_pad [OF n(2) Atoi_range [OF n(1)]] assms(1) show ?thesis by simp
qed

theorem unit_job_id_round_trip_witness:
  "unitJobID ''de'' ''42'' \<noteq> [] \<and> take 2 (unitJobID ''de'' ''42'') = ''de'' \<and>
   Atoi (drop 2 (unitJobID ''de'' ''42'')) = Atoi ''42''"
proof -
  have "Atoi ''42'' = Some 42"
    by (simp add: Atoi_def HasPrefix_def digits_val_def digit_val_def is_digit_def less_eq_char_def int64_range_def)
  moreover have "length (Itoa 42) = 2" by (simp add: Itoa_def nat_digits.simps)
  ultimately have "unitJobID ''de'' ''42'' \<noteq> []" by (simp add: unitJobID_def zero_pad_def)
  with unit_job_id_round_trip [of "''de''" "''42''"] show ?thesis by simp
qed

definition hex_char :: "char \<Rightarrow> bool" where
  "hex_char c = (is_digit c \<or> c \<in> set ''abcdef'')"

lemma unitJobID_hex:
  assumes "unitJobID kind raw \<noteq> []" and "list_all hex_char kind"
  shows "list_all hex_char (unitJobID kind raw)"
proof -
  from assms(1) obtain n where n: "0 < n" "unitJobID kind raw = kind @ zero_pad 14 (Itoa n)"
    by (rule unitJobID_form)
  have "list_all is_digit (Itoa n)" using nat_digits_props [of "nat n"] n(1) by (simp add: Itoa_def)
  with n(2) assms(2) show ?thesis
    by (auto simp: zero_pad_def list_all_iff hex_char_def is_digit_def less_eq_char_def)
qed

text \<open>
  Every command has a job id that Monitor accepts. If Monitor accepts eight to
  sixty-four hexadecimal characters, as it documents, and the id it mints itself, then the
  job id chosen for a command is accepted, whatever the command carries.
\<close>

theorem job_id_accepted:
  assumes "\<And>s. 8 \<le> length s \<Longrightarrow> length s \<le> 64 \<Longrightarrow> list_all hex_char s \<Longrightarrow> valid s" and "valid fresh"
  shows "valid (commandJobID valid fresh env)"
proof -
  have unit: "unitJobID kind raw \<noteq> [] \<Longrightarrow> valid (unitJobID kind raw)"
    if "kind \<in> {''de'', ''ba'', ''bd'', ''db''}" for kind raw
  proof -
    assume u: "unitJobID kind raw \<noteq> []"
    have "list_all hex_char kind" using that by (auto simp: hex_char_def)
    then have "list_all hex_char (unitJobID kind raw)" by (rule unitJobID_hex [OF u])
    moreover from u have "length (unitJobID kind raw) = 16" by (rule unitJobID_form)
    ultimately show ?thesis by (intro assms(1)) simp_all
  qed
  have first: "firstCorrelationID valid xs \<noteq> [] \<Longrightarrow> valid (firstCorrelationID valid xs)" for xs
    by (induction xs) (auto split: if_splits)
  have pick: "valid (if x = [] then y else x)" if "x \<noteq> [] \<Longrightarrow> valid x" "valid y" for x y
    using that by simp
  have pick2: "(if x = [] then y else x) \<noteq> [] \<Longrightarrow> valid (if x = [] then y else x)"
    if "x \<noteq> [] \<Longrightarrow> valid x" "y \<noteq> [] \<Longrightarrow> valid y" for x y
    using that by (simp split: if_splits)
  have pick3: "(if b then x else y) \<noteq> [] \<Longrightarrow> valid (if b then x else y)"
    if "x \<noteq> [] \<Longrightarrow> valid x" "y \<noteq> [] \<Longrightarrow> valid y" for b x y
    using that by (simp split: if_splits)
  show ?thesis
    unfolding commandJobID_def Let_def
    by (rule pick, erule pick2 [rotated 2], erule pick2 [rotated 2], erule pick3 [rotated 2], erule unit [rotated],
        simp, erule pick3 [rotated 2], erule unit [rotated], simp, erule pick3 [rotated 2], erule unit [rotated],
        simp, simp, erule unit [rotated], simp, erule first, rule assms(2))
qed

theorem job_id_accepted_witness:
  "list_all hex_char (commandJobID (\<lambda>s. 8 \<le> length s \<and> length s \<le> 64 \<and> list_all hex_char s) ''0123456789abcdef''
     \<lparr>e_Type = ''stop'', e_CommandID = ''x'', e_RequestID = [], e_TraceID = [], e_Payload = []\<rparr>)"
  using job_id_accepted [where valid = "\<lambda>s. 8 \<le> length s \<and> length s \<le> 64 \<and> list_all hex_char s"
      and fresh = "''0123456789abcdef''"
      and env = "\<lparr>e_Type = ''stop'', e_CommandID = ''x'', e_RequestID = [], e_TraceID = [], e_Payload = []\<rparr>"]
  by (simp add: hex_char_def is_digit_def less_eq_char_def)

text \<open>
  Replies carry the ids of their command and nothing else is marked. Under a command's
  context an id that the handler left empty is filled in from the context and one that it
  set is kept, the type and the payload are unchanged and stamping again changes nothing;
  under any other context a message is sent as it is.
\<close>

theorem stamp_contract:
  "stampIDs ctx (stampIDs ctx m) = stampIDs ctx m \<and>
   om_Type (stampIDs ctx m) = om_Type m \<and> om_Payload (stampIDs ctx m) = om_Payload m \<and>
   om_Status (stampIDs ctx m) = om_Status m \<and>
   om_CommandID (stampIDs ctx m) =
     (if om_CommandID m = [] then case cx_Command ctx of Some c \<Rightarrow> c | None \<Rightarrow> [] else om_CommandID m) \<and>
   stampIDs (cycleContext fresh (ctx\<lparr>cx_Command := None\<rparr>)) m = m"
  by (intro conjI; cases "cx_Command ctx"; simp add: stampIDs_def cycleContext_def)

end
