(* ===== verification/Container_Commands.thy ===== *)
theory Container_Commands
  imports Replies Recreate Rolling Locks
begin

text \<open>
  The handlers of main.go for commands on a single container, image, volume or network and
  for the whole worker: stop, start, kill, pause, unpause, restart, remove, force_remove,
  recreate, pull_image, stop_all, start_all and the volume and network commands. The six
  commands that send one request share the locale \<open>container_action\<close>.
\<close>

section \<open>The common frame of a container command\<close>

definition status_msg :: "string \<Rightarrow> string \<Rightarrow> payload \<Rightarrow> message" where
  "status_msg name action fs =
     msg ''container_status'' ([(''container_name'', JStr name), (''action'', JStr action)] @ fs)"

definition send_error :: "cmdctx \<Rightarrow> string \<Rightarrow> string \<Rightarrow> string \<Rightarrow> unit prog" where
  "send_error ctx name action m = wsSend ctx (status_msg name action
     [(''status'', JStr ''error''), (''message'', JStr m)])"

definition send_failed :: "cmdctx \<Rightarrow> string \<Rightarrow> string \<Rightarrow> json \<Rightarrow> unit prog" where
  "send_failed ctx name action m = wsSend ctx (status_msg name action
     [(''status'', JStr ''failed''), (''message'', m)])"

definition send_success :: "cmdctx \<Rightarrow> string \<Rightarrow> string \<Rightarrow> unit prog" where
  "send_success ctx name action = wsSend ctx (status_msg name action [(''status'', JStr ''success'')])"

text \<open>The two checks of the name, and the lock that is held for the rest of the handler.\<close>

definition with_container :: "host \<Rightarrow> cmdctx \<Rightarrow> Envelope \<Rightarrow> string \<Rightarrow> (string \<Rightarrow> unit prog) \<Rightarrow> unit prog" where
  "with_container E ctx env action body =
     (let name = pstr (e_Payload env) ''container_name'' in
      if name = [] then send_error ctx name action ''missing container_name''
      else if \<not> validContainerName name then send_error ctx name action ''invalid container_name''
      else do {
        u \<leftarrow> LockContainer E name;
        body name;
        unlock u
      })"

definition lookup_container :: "host \<Rightarrow> cmdctx \<Rightarrow> string \<Rightarrow> string \<Rightarrow> (string \<Rightarrow> unit prog) \<Rightarrow> unit prog" where
  "lookup_container E ctx name action body = do {
     sendLifecycleLog ctx name action (Fmt ''looking up container...'' []);
     r \<leftarrow> FindContainerByName E name;
     (if (case r of Inr i \<Rightarrow> i \<noteq> [] | Inl e \<Rightarrow> False)
      then body (projr r)
      else do {
        sendLifecycleLog ctx name action (Fmt ''container not found'' []);
        send_failed ctx name action (JStr ''container not found'')
      })
   }"

definition simple_command ::
  "host \<Rightarrow> cmdctx \<Rightarrow> Envelope \<Rightarrow> string \<Rightarrow> (string \<Rightarrow> gotext) \<Rightarrow> (host \<Rightarrow> string \<Rightarrow> goerr option prog) \<Rightarrow>
     string \<Rightarrow> unit prog" where
  "simple_command E ctx env action busy req failed =
     pooled action (with_container E ctx env action (\<lambda>name.
       lookup_container E ctx name action (\<lambda>cid. do {
         sendLifecycleLog ctx name action (busy cid);
         r \<leftarrow> req E cid;
         (case r of
            Some e \<Rightarrow> do {
              sendLifecycleLog ctx name action (Fmt failed [FE e]);
              send_failed ctx name action (JText e)
            }
          | None \<Rightarrow> send_success ctx name action)
       })))"

section \<open>The commands with one request\<close>

definition handle_stop :: "host \<Rightarrow> cmdctx \<Rightarrow> Envelope \<Rightarrow> unit prog" where
  "handle_stop E ctx env = simple_command E ctx env ''stop''
     (\<lambda>cid. Fmt ''stopping container (timeout=30s, id=%s)...'' [FS (take 12 cid)])
     (\<lambda>E cid. StopContainer E cid 30) ''failed to stop: %v''"

definition handle_start :: "host \<Rightarrow> cmdctx \<Rightarrow> Envelope \<Rightarrow> unit prog" where
  "handle_start E ctx env = simple_command E ctx env ''start''
     (\<lambda>cid. Fmt ''starting container (id=%s)...'' [FS (take 12 cid)])
     StartContainer ''failed to start: %v''"

definition handle_kill :: "host \<Rightarrow> cmdctx \<Rightarrow> Envelope \<Rightarrow> unit prog" where
  "handle_kill E ctx env = simple_command E ctx env ''kill''
     (\<lambda>cid. Fmt ''sending SIGKILL to container (id=%s)...'' [FS (take 12 cid)])
     KillContainer ''failed to kill: %v''"

definition handle_pause :: "host \<Rightarrow> cmdctx \<Rightarrow> Envelope \<Rightarrow> unit prog" where
  "handle_pause E ctx env = simple_command E ctx env ''pause''
     (\<lambda>cid. Fmt ''pausing container (id=%s)...'' [FS (take 12 cid)])
     PauseContainer ''failed to pause: %v''"

definition handle_unpause :: "host \<Rightarrow> cmdctx \<Rightarrow> Envelope \<Rightarrow> unit prog" where
  "handle_unpause E ctx env = simple_command E ctx env ''unpause''
     (\<lambda>cid. Fmt ''resuming container (id=%s)...'' [FS (take 12 cid)])
     UnpauseContainer ''failed to resume: %v''"

definition handle_restart :: "host \<Rightarrow> cmdctx \<Rightarrow> Envelope \<Rightarrow> unit prog" where
  "handle_restart E ctx env = simple_command E ctx env ''restart''
     (\<lambda>cid. Fmt ''restarting container (timeout=30s, id=%s)... container will stop then start'' [FS (take 12 cid)])
     (\<lambda>E cid. RestartContainer E cid 30) ''failed to restart: %v''"

section \<open>remove, force_remove, recreate, pull_image\<close>

definition handle_remove :: "host \<Rightarrow> cmdctx \<Rightarrow> Envelope \<Rightarrow> unit prog" where
  "handle_remove E ctx env =
     pooled ''remove'' (with_container E ctx env ''remove'' (\<lambda>name.
       lookup_container E ctx name ''remove'' (\<lambda>cid. do {
         sendLifecycleLog ctx name ''remove''
           (Fmt ''stopping container before removal (timeout=10s, id=%s)...'' [FS (take 12 cid)]);
         s \<leftarrow> StopContainer E cid 10;
         (case s of
            Some e \<Rightarrow> sendLifecycleWarn ctx name ''remove''
              (Fmt ''stop returned: %v (proceeding with force remove)'' [FE e])
          | None \<Rightarrow> sendLifecycleLog ctx name ''remove'' (Fmt ''container stopped, removing...'' []));
         r \<leftarrow> RemoveContainer E cid True;
         (case r of
            Some e \<Rightarrow> do {
              sendLifecycleLog ctx name ''remove'' (Fmt ''failed to remove: %v'' [FE e]);
              send_failed ctx name ''remove'' (JText e)
            }
          | None \<Rightarrow> send_success ctx name ''remove'')
       })))"

definition worker_status :: "cmdctx \<Rightarrow> payload \<Rightarrow> unit prog" where
  "worker_status ctx fs = wsSend ctx (msg ''worker_action_status'' fs)"

definition handle_force_remove :: "host \<Rightarrow> cmdctx \<Rightarrow> Envelope \<Rightarrow> unit prog" where
  "handle_force_remove E ctx env =
     (let name = pstr (e_Payload env) ''container_name'';
          reply = (\<lambda>st m more. worker_status ctx
            ([(''action'', JStr ''force_remove''), (''status'', JStr st), (''message'', m)] @ more)) in
      pooled ''force_remove'' (
        if name = [] then reply ''error'' (JStr ''missing container_name'') []
        else if \<not> validContainerName name then reply ''error'' (JStr ''invalid container_name'') []
        else do {
          u \<leftarrow> LockContainer E name;
          r \<leftarrow> FindContainerByName E name;
          (if (case r of Inr i \<Rightarrow> i \<noteq> [] | Inl e \<Rightarrow> False)
           then do {
             StopContainer E (projr r) 5;
             q \<leftarrow> RemoveContainer E (projr r) True;
             (case q of
                Some e \<Rightarrow> reply ''failed'' (JText (Fmt ''failed to remove: %v'' [FE e])) []
              | None \<Rightarrow> reply ''success'' (JText (Fmt ''container %s removed'' [FS name]))
                  [(''container_name'', JStr name)])
           }
           else reply ''error'' (JStr ''container not found'') []);
          unlock u
        }))"

text \<open>
  \<open>parseRegistryAuth\<close> (runner_stats.go): the fields of the \<open>auth\<close> object that are strings;
  a value of another type leaves them empty. Keys are spelled as the tags of the struct.
\<close>

definition parseRegistryAuth :: "payload \<Rightarrow> regauth option" where
  "parseRegistryAuth p = (case map_of p ''auth'' of
     None \<Rightarrow> None
   | Some (JObj m) \<Rightarrow> Some \<lparr>ra_Username = pstr m ''username'', ra_Password = pstr m ''password''\<rparr>
   | Some _ \<Rightarrow> Some \<lparr>ra_Username = [], ra_Password = []\<rparr>)"

definition auth_info :: "regauth option \<Rightarrow> gotext" where
  "auth_info a = (case a of
     Some r \<Rightarrow> if ra_Username r \<noteq> [] then Fmt '' (registry auth: %s)'' [FS (ra_Username r)] else Fmt '''' []
   | None \<Rightarrow> Fmt '''' [])"

definition full_ref :: "string \<Rightarrow> string \<Rightarrow> string" where
  "full_ref img tag = (if tag \<noteq> [] then img @ '':'' @ tag else img)"

definition recreate_pull :: "host \<Rightarrow> cmdctx \<Rightarrow> Envelope \<Rightarrow> string \<Rightarrow> unit prog" where
  "recreate_pull E ctx env name =
     (let img = pstr (e_Payload env) ''image''; ref = full_ref img (pstr (e_Payload env) ''tag'');
          auth = parseRegistryAuth (e_Payload env) in
      if img \<noteq> [] then do {
        sendLifecycleLog ctx name ''recreate'' (Fmt ''pulling image %s%s...'' [FS ref, FE (auth_info auth)]);
        r \<leftarrow> PullImage E ref auth;
        (case r of
           Some e \<Rightarrow> sendLifecycleLog ctx name ''recreate''
             (Fmt ''image pull failed: %v - proceeding with local image'' [FE e])
         | None \<Rightarrow> sendLifecycleLog ctx name ''recreate'' (Fmt ''image %s pulled successfully'' [FS ref]))
      }
      else sendLifecycleLog ctx name ''recreate'' (Fmt ''no image specified, recreating with current image'' []))"

definition recreate_find :: "host \<Rightarrow> string \<Rightarrow> string prog" where
  "recreate_find E name = do {
     r \<leftarrow> FindContainerByName E name;
     (if (case r of Inr i \<Rightarrow> i \<noteq> [] | Inl e \<Rightarrow> False) then ret (projr r)
      else do { f \<leftarrow> FindCanonicalContainer E name; ret (fst f) })
   }"

definition handle_recreate :: "host \<Rightarrow> cmdctx \<Rightarrow> Envelope \<Rightarrow> unit prog" where
  "handle_recreate E ctx env =
     (let img = pstr (e_Payload env) ''image'';
          newRef = (if img \<noteq> [] then full_ref img (pstr (e_Payload env) ''tag'') else []) in
      pooled ''recreate'' (with_container E ctx env ''recreate'' (\<lambda>name. do {
        recreate_pull E ctx env name;
        sendLifecycleLog ctx name ''recreate'' (Fmt ''looking up container...'' []);
        cid \<leftarrow> recreate_find E name;
        (if cid = [] then do {
           sendLifecycleLog ctx name ''recreate''
             (Fmt ''container not found - run a stack deploy to create it'' []);
           send_failed ctx name ''recreate'' (JStr ''container not found - deploy the stack to create it'')
         }
         else do {
           sendLifecycleLog ctx name ''recreate''
             (Fmt ''graceful recreate (old id=%s)... starting new container, health checking, then swapping''
               [FS (take 12 cid)]);
           r \<leftarrow> GracefulRecreate E cid newRef;
           (case r of
              Inl e \<Rightarrow> do {
                sendLifecycleLog ctx name ''recreate'' (Fmt ''failed to recreate: %v'' [FE e]);
                send_failed ctx name ''recreate'' (JText e)
              }
            | Inr newID \<Rightarrow> send_success ctx name ''recreate'')
         })
      })))"

definition handle_pull_image :: "host \<Rightarrow> cmdctx \<Rightarrow> Envelope \<Rightarrow> unit prog" where
  "handle_pull_image E ctx env =
     (let img = pstr (e_Payload env) ''image''; auth = parseRegistryAuth (e_Payload env) in
      pooled ''pull_image'' (
        if img = [] then ret ()
        else do {
          sendLifecycleLog ctx img ''pull_image'' (Fmt ''pulling image %s%s...'' [FS img, FE (auth_info auth)]);
          r \<leftarrow> PullImage E img auth;
          (case r of
             Some e \<Rightarrow> do {
               sendLifecycleLog ctx img ''pull_image'' (Fmt ''pull failed: %v'' [FE e]);
               send_failed ctx img ''pull_image'' (JText e)
             }
           | None \<Rightarrow> do {
               sendLifecycleLog ctx img ''pull_image'' (Fmt ''image %s pulled successfully'' [FS img]);
               send_success ctx img ''pull_image''
             })
        }))"

section \<open>Commands on the whole worker\<close>

text \<open>The first name of a container that is not empty.\<close>

definition shown_name :: "container \<Rightarrow> string" where
  "shown_name c = (case find (\<lambda>n. n \<noteq> []) (names_of c) of Some n \<Rightarrow> n | None \<Rightarrow> [])"

text \<open>
  The loop shared by stop_all and start_all; the pair counts the requests that succeeded and
  those that failed.
\<close>

fun all_loop ::
  "(string \<Rightarrow> nat \<Rightarrow> unit prog) \<Rightarrow> (string \<Rightarrow> goerr option prog) \<Rightarrow> container list \<Rightarrow> nat \<times> nat \<Rightarrow>
     (nat \<times> nat) prog" where
  "all_loop note_ev req [] (ok, failed) = ret (ok, failed)"
| "all_loop note_ev req (c # cs) (ok, failed) = do {
     (if shown_name c \<noteq> [] then note_ev (shown_name c) (ok + failed + 1) else ret ());
     r \<leftarrow> req (ct_ID c);
     (case r of
        Some e \<Rightarrow> all_loop note_ev req cs (ok, failed + 1)
      | None \<Rightarrow> all_loop note_ev req cs (ok + 1, failed))
   }"

definition action_status :: "cmdctx \<Rightarrow> string \<Rightarrow> string \<Rightarrow> json \<Rightarrow> unit prog" where
  "action_status ctx action st m =
     worker_status ctx [(''action'', JStr action), (''status'', JStr st), (''message'', m)]"

definition stop_each :: "host \<Rightarrow> cmdctx \<Rightarrow> container list res \<Rightarrow> unit prog" where
  "stop_each E ctx r = (case r of
     Inl e \<Rightarrow> action_status ctx ''stop_all'' ''failed'' (JText (Fmt ''failed to list containers: %v'' [FE e]))
   | Inr cs \<Rightarrow> (let todo = filter (\<lambda>c. ct_State c = ''running'') cs in do {
       n \<leftarrow> all_loop (\<lambda>name k. sendLifecycleLog ctx name ''stop''
              (Fmt ''stopping container as part of stop_all (%d/%d)...'' [FD (int k), FD (int (length todo))]))
            (\<lambda>cid. StopContainer E cid 30) todo (0, 0);
       action_status ctx ''stop_all'' ''success''
         (JText (Fmt ''stopped %d containers, %d failed'' [FD (int (fst n)), FD (int (snd n))]))
     }))"

definition handle_stop_all :: "host \<Rightarrow> cmdctx \<Rightarrow> unit prog" where
  "handle_stop_all E ctx = do { r \<leftarrow> ListContainers E ''''; stop_each E ctx r }"

definition handle_start_all :: "host \<Rightarrow> cmdctx \<Rightarrow> unit prog" where
  "handle_start_all E ctx = do {
     r \<leftarrow> ListContainers E '''';
     (case r of
        Inl e \<Rightarrow> action_status ctx ''start_all'' ''failed'' (JText (Fmt ''failed to list containers: %v'' [FE e]))
      | Inr cs \<Rightarrow> (let todo = filter (\<lambda>c. ct_State c \<noteq> ''running'') cs in do {
          n \<leftarrow> all_loop (\<lambda>name k. sendLifecycleLog ctx name ''start''
                 (Fmt ''starting container as part of start_all (%d/%d)...'' [FD (int k), FD (int (length todo))]))
               (\<lambda>cid. StartContainer E cid) todo (0, 0);
          action_status ctx ''start_all'' ''success''
            (JText (Fmt ''started %d containers, %d failed'' [FD (int (fst n)), FD (int (snd n))]))
        }))
   }"

section \<open>Volumes and networks\<close>

definition ListVolumes :: "host \<Rightarrow> volinfo list res prog" where
  "ListVolumes E = request (\<lambda>h. VolumeList (svc E) h '''') (\<lambda>r. EvExt (EvVolList '''' r))"

definition ListNetworks :: "host \<Rightarrow> netinfo list res prog" where
  "ListNetworks E = request (\<lambda>h. NetworkList (svc E) h) (\<lambda>r. EvExt (EvNetList r))"

definition str_map :: "(string \<times> string) list \<Rightarrow> json" where
  "str_map m = JObj (map (\<lambda>(k, v). (k, JStr v)) m)"

definition volume_json :: "volinfo \<Rightarrow> json" where
  "volume_json v = JObj [(''name'', JStr (vl_Name v)), (''driver'', JStr (vl_Driver v)),
     (''mountpoint'', JStr (vl_Mountpoint v)), (''created_at'', JStr (vl_CreatedAt v)),
     (''scope'', JStr (vl_Scope v)), (''labels'', str_map (vl_Labels v))]"

definition network_json :: "netinfo \<Rightarrow> json" where
  "network_json n = JObj [(''id'', JStr (ni_ID n)), (''name'', JStr (ni_Name n)), (''driver'', JStr (ni_Driver n)),
     (''scope'', JStr (ni_Scope n)), (''internal'', JBool (ni_Internal n)),
     (''containers'', str_map (ni_Containers n)), (''created'', JStr (ni_Created n))]"

definition list_reply :: "cmdctx \<Rightarrow> Envelope \<Rightarrow> string \<Rightarrow> string \<Rightarrow> payload \<Rightarrow> unit prog" where
  "list_reply ctx env t st xs = wsSendReliable ctx (msg t
     ([(''command_id'', JStr (e_CommandID env)), (''status'', JStr st)] @ xs))"

definition handle_list_volumes :: "host \<Rightarrow> cmdctx \<Rightarrow> Envelope \<Rightarrow> unit prog" where
  "handle_list_volumes E ctx env = do {
     r \<leftarrow> ListVolumes E;
     (case r of
        Inl e \<Rightarrow> list_reply ctx env ''list_volumes_response'' ''error'' [(''error'', JText e)]
      | Inr vs \<Rightarrow> list_reply ctx env ''list_volumes_response'' ''success''
          [(''volumes'', JArr (map volume_json vs))])
   }"

definition handle_list_networks :: "host \<Rightarrow> cmdctx \<Rightarrow> Envelope \<Rightarrow> unit prog" where
  "handle_list_networks E ctx env = do {
     r \<leftarrow> ListNetworks E;
     (case r of
        Inl e \<Rightarrow> list_reply ctx env ''list_networks_response'' ''error'' [(''error'', JText e)]
      | Inr ns \<Rightarrow> list_reply ctx env ''list_networks_response'' ''success''
          [(''networks'', JArr (map network_json ns))])
   }"

definition volnet_reply :: "cmdctx \<Rightarrow> Envelope \<Rightarrow> string \<Rightarrow> string \<Rightarrow> json \<Rightarrow> unit prog" where
  "volnet_reply ctx env action st m = worker_status ctx
     [(''command_id'', JStr (e_CommandID env)), (''action'', JStr action), (''status'', JStr st), (''message'', m)]"

definition handle_create_volume :: "host \<Rightarrow> cmdctx \<Rightarrow> Envelope \<Rightarrow> unit prog" where
  "handle_create_volume E ctx env =
     (let name = pstr (e_Payload env) ''name''; driver = pstr (e_Payload env) ''driver'' in
      if name = [] then volnet_reply ctx env ''create_volume'' ''failed'' (JStr ''volume name is required'')
      else do {
        r \<leftarrow> CreateVolume E name (if driver = [] then ''local'' else driver);
        (case r of
           Some e \<Rightarrow> volnet_reply ctx env ''create_volume'' ''failed''
             (JText (Fmt ''failed to create volume: %v'' [FE e]))
         | None \<Rightarrow> volnet_reply ctx env ''create_volume'' ''success'' (JText (Fmt ''volume %s created'' [FS name])))
      })"

definition handle_remove_volume :: "host \<Rightarrow> cmdctx \<Rightarrow> Envelope \<Rightarrow> unit prog" where
  "handle_remove_volume E ctx env =
     (let name = pstr (e_Payload env) ''name'' in
      if name = [] then volnet_reply ctx env ''remove_volume'' ''failed'' (JStr ''volume name is required'')
      else do {
        r \<leftarrow> RemoveVolume E name (pbool (e_Payload env) ''force'');
        (case r of
           Some e \<Rightarrow> volnet_reply ctx env ''remove_volume'' ''failed''
             (JText (Fmt ''failed to remove volume: %v'' [FE e]))
         | None \<Rightarrow> volnet_reply ctx env ''remove_volume'' ''success'' (JText (Fmt ''volume %s removed'' [FS name])))
      })"

definition handle_create_network :: "host \<Rightarrow> cmdctx \<Rightarrow> Envelope \<Rightarrow> unit prog" where
  "handle_create_network E ctx env =
     (let name = pstr (e_Payload env) ''name''; driver = pstr (e_Payload env) ''driver'' in
      if name = [] then volnet_reply ctx env ''create_network'' ''failed'' (JStr ''network name is required'')
      else do {
        r \<leftarrow> CreateNetwork E name (if driver = [] then ''bridge'' else driver);
        (case r of
           Some e \<Rightarrow> volnet_reply ctx env ''create_network'' ''failed''
             (JText (Fmt ''failed to create network: %v'' [FE e]))
         | None \<Rightarrow> volnet_reply ctx env ''create_network'' ''success'' (JText (Fmt ''network %s created'' [FS name])))
      })"

definition handle_remove_network :: "host \<Rightarrow> cmdctx \<Rightarrow> Envelope \<Rightarrow> unit prog" where
  "handle_remove_network E ctx env =
     (let name = pstr (e_Payload env) ''name'' in
      if name = [] then volnet_reply ctx env ''remove_network'' ''failed'' (JStr ''network name is required'')
      else do {
        r \<leftarrow> RemoveNetwork E name;
        (case r of
           Some e \<Rightarrow> volnet_reply ctx env ''remove_network'' ''failed''
             (JText (Fmt ''failed to remove network: %v'' [FE e]))
         | None \<Rightarrow> volnet_reply ctx env ''remove_network'' ''success'' (JText (Fmt ''network %s removed'' [FS name])))
      })"


section \<open>What a command does and answers\<close>

text \<open>A reply is a message other than a lifecycle log entry; \<open>acts_on\<close> is the container an event changes.\<close>

definition is_reply :: "event \<Rightarrow> bool" where
  "is_reply e = (case e of EvSend _ m \<Rightarrow> om_Type m \<noteq> ''lifecycle_log'' | _ \<Rightarrow> False)"

definition acts_on :: "event \<Rightarrow> string option" where
  "acts_on e = (case e of EvStart c _ \<Rightarrow> Some c | EvStop c _ _ \<Rightarrow> Some c | EvKill c _ \<Rightarrow> Some c
     | EvPause c _ \<Rightarrow> Some c | EvUnpause c _ \<Rightarrow> Some c | EvRestart c _ _ \<Rightarrow> Some c
     | EvRemove c _ _ \<Rightarrow> Some c | EvRename c _ _ \<Rightarrow> Some c | _ \<Rightarrow> None)"

definition quiet :: "event \<Rightarrow> bool" where
  "quiet e = (\<not> is_reply e \<and> acts_on e = None)"

definition requests :: "event list \<Rightarrow> event list" where
  "requests es = filter (\<lambda>e. acts_on e \<noteq> None) es"

lemma acts_on_simps [simp]:
  "acts_on (EvStart c q) = Some c" "acts_on (EvStop c t q) = Some c" "acts_on (EvKill c q) = Some c"
  "acts_on (EvPause c q) = Some c" "acts_on (EvUnpause c q) = Some c" "acts_on (EvRestart c t q) = Some c"
  "acts_on (EvRemove c f q) = Some c" "acts_on (EvSend b m) = None" "acts_on (EvExt x) = None"
  "acts_on (EvList n l) = None" "acts_on (EvTryLock k b) = None" "acts_on (EvUnlock k) = None"
  "acts_on (EvSleep z) = None" "acts_on (EvPull i a q) = None" "acts_on (EvPullRead q) = None"
  by (simp_all add: acts_on_def)

lemma is_reply_simps [simp]:
  "is_reply (EvSend b m) \<longleftrightarrow> om_Type m \<noteq> ''lifecycle_log''"
  "\<not> is_reply (EvExt x)" "\<not> is_reply (EvList n l)" "\<not> is_reply (EvTryLock k b)" "\<not> is_reply (EvUnlock k)"
  "\<not> is_reply (EvSleep z)" "\<not> is_reply (EvPull i a q)" "\<not> is_reply (EvPullRead q)"
  by (simp_all add: is_reply_def)

lemma acts_no_reply: "acts_on e = Some c \<Longrightarrow> \<not> is_reply e"
  by (cases e) (simp_all add: is_reply_def)

text \<open>
  The observer of a handler: the replies and the requests among the events so far. A quiet
  program leaves it as it is.
\<close>

definition obs_nxt :: "event list \<times> event list \<Rightarrow> event \<Rightarrow> event list \<times> event list" where
  "obs_nxt s e = (if is_reply e then fst s @ [e] else fst s, if acts_on e \<noteq> None then snd s @ [e] else snd s)"

abbreviation observed :: "event list \<times> event list \<Rightarrow> 'a prog \<Rightarrow> ('a \<Rightarrow> event list \<times> event list \<Rightarrow> bool) \<Rightarrow> bool" where
  "observed \<equiv> track (\<lambda>_ _. True) obs_nxt"

lemma obs_foldl: "foldl obs_nxt s es = (fst s @ filter is_reply es, snd s @ requests es)"
  by (induction es arbitrary: s) (auto simp: obs_nxt_def requests_def)

lemma observed_events: "observed ([], []) m Q \<Longrightarrow> Q (result m h) (filter is_reply (events m h), requests (events m h))"
  by (drule track_events [of _ _ _ _ _ h]) (simp add: obs_foldl)

lemma observed_quiet: "emits quiet m \<Longrightarrow> observed s m (\<lambda>_ t. t = s)"
  by (erule track_emits) (auto simp: quiet_def obs_nxt_def)

lemma quiet_simps [simp]: "quiet (EvExt x)" "quiet (EvList n l)" "quiet (EvTryLock k b)" "quiet (EvUnlock k)"
    "quiet (EvSleep z)" "quiet (EvPull i a q)" "quiet (EvPullRead q)"
  by (simp_all add: quiet_def)

lemma quiet_calls [emits_intros]:
  "emits quiet (sendLifecycleLog ctx n ev m)" "emits quiet (sendLifecycleWarn ctx n ev m)"
  "emits quiet (FindContainerByName E n)" "emits quiet (LockContainer E n)" "emits quiet (unlock u)"
  "emits quiet (PullImage E im au)" "emits quiet (findAllMatchingContainers E n)"
  "emits quiet (FindCanonicalContainer E n)"
proof -
  show "emits quiet (LockContainer E n)" by (rule emits_LockContainer) simp_all
  show "emits quiet (sendLifecycleLog ctx n ev m)" "emits quiet (sendLifecycleWarn ctx n ev m)"
    by (auto simp: sendLifecycleLog_def sendLifecycleWarn_def wsSend_def quiet_def intro!: emits_intros)
  show find: "emits quiet (FindContainerByName E n)" for n
    by (auto simp: client_ops intro!: emits_intros)
  show all: "emits quiet (findAllMatchingContainers E n)" for n
    by (auto simp: findAllMatchingContainers_def client_ops intro!: emits_intros)
  show "emits quiet (FindCanonicalContainer E n)"
    by (auto simp: FindCanonicalContainer_def intro!: emits_intros find all split: list.splits)
qed (auto simp: client_ops unlock_def intro!: emits_intros split: option.splits)

lemmas observed_quiets = track_bind [OF observed_quiet [OF quiet_calls(1)]]
  track_bind [OF observed_quiet [OF quiet_calls(2)]] track_bind [OF observed_quiet [OF quiet_calls(3)]]
  track_bind [OF observed_quiet [OF quiet_calls(4)]] track_bind [OF observed_quiet [OF quiet_calls(6)]]

text \<open>
  \<open>answered ctx name action R s\<close>: there was exactly one reply, the status of the named
  container for this action, and \<open>R\<close> relates its fields to the requests.
\<close>

definition status_event :: "cmdctx \<Rightarrow> string \<Rightarrow> string \<Rightarrow> payload \<Rightarrow> event" where
  "status_event ctx name action fs = EvSend False (stampIDs ctx (status_msg name action fs))"

definition answered ::
  "cmdctx \<Rightarrow> string \<Rightarrow> string \<Rightarrow> (payload \<Rightarrow> event list \<Rightarrow> bool) \<Rightarrow> event list \<times> event list \<Rightarrow> bool" where
  "answered ctx name action R s = (\<exists>fs. fst s = [status_event ctx name action fs] \<and> R fs (snd s))"

definition refused :: "payload \<Rightarrow> event list \<Rightarrow> bool" where
  "refused fs es = (es = [] \<and> map_of fs ''status'' \<in> {Some (JStr ''error''), Some (JStr ''failed'')})"

lemma observed_status:
  assumes "R fs qs"
  shows "observed ([], qs) (wsSend ctx (status_msg name action fs)) (\<lambda>_. answered ctx name action R)"
  unfolding wsSend_def
  by (rule track_emit)
    (use assms in \<open>auto simp: answered_def status_event_def obs_nxt_def status_msg_def\<close>)

lemma observed_refuse:
  assumes "\<And>fs. refused fs [] \<Longrightarrow> R fs []"
  shows "observed ([], []) (send_error ctx name action m) (\<lambda>_. answered ctx name action R)"
    "observed ([], []) (send_failed ctx name action j) (\<lambda>_. answered ctx name action R)"
  unfolding send_error_def send_failed_def
  by (rule observed_status, rule assms, simp add: refused_def)+

lemma observed_with_container:
  assumes "\<And>name. observed ([], []) (body name) (\<lambda>_. answered ctx name action R)" and "\<And>fs. refused fs [] \<Longrightarrow> R fs []"
  shows "observed ([], []) (with_container E ctx env action body)
    (\<lambda>_. answered ctx (pstr (e_Payload env) ''container_name'') action R)"
  unfolding with_container_def Let_def
  by (auto intro!: track_intros observed_quiets observed_refuse [of R, OF assms(2)] track_bind [OF assms(1)]
      track_mono [OF observed_quiet [OF quiet_calls(5)]])

lemma observed_pooled: "observed s m (\<lambda>_. P) \<Longrightarrow> observed s (pooled t m) (\<lambda>_. P)"
  unfolding pooled_def
  by (rule track_bind_emit) (auto simp: obs_nxt_def elim!: track_bind intro!: track_intros)

lemma observed_lookup:
  assumes "\<And>cid. observed ([], []) (body cid) (\<lambda>_. answered ctx name action R)" and "\<And>fs. refused fs [] \<Longrightarrow> R fs []"
  shows "observed ([], []) (lookup_container E ctx name action body) (\<lambda>_. answered ctx name action R)"
  unfolding lookup_container_def
  by (auto intro!: track_intros observed_quiets observed_refuse [of R, OF assms(2)] assms(1))

section \<open>The contract of a command with one request\<close>

text \<open>
  A container action is a request that produces one event on the container it is given; the
  law is what the handlers rely on to answer for it.
\<close>

definition one_request :: "(string \<Rightarrow> goerr option \<Rightarrow> event) \<Rightarrow> payload \<Rightarrow> event list \<Rightarrow> bool" where
  "one_request touch fs es = (refused fs es \<or>
     (\<exists>c r. es = [touch c r] \<and> map_of fs ''status'' = Some (JStr (if r = None then ''success'' else ''failed''))))"

locale container_action =
  fixes action :: string and busy :: "string \<Rightarrow> gotext" and req :: "host \<Rightarrow> string \<Rightarrow> goerr option prog"
    and failed :: string and touch :: "string \<Rightarrow> goerr option \<Rightarrow> event"
  assumes req_does: "does (req E c) (\<lambda>r es. es = [touch c r])"
    and touch_acts: "acts_on (touch c r) = Some c"
begin

lemma observed_req: "observed ([], []) (req E c) (\<lambda>r s. s = ([], [touch c r]))"
  unfolding track_def
  by (rule does_mono [OF req_does])
    (use touch_acts acts_no_reply [OF touch_acts] in \<open>simp add: obs_nxt_def accepted_append\<close>)

lemma reply:
  "observed ([], []) (simple_command E ctx env action busy req failed)
     (\<lambda>_. answered ctx (pstr (e_Payload env) ''container_name'') action (one_request touch))"
proof -
  have R: "one_request touch [(''status'', JStr ''failed''), (''message'', JText e)] [touch c (Some e)]"
    "one_request touch [(''status'', JStr ''success'')] [touch c None]" for c e
    unfolding one_request_def by (rule disjI2, rule exI [of _ c], fastforce)+
  note sends = observed_status [where R = "one_request touch", OF R(1), folded send_failed_def] observed_status [where R = "one_request touch", OF R(2), folded send_success_def]
  show ?thesis
    unfolding simple_command_def
    by (intro observed_pooled observed_with_container observed_lookup)
      (auto intro!: track_intros observed_quiets track_bind [OF observed_req] sends simp: one_request_def)
qed

end

lemmas request_does = StopContainer_def StartContainer_def KillContainer_def PauseContainer_def
  UnpauseContainer_def RestartContainer_def RemoveContainer_def

interpretation stop_action: container_action "''stop''"
  "\<lambda>cid. Fmt ''stopping container (timeout=30s, id=%s)...'' [FS (take 12 cid)]"
  "\<lambda>E cid. StopContainer E cid 30" "''failed to stop: %v''" "\<lambda>c. EvStop c 30"
  by unfold_locales (auto simp: request_does intro!: does_intros)

interpretation start_action: container_action "''start''"
  "\<lambda>cid. Fmt ''starting container (id=%s)...'' [FS (take 12 cid)]"
  StartContainer "''failed to start: %v''" EvStart
  by unfold_locales (auto simp: request_does intro!: does_intros)

interpretation kill_action: container_action "''kill''"
  "\<lambda>cid. Fmt ''sending SIGKILL to container (id=%s)...'' [FS (take 12 cid)]"
  KillContainer "''failed to kill: %v''" EvKill
  by unfold_locales (auto simp: request_does intro!: does_intros)

interpretation pause_action: container_action "''pause''"
  "\<lambda>cid. Fmt ''pausing container (id=%s)...'' [FS (take 12 cid)]"
  PauseContainer "''failed to pause: %v''" EvPause
  by unfold_locales (auto simp: request_does intro!: does_intros)

interpretation unpause_action: container_action "''unpause''"
  "\<lambda>cid. Fmt ''resuming container (id=%s)...'' [FS (take 12 cid)]"
  UnpauseContainer "''failed to resume: %v''" EvUnpause
  by unfold_locales (auto simp: request_does intro!: does_intros)

interpretation restart_action: container_action "''restart''"
  "\<lambda>cid. Fmt ''restarting container (timeout=30s, id=%s)... container will stop then start'' [FS (take 12 cid)]"
  "\<lambda>E cid. RestartContainer E cid 30" "''failed to restart: %v''" "\<lambda>c. EvRestart c 30"
  by unfold_locales (auto simp: request_does intro!: does_intros)

text \<open>A removal: a stop whose outcome does not matter, then the removal of the same container.\<close>

definition removal_requests :: "payload \<Rightarrow> event list \<Rightarrow> bool" where
  "removal_requests fs es = (refused fs es \<or>
     (\<exists>c q r. es = [EvStop c 10 q, EvRemove c True r] \<and>
       map_of fs ''status'' = Some (JStr (if r = None then ''success'' else ''failed''))))"

lemma remove_reply:
  "observed ([], []) (handle_remove E ctx env)
     (\<lambda>_. answered ctx (pstr (e_Payload env) ''container_name'') ''remove'' removal_requests)"
proof -
  have R: "removal_requests [(''status'', JStr ''failed''), (''message'', JText e)] [EvStop c 10 q, EvRemove c True (Some e)]"
    "removal_requests [(''status'', JStr ''success'')] [EvStop c 10 q, EvRemove c True None]" for c e q
    unfolding removal_requests_def by (rule disjI2, rule exI [of _ c], rule exI [of _ q], fastforce)+
  note sends = observed_status [where R = removal_requests, OF R(1), folded send_failed_def] observed_status [where R = removal_requests, OF R(2), folded send_success_def]
  have [simp]: "obs_nxt (rs, qs) (EvStop c t q) = (rs, qs @ [EvStop c t q])"
    "obs_nxt (rs, qs) (EvRemove c f q) = (rs, qs @ [EvRemove c f q])" for rs qs c t f q
    by (simp_all add: obs_nxt_def is_reply_def)
  show ?thesis
    unfolding handle_remove_def request_does
    by (intro observed_pooled observed_with_container observed_lookup)
      (auto intro!: track_intros observed_quiets sends simp: removal_requests_def)
qed

section \<open>Which container a command may change, and when\<close>

text \<open>
  The monitor of a container command: the ids that the last listing showed under the
  command's name, whether the container's lock has been asked for and whether it has been
  released. Only a container found under the name may be changed, and only in between.
\<close>

record cmon =
  cm_found :: "string list"
  cm_tried :: bool
  cm_released :: bool

definition cm_init :: cmon where
  "cm_init = \<lparr>cm_found = [], cm_tried = False, cm_released = False\<rparr>"

definition cm_nxt :: "string \<Rightarrow> cmon \<Rightarrow> event \<Rightarrow> cmon" where
  "cm_nxt name s e = (case e of
     EvList n (Inr cs) \<Rightarrow> if n = name
       then s\<lparr>cm_found := map ct_ID (filter (\<lambda>c. name \<in> set (names_of c)) cs)\<rparr> else s
   | EvTryLock k b \<Rightarrow> if k = CanonicalContainerName name then s\<lparr>cm_tried := True\<rparr> else s
   | EvUnlock k \<Rightarrow> s\<lparr>cm_released := True\<rparr>
   | _ \<Rightarrow> s)"

definition cm_ok :: "cmon \<Rightarrow> event \<Rightarrow> bool" where
  "cm_ok s e = (case acts_on e of
     Some c \<Rightarrow> c \<in> set (cm_found s) \<and> cm_tried s \<and> \<not> cm_released s
   | None \<Rightarrow> True)"

lemma cm_simps [simp]:
  "cm_nxt n s (EvSend b m) = s" "cm_nxt n s (EvExt x) = s" "cm_nxt n s (EvSleep z) = s"
  "cm_nxt n s (EvTryLock (CanonicalContainerName n) b) = s\<lparr>cm_tried := True\<rparr>"
  "acts_on e = Some c \<Longrightarrow> cm_nxt n s e = s" "acts_on e = None \<Longrightarrow> cm_ok s e"
  by (simp_all add: cm_nxt_def cm_ok_def) (cases e; simp add: acts_on_def)

abbreviation guarded :: "string \<Rightarrow> cmon \<Rightarrow> 'a prog \<Rightarrow> ('a \<Rightarrow> cmon \<Rightarrow> bool) \<Rightarrow> bool" where
  "guarded name \<equiv> track cm_ok (cm_nxt name)"

lemma guarded_LockContainer:
  "guarded name s (LockContainer E name) (\<lambda>_ t. t = s\<lparr>cm_tried := True\<rparr>)"
proof -
  let ?key = "CanonicalContainerName name"
  have wait: "emits (\<lambda>e. (\<exists>b. e = EvTryLock ?key b) \<or> (\<exists>z. e = EvSleep z)) (lock_wait E ?key k)" for k
  proof (induction "2400 - k" arbitrary: k rule: less_induct)
    case less
    show ?case by (subst lock_wait.simps, auto simp: try_lock_def intro!: emits_intros less)
  qed
  have "guarded name t (lock_wait E ?key 0) (\<lambda>_ u. u = t)" if "t = s\<lparr>cm_tried := True\<rparr>" for t
    by (rule track_emits [OF wait]) (use that in auto)
  then show ?thesis
    unfolding LockContainer_def Let_def try_lock_def by (auto intro!: track_intros)
qed

lemma guarded_quiet:
  "guarded name s (sendLifecycleLog ctx n ev m) (\<lambda>_ t. t = s)"
  "guarded name s (sendLifecycleWarn ctx n ev m) (\<lambda>_ t. t = s)"
  "guarded name s (wsSend ctx ms) (\<lambda>_ t. t = s)"
  "guarded name s (unlock u) (\<lambda>_ t. True)"
  by (auto simp: sendLifecycleLog_def sendLifecycleWarn_def wsSend_def unlock_def
      intro!: track_intros split: option.splits)

lemma find_in_filter: "find P xs = Some x \<Longrightarrow> x \<in> set (filter P xs)"
  by (auto simp: find_Some_iff)

lemma guarded_find:
  "guarded name s (FindContainerByName E name) (\<lambda>r t. cm_tried t = cm_tried s \<and> cm_released t = cm_released s \<and>
     (case r of Inr i \<Rightarrow> i \<noteq> [] \<longrightarrow> i \<in> set (cm_found t) | Inl e \<Rightarrow> True))"
  unfolding client_ops
  by (auto intro!: track_intros simp: cm_nxt_def dest!: find_in_filter split: sum.splits option.splits)

lemmas guarded_binds = track_bind [OF guarded_quiet(1)] track_bind [OF guarded_quiet(2)]
  track_bind [OF guarded_LockContainer] track_bind [OF guarded_find] guarded_quiet(3) [THEN track_mono]

lemmas reply_defs = send_error_def send_failed_def send_success_def worker_status_def

definition in_charge :: "string \<Rightarrow> cmon \<Rightarrow> bool" where
  "in_charge cid s = (cid \<in> set (cm_found s) \<and> cm_tried s \<and> \<not> cm_released s)"

lemma cm_okI: "acts_on e = Some c \<Longrightarrow> in_charge c s \<Longrightarrow> cm_ok s e"
  by (simp add: cm_ok_def in_charge_def)

lemma guarded_command:
  assumes "\<And>name cid s. in_charge cid s \<Longrightarrow> guarded name s (body name cid) (\<lambda>_ t. True)"
  shows "guarded (pstr (e_Payload env) ''container_name'') cm_init
    (pooled t (with_container E ctx env action (\<lambda>name. lookup_container E ctx name action (body name)))) (\<lambda>_ _. True)"
  unfolding pooled_def with_container_def lookup_container_def reply_defs Let_def
  by (auto intro!: track_intros guarded_binds track_bind [OF guarded_quiet(3)] track_bind [OF guarded_quiet(4)]
      track_bind [OF assms] simp: cm_init_def in_charge_def split: sum.splits)

definition container_command :: "host \<Rightarrow> cmdctx \<Rightarrow> Envelope \<Rightarrow> unit prog" where
  "container_command E ctx env =
     (if e_Type env = ''stop'' then handle_stop E ctx env
      else if e_Type env = ''start'' then handle_start E ctx env
      else if e_Type env = ''kill'' then handle_kill E ctx env
      else if e_Type env = ''pause'' then handle_pause E ctx env
      else if e_Type env = ''unpause'' then handle_unpause E ctx env
      else if e_Type env = ''restart'' then handle_restart E ctx env
      else if e_Type env = ''remove'' then handle_remove E ctx env
      else if e_Type env = ''force_remove'' then handle_force_remove E ctx env
      else ret ())"

lemma guarded_force_remove:
  "guarded (pstr (e_Payload env) ''container_name'') cm_init (handle_force_remove E ctx env) (\<lambda>_ _. True)"
  unfolding handle_force_remove_def pooled_def reply_defs request_does Let_def
  by (auto intro!: track_intros guarded_binds track_bind [OF guarded_quiet(3)] track_bind [OF guarded_quiet(4)]
      simp: cm_init_def in_charge_def cm_okI split: sum.splits)

lemma guarded_container_command:
  "guarded (pstr (e_Payload env) ''container_name'') cm_init (container_command E ctx env) (\<lambda>_ _. True)"
proof -
  have one: "guarded (pstr (e_Payload env) ''container_name'') cm_init
      (simple_command E ctx env action busy req failed) (\<lambda>_ _. True)"
    if "\<And>name cid s. in_charge cid s \<Longrightarrow> guarded name s (req E cid) (\<lambda>_ t. True)" for action busy req failed
    unfolding simple_command_def
    by (rule guarded_command) (auto intro!: track_intros guarded_binds track_bind [OF that] simp: reply_defs)
  have remove: "guarded (pstr (e_Payload env) ''container_name'') cm_init (handle_remove E ctx env) (\<lambda>_ _. True)"
    unfolding handle_remove_def
    by (rule guarded_command)
      (auto intro!: track_intros guarded_binds simp: reply_defs request_does cm_okI)
  show ?thesis
    unfolding container_command_def handle_stop_def handle_start_def handle_kill_def handle_pause_def
      handle_unpause_def handle_restart_def
    by (auto intro!: track_if one remove guarded_force_remove track_intros simp: request_does cm_okI)
qed

section \<open>Properties of the container commands\<close>


text \<open>The request event of each command that sends one.\<close>

definition touch_of :: "string \<Rightarrow> string \<Rightarrow> goerr option \<Rightarrow> event" where
  "touch_of action =
     (if action = ''stop'' then (\<lambda>c. EvStop c 30)
      else if action = ''start'' then EvStart
      else if action = ''kill'' then EvKill
      else if action = ''pause'' then EvPause
      else if action = ''unpause'' then EvUnpause
      else (\<lambda>c. EvRestart c 30))"

text \<open>
  a container command is answered exactly once, and truthfully. For stop, start, kill,
  pause, unpause and restart, the one reply is the status of the named container for this
  action; it says success if and only if the one request of the command was sent and
  succeeded, and a command that is refused sends no request.
\<close>

theorem container_command_answers:
  assumes "e_Type env \<in> {''stop'', ''start'', ''kill'', ''pause'', ''unpause'', ''restart''}"
  shows "\<exists>fs. filter is_reply (events (container_command E ctx env) h) =
      [status_event ctx (pstr (e_Payload env) ''container_name'') (e_Type env) fs] \<and>
    one_request (touch_of (e_Type env)) fs (requests (events (container_command E ctx env) h))"
proof -
  have "observed ([], []) (container_command E ctx env)
      (\<lambda>_. answered ctx (pstr (e_Payload env) ''container_name'') (e_Type env) (one_request (touch_of (e_Type env))))"
    using assms stop_action.reply start_action.reply kill_action.reply pause_action.reply unpause_action.reply
      restart_action.reply
    by (elim insertE emptyE; simp add: container_command_def handle_stop_def handle_start_def handle_kill_def
        handle_pause_def handle_unpause_def handle_restart_def touch_of_def cong: if_cong)
  from observed_events [OF this, of h] show ?thesis by (simp add: answered_def)
qed

theorem container_command_answers_witness:
  "\<exists>fs. filter is_reply (events (container_command calm_host
       \<lparr>cx_Command = None, cx_RequestID = [], cx_TraceID = [], cx_JobID = []\<rparr>
       \<lparr>e_Type = ''kill'', e_CommandID = [], e_RequestID = [], e_TraceID = [], e_Payload = []\<rparr>) []) =
     [status_event \<lparr>cx_Command = None, cx_RequestID = [], cx_TraceID = [], cx_JobID = []\<rparr> [] ''kill'' fs]"
  using container_command_answers [of "\<lparr>e_Type = ''kill'', e_CommandID = [], e_RequestID = [], e_TraceID = [], e_Payload = []\<rparr>"
      calm_host "\<lparr>cx_Command = None, cx_RequestID = [], cx_TraceID = [], cx_JobID = []\<rparr>" "[]"]
  by (auto simp: pstr_def)

text \<open>
  A removal is answered exactly once, and truthfully: the container is stopped and then
  removed whether or not the stop succeeded, and the reply says success if and only if the
  removal did.
\<close>

theorem remove_command_answers:
  "\<exists>fs. filter is_reply (events (handle_remove E ctx env) h) =
      [status_event ctx (pstr (e_Payload env) ''container_name'') ''remove'' fs] \<and>
    removal_requests fs (requests (events (handle_remove E ctx env) h))"
  using observed_events [OF remove_reply] by (simp add: answered_def)

section \<open>stop_all and start_all\<close>

definition succeeded :: "event \<Rightarrow> bool" where
  "succeeded e = (case e of EvStop _ _ r \<Rightarrow> r = None | EvStart _ r \<Rightarrow> r = None | _ \<Rightarrow> False)"

lemma track_extends: "track ok nxt s m Q \<Longrightarrow> extends m"
  unfolding track_def by (rule does_extends)

lemma events_bind_request:
  assumes "\<And>r. extends (f r)"
  shows "events (State_Monad.bind (request ask ev) f) h = ev (ask h) # events (f (ask h)) (h @ [ev (ask h)])"
proof -
  obtain es where "final_hist (f (ask h)) (h @ [ev (ask h)]) = (h @ [ev (ask h)]) @ es"
    using assms [of "ask h"] unfolding emits_def by blast
  then show ?thesis by (simp add: events_def final_hist_def request_def)
qed

lemma observed_all_loop:
  assumes "\<And>n k. emits quiet (note_ev n k)"
    and "\<And>c rs qs. observed (rs, qs) (req c) (\<lambda>r t. \<exists>e. t = (rs, qs @ [e]) \<and> acts_on e = Some c \<and> (r = None \<longleftrightarrow> succeeded e))"
  shows "observed (rs, qs) (all_loop note_ev req cs (a, b)) (\<lambda>n t. \<exists>q. t = (rs, qs @ q) \<and>
    map acts_on q = map (\<lambda>c. Some (ct_ID c)) cs \<and>
    n = (a + length (filter succeeded q), b + length (filter (\<lambda>e. \<not> succeeded e) q)))"
proof (induction cs arbitrary: qs a b)
  case Nil
  show ?case by (auto intro!: track_intros)
next
  case (Cons c cs)
  have note_q: "observed s (if shown_name c \<noteq> [] then note_ev (shown_name c) k else ret ()) (\<lambda>_ t. t = s)" for s k
  proof (cases "shown_name c = []")
    case True
    then show ?thesis by (auto intro: track_ret)
  qed (simp add: observed_quiet assms(1))
  have rest: "observed (rs, qs @ [e]) (all_loop note_ev req cs (a', b')) (\<lambda>n t. \<exists>q. t = (rs, qs @ q) \<and>
      map acts_on q = Some (ct_ID c) # map (\<lambda>c. Some (ct_ID c)) cs \<and>
      n = (a + length (filter succeeded q), b + length (filter (\<lambda>e. \<not> succeeded e) q)))"
    if "acts_on e = Some (ct_ID c)" "(a', b') = (if succeeded e then (Suc a, b) else (a, Suc b))" for e a' b'
    by (rule track_mono [OF Cons.IH], elim exE conjE, rule_tac x = "e # q" in exI)
      (use that in \<open>auto split: if_splits\<close>)
  show ?case unfolding all_loop.simps
    apply (rule track_bind [where P = "\<lambda>_ t. t = (rs, qs)"], rule note_q)
    apply (simp only:)
    apply (rule track_bind [OF assms(2)])
    apply (auto intro!: track_intros rest split: option.splits)
    done
qed

definition all_done :: "cmdctx \<Rightarrow> string \<Rightarrow> string \<Rightarrow> container list \<Rightarrow> event list \<times> event list \<Rightarrow> bool" where
  "all_done ctx action text cs s = (map acts_on (snd s) = map (\<lambda>c. Some (ct_ID c)) cs \<and>
     fst s = [EvSend False (stampIDs ctx (msg ''worker_action_status''
       [(''action'', JStr action), (''status'', JStr ''success''),
        (''message'', JText (Fmt text [FD (int (length (filter succeeded (snd s)))),
           FD (int (length (filter (\<lambda>e. \<not> succeeded e) (snd s))))]))]))])"

lemma observed_action_status:
  "Q () (rs @ [EvSend False (stampIDs ctx (msg ''worker_action_status''
      [(''action'', JStr action), (''status'', JStr st), (''message'', m)]))], qs) \<Longrightarrow>
   observed (rs, qs) (action_status ctx action st m) Q"
  unfolding action_status_def worker_status_def wsSend_def
  by (rule track_emit) (simp_all add: obs_nxt_def)

lemma observed_stop_each:
  "observed ([], []) (stop_each E ctx r) (\<lambda>_ s. case r of Inl e \<Rightarrow> snd s = [] \<and> length (fst s) = 1
     | Inr cs \<Rightarrow> all_done ctx ''stop_all'' ''stopped %d containers, %d failed'' (filter (\<lambda>c. ct_State c = ''running'') cs) s)"
proof -
  have q: "emits quiet (sendLifecycleLog ctx n ''stop'' m)" for n m by (rule quiet_calls)
  have r: "observed (rs, qs) (StopContainer E c 30)
      (\<lambda>r t. \<exists>e. t = (rs, qs @ [e]) \<and> acts_on e = Some c \<and> (r = None \<longleftrightarrow> succeeded e))" for rs qs c
    unfolding StopContainer_def
    by (rule track_request) (auto simp: obs_nxt_def is_reply_def succeeded_def)
  show ?thesis
    unfolding stop_each_def Let_def
    by (auto intro!: track_intros observed_action_status track_bind [OF observed_all_loop [OF q r]]
        simp: all_done_def split: sum.splits)
qed

text \<open>
  stop_all stops every running container once and counts the outcome. When the listing
  fails nothing is stopped; otherwise the requests are exactly one stop for each container
  that it showed as running, in that order, and the one reply tells how many of them
  succeeded and how many failed.
\<close>

theorem stop_all_complete:
  "case ContainerList E h '''' of
     Inl e \<Rightarrow> requests (events (handle_stop_all E ctx) h) = []
   | Inr cs \<Rightarrow> all_done ctx ''stop_all'' ''stopped %d containers, %d failed'' (filter (\<lambda>c. ct_State c = ''running'') cs)
       (filter is_reply (events (handle_stop_all E ctx) h), requests (events (handle_stop_all E ctx) h))"
proof -
  let ?r = "ContainerList E h ''''"
  have "events (handle_stop_all E ctx) h = EvList '''' ?r # events (stop_each E ctx ?r) (h @ [EvList '''' ?r])"
    unfolding handle_stop_all_def ListContainers_def
    by (rule events_bind_request [OF track_extends [OF observed_stop_each]])
  with observed_events [OF observed_stop_each [of E ctx ?r], of "h @ [EvList '''' ?r]"] show ?thesis
    by (auto simp: requests_def split: sum.splits)
qed

end
