(* ===== verification/Ws_Client.thy ===== *)
theory Ws_Client
  imports Host Transitions
begin

text \<open>
  The connection to the orchestrator (client/websocket.go): the bounded send queue with its
  best-effort and its reliable entry, the counters of dropped messages, the two pumps, the
  reconnect loop and the drain at shutdown. The goroutines that share the client are the
  step relation \<open>wstep\<close>. An encoded message is identified with the message it encodes; the
  error of the encoder is the left side of the argument of a send.
\<close>

section \<open>The client and its operations\<close>

definition send_cap :: nat where
  "send_cap = 256"

record WSClient =
  send :: "message list"
  drops :: "(string \<times> int) list option"
  has_conn :: bool
  closed :: bool

definition NewWSClient :: WSClient where
  "NewWSClient = \<lparr>send = [], drops = None, has_conn = False, closed = False\<rparr>"

definition ErrSendQueueFull :: goerr where
  "ErrSendQueueFull = Fmt ''send queue full'' []"

definition reliableSendTimeout :: int where
  "reliableSendTimeout = 10"

definition messageType :: "message \<Rightarrow> string" where
  "messageType m = (if om_Type m = [] then ''untyped'' else om_Type m)"

definition count_of :: "(string \<times> int) list option \<Rightarrow> string \<Rightarrow> int" where
  "count_of d t = (case d of None \<Rightarrow> 0 | Some m \<Rightarrow> (case map_of m t of None \<Rightarrow> 0 | Some n \<Rightarrow> n))"

definition countDrop :: "string \<Rightarrow> WSClient \<Rightarrow> WSClient" where
  "countDrop t c = c\<lparr>drops := Some (AList.update t (count_of (drops c) t + 1)
     (case drops c of None \<Rightarrow> [] | Some m \<Rightarrow> m))\<rparr>"

definition TakeDrops :: "WSClient \<Rightarrow> (string \<times> int) list \<times> WSClient" where
  "TakeDrops c = (case drops c of None \<Rightarrow> [] | Some m \<Rightarrow> m, c\<lparr>drops := None\<rparr>)"

definition QueueStats :: "WSClient \<Rightarrow> nat \<times> nat" where
  "QueueStats c = (length (send c), send_cap)"

definition room :: "WSClient \<Rightarrow> bool" where
  "room c = (length (send c) < send_cap)"

definition SendJSON :: "message res \<Rightarrow> WSClient \<Rightarrow> goerr option \<times> WSClient" where
  "SendJSON b c = (case b of
     Inl e \<Rightarrow> (Some (Fmt ''marshal: %w'' [FE e]), c)
   | Inr m \<Rightarrow> if room c then (None, c\<lparr>send := send c @ [m]\<rparr>)
              else (Some ErrSendQueueFull, countDrop (messageType m) c))"

text \<open>
  \<open>SendJSONReliable\<close> at the moment it ends: it has entered the queue, which then has room, or
  its timer has run out.
\<close>

definition SendJSONReliable :: "bool \<Rightarrow> message res \<Rightarrow> WSClient \<Rightarrow> goerr option \<times> WSClient" where
  "SendJSONReliable timeout b c = (case b of
     Inl e \<Rightarrow> (Some (Fmt ''marshal: %w'' [FE e]), c)
   | Inr m \<Rightarrow> if \<not> timeout \<and> room c then (None, c\<lparr>send := send c @ [m]\<rparr>)
              else (Some (Fmt ''%w after %v'' [FE ErrSendQueueFull, FD reliableSendTimeout]),
                    countDrop (messageType m) c))"

text \<open>A successful \<open>dial\<close> stores the connection and opens the client again.\<close>

definition dialled :: "WSClient \<Rightarrow> WSClient" where
  "dialled c = c\<lparr>has_conn := True, closed := False\<rparr>"

definition close :: "WSClient \<Rightarrow> WSClient" where
  "close c = (if \<not> closed c \<and> has_conn c then c\<lparr>closed := True\<rparr> else c)"

text \<open>
  One round of \<open>writePump\<close> that takes a message: what is left of the queue, the message, and
  whether it was written; the pump goes on exactly in that case. A ping goes on likewise.
\<close>

definition pump_message :: "bool \<Rightarrow> WSClient \<Rightarrow> (WSClient \<times> message \<times> bool) option" where
  "pump_message write_ok c = (case send c of
     [] \<Rightarrow> None
   | m # ms \<Rightarrow> Some (c\<lparr>send := ms\<rparr>, m, \<not> closed c \<and> write_ok))"

definition pump_ping :: "bool \<Rightarrow> WSClient \<Rightarrow> bool" where
  "pump_ping write_ok c = (\<not> closed c \<and> write_ok)"

text \<open>
  One round of \<open>readPump\<close>: a read error ends it, a message that is not valid JSON is skipped,
  an envelope is handed to the handler. The second component is what the handler gets.
\<close>

definition readPump_round :: "goerr + 'env option \<Rightarrow> bool \<times> 'env option" where
  "readPump_round r = (case r of Inl e \<Rightarrow> (False, None) | Inr None \<Rightarrow> (True, None) | Inr (Some env) \<Rightarrow> (True, Some env))"

text \<open>
  \<open>Drain\<close>: round \<open>i\<close> reads the clock as \<open>clock i\<close> (milliseconds) and the length of the queue
  as \<open>len i\<close>. The loop need not end for every clock; its result is the round it ended in.
\<close>

partial_function (option) drain_from :: "(nat \<Rightarrow> int) \<Rightarrow> (nat \<Rightarrow> nat) \<Rightarrow> int \<Rightarrow> nat \<Rightarrow> nat option" where
  "drain_from clock len deadline i =
     (if clock i < deadline then (if len i = 0 then Some i else drain_from clock len deadline (Suc i))
      else Some i)"

definition Drain :: "(nat \<Rightarrow> int) \<Rightarrow> (nat \<Rightarrow> nat) \<Rightarrow> int \<Rightarrow> nat option" where
  "Drain clock len timeout = drain_from clock len (clock 0 + timeout) 1"

section \<open>The client among its goroutines\<close>

text \<open>
  \<open>Connect\<close> dials, runs the two pumps and waits for both before it dials again;
  \<open>Up r w\<close> tells which pumps run. The reader cancels the run when it ends, and the writer
  may see that, a failed write, or a closed client. The remaining fields are the history:
  messages accepted by the queue, messages taken from it with their fate, types of refused
  messages, counts reported by \<open>TakeDrops\<close>, and the number of connections made.
\<close>

datatype conn = Idle | Up bool bool | Stopped

record wnet =
  cl :: WSClient
  phase :: conn
  g_accepted :: "message list"
  g_taken :: "(message \<times> bool) list"
  g_refused :: "string list"
  g_reported :: "string \<Rightarrow> int"
  g_dials :: nat

definition enqueue_result :: "message \<Rightarrow> goerr option \<times> WSClient \<Rightarrow> wnet \<Rightarrow> wnet" where
  "enqueue_result m r n = (case fst r of
     None \<Rightarrow> n\<lparr>cl := snd r, g_accepted := g_accepted n @ [m]\<rparr>
   | Some e \<Rightarrow> n\<lparr>cl := snd r, g_refused := messageType m # g_refused n\<rparr>)"

inductive wstep :: "wnet \<Rightarrow> wnet \<Rightarrow> bool" where
  send_best: "wstep n (enqueue_result m (SendJSON (Inr m) (cl n)) n)"
| send_reliable: "timeout \<or> room (cl n) \<Longrightarrow>
    wstep n (enqueue_result m (SendJSONReliable timeout (Inr m) (cl n)) n)"
| take_drops: "TakeDrops (cl n) = (d, c) \<Longrightarrow>
    wstep n (n\<lparr>cl := c, g_reported := (\<lambda>t. g_reported n t + count_of (Some d) t)\<rparr>)"
| dial_ok: "phase n = Idle \<Longrightarrow> wstep n (n\<lparr>cl := dialled (cl n), phase := Up True True, g_dials := g_dials n + 1\<rparr>)"
| write_message: "phase n = Up r True \<Longrightarrow> pump_message ok (cl n) = Some (c, m, written) \<Longrightarrow>
    wstep n (n\<lparr>cl := c, phase := Up r written, g_taken := g_taken n @ [(m, written)]\<rparr>)"
| write_ping: "phase n = Up r True \<Longrightarrow> wstep n (n\<lparr>phase := Up r (pump_ping ok (cl n))\<rparr>)"
| writer_cancelled: "phase n = Up r True \<Longrightarrow> wstep n (n\<lparr>phase := Up r False\<rparr>)"
| reader_end: "phase n = Up True w \<Longrightarrow> wstep n (n\<lparr>phase := Up False w\<rparr>)"
| run_end: "phase n = Up False False \<Longrightarrow> wstep n (n\<lparr>cl := close (cl n), phase := Idle\<rparr>)"
| shutdown_close: "wstep n (n\<lparr>cl := close (cl n)\<rparr>)"
| connect_return: "phase n = Idle \<Longrightarrow> wstep n (n\<lparr>phase := Stopped\<rparr>)"

inductive_cases wstepE: "wstep n n'"

definition wstart :: "wnet \<Rightarrow> bool" where
  "wstart n = (cl n = NewWSClient \<and> phase n = Idle \<and> g_accepted n = [] \<and> g_taken n = [] \<and>
     g_refused n = [] \<and> g_reported n = (\<lambda>_. 0) \<and> g_dials n = 0)"

section \<open>The invariant of the client\<close>

definition lost :: "wnet \<Rightarrow> message list" where
  "lost n = map fst (filter (\<lambda>(m, written). \<not> written) (g_taken n))"

definition delivered :: "wnet \<Rightarrow> message list" where
  "delivered n = map fst (filter snd (g_taken n))"

definition writing :: "wnet \<Rightarrow> bool" where
  "writing n = (case phase n of Up r w \<Rightarrow> w | _ \<Rightarrow> False)"

text \<open>
  The queue is bounded; it is the rest of what it accepted, so messages leave in the order
  they came; each connection loses at most one message, because its writer ends with the
  write that fails; every refusal is counted once, for its type.
\<close>

definition winv :: "wnet \<Rightarrow> bool" where
  "winv n = (length (send (cl n)) \<le> send_cap \<and>
     g_accepted n = map fst (g_taken n) @ send (cl n) \<and>
     length (lost n) + (if writing n then 1 else 0) \<le> g_dials n \<and>
     (\<forall>t. int (count_list (g_refused n) t) = g_reported n t + count_of (drops (cl n)) t))"

lemma count_of_countDrop: "count_of (drops (countDrop t c)) u = count_of (drops c) u + (if u = t then 1 else 0)"
  by (auto simp: count_of_def countDrop_def update_conv' split: option.splits)

lemma countDrop_send [simp]: "send (countDrop t c) = send c"
  by (simp add: countDrop_def)

lemma lost_add: "length (lost (n\<lparr>cl := c, phase := p, g_taken := g_taken n @ [(m, w)]\<rparr>)) = length (lost n) + (if w then 0 else 1)"
  by (simp add: lost_def)

lemma winv_enqueue:
  assumes "winv n" and "r = (None, (cl n)\<lparr>send := send (cl n) @ [m]\<rparr>) \<and> room (cl n) \<or>
    (\<exists>e. r = (Some e, countDrop (messageType m) (cl n)))"
  shows "winv (enqueue_result m r n)"
  using assms(2)
proof (elim disjE exE conjE)
  assume "r = (None, (cl n)\<lparr>send := send (cl n) @ [m]\<rparr>)" "room (cl n)"
  with assms(1) show ?thesis
    by (auto simp: winv_def enqueue_result_def room_def lost_def writing_def split: conn.splits)
next
  fix e assume "r = (Some e, countDrop (messageType m) (cl n))"
  with assms(1) show ?thesis
    by (auto simp: winv_def enqueue_result_def count_of_countDrop lost_def writing_def split: conn.splits)
qed

lemma winv_write:
  assumes "winv n" "phase n = Up r True" "pump_message ok (cl n) = Some (c, m, written)"
  shows "winv (n\<lparr>cl := c, phase := Up r written, g_taken := g_taken n @ [(m, written)]\<rparr>)"
proof -
  have c: "c = (cl n)\<lparr>send := tl (send (cl n))\<rparr>" "send (cl n) = m # send c"
    using assms(3) by (auto simp: pump_message_def split: list.splits)
  have "drops c = drops (cl n)" by (simp add: c(1))
  with c(2) show ?thesis using assms(1,2) by (auto simp: winv_def writing_def lost_def)
qed

lemma winv_keeps:
  assumes "winv n" "send c = send (cl n)" "drops c = drops (cl n)" "writing (n\<lparr>phase := p\<rparr>) \<longrightarrow> writing n"
  shows "winv (n\<lparr>cl := c, phase := p\<rparr>)"
  using assms by (auto simp: winv_def lost_def writing_def split: if_splits conn.splits)

lemma close_keeps [simp]: "send (close c) = send c" "drops (close c) = drops c"
  by (simp_all add: close_def)

interpretation ws: guarded_system wstart wstep winv
proof
  show "wstart n \<Longrightarrow> winv n" for n
    by (simp add: wstart_def winv_def NewWSClient_def lost_def writing_def count_of_def)
  show "winv n'" if i: "winv n" and "wstep n n'" for n n'
    using that(2)
  proof cases
    case (send_best m)
    then show ?thesis by (auto intro!: winv_enqueue [OF i] simp: SendJSON_def)
  next
    case (send_reliable timeout m)
    then show ?thesis by (auto intro!: winv_enqueue [OF i] simp: SendJSONReliable_def)
  next
    case (take_drops d c)
    with i show ?thesis
      by (auto simp: winv_def TakeDrops_def lost_def writing_def count_of_def split: option.splits conn.splits)
  next
    case dial_ok
    with i show ?thesis by (auto simp: winv_def dialled_def lost_def writing_def)
  next
    case (write_message r ok c m w)
    with winv_write [OF i] show ?thesis by simp
  next
    case (write_ping r ok)
    with winv_keeps [OF i, of "cl n" "Up r (pump_ping ok (cl n))"] show ?thesis by (simp add: writing_def)
  next
    case (writer_cancelled r)
    with winv_keeps [OF i, of "cl n" "Up r False"] show ?thesis by (simp add: writing_def)
  next
    case (reader_end w)
    with winv_keeps [OF i, of "cl n" "Up False w"] show ?thesis by (simp add: writing_def)
  next
    case run_end
    with winv_keeps [OF i, of "close (cl n)" Idle] show ?thesis by (simp add: writing_def)
  next
    case shutdown_close
    with winv_keeps [OF i, of "close (cl n)" "phase n"] show ?thesis by simp
  next
    case connect_return
    with winv_keeps [OF i, of "cl n" Stopped] show ?thesis by (simp add: writing_def)
  qed
qed

text \<open>
  C22: In every reachable state of the client, however senders, pumps, reconnects and
  \<open>TakeDrops\<close> interleave: the queue holds at most 256 messages; the messages it accepted are
  exactly those taken by the writer followed by those still queued, in the order they were
  sent, so what was delivered is a subsequence of what was accepted with nothing repeated;
  at most one message is lost per connection; and for every type the refusals are exactly
  the drops reported so far plus those still counted.
\<close>

theorem send_queue_conserves:
  assumes "wstart n0" and "wstep\<^sup>*\<^sup>* n0 n"
  shows "fst (QueueStats (cl n)) \<le> 256 \<and> g_accepted n = map fst (g_taken n) @ send (cl n) \<and>
    subseq (delivered n) (g_accepted n) \<and>
    length (g_accepted n) = length (delivered n) + length (lost n) + length (send (cl n)) \<and>
    length (lost n) \<le> g_dials n \<and>
    (\<forall>t. int (count_list (g_refused n) t) = g_reported n t + count_of (drops (cl n)) t)"
proof -
  have i: "winv n" using ws.reachable_inv [OF assms] .
  have "subseq (delivered n) (map fst (g_taken n) @ send (cl n))"
    unfolding delivered_def
    using list_emb_append_mono [OF subseq_map [OF subseq_filter_left], of "[]" "send (cl n)" fst snd "g_taken n"]
    by simp
  moreover have "length (g_taken n) = length (delivered n) + length (lost n)"
    using sum_length_filter_compl [of snd "g_taken n"] by (simp add: delivered_def lost_def case_prod_unfold)
  ultimately show ?thesis using i by (auto simp: winv_def QueueStats_def send_cap_def split: if_splits)
qed

section \<open>A run in which a message is lost\<close>

definition demo_msg :: "string \<Rightarrow> message" where
  "demo_msg t = \<lparr>om_Type = t, om_CommandID = [], om_RequestID = [], om_TraceID = [], om_Status = [], om_Payload = []\<rparr>"

definition demo_net :: "nat \<Rightarrow> wnet" where
  "demo_net k = \<lparr>cl = \<lparr>send = (if k = 2 then [demo_msg ''db_status''] else []), drops = None, has_conn = k > 0, closed = False\<rparr>,
     phase = (if k = 0 then Idle else Up True (k < 3)),
     g_accepted = (if k < 2 then [] else [demo_msg ''db_status'']),
     g_taken = (if k < 3 then [] else [(demo_msg ''db_status'', False)]),
     g_refused = [], g_reported = (\<lambda>_. 0), g_dials = (if k = 0 then 0 else 1)\<rparr>"

lemma demo_net_start: "wstart (demo_net 0)"
  by (simp add: wstart_def demo_net_def NewWSClient_def)

lemma demo_net_run: "wstep\<^sup>*\<^sup>* (demo_net 0) (demo_net 3)"
proof -
  have "demo_net 1 = (demo_net 0)\<lparr>cl := dialled (cl (demo_net 0)), phase := Up True True, g_dials := g_dials (demo_net 0) + 1\<rparr>"
    by (simp add: demo_net_def dialled_def)
  moreover have "phase (demo_net 0) = Idle" by (simp add: demo_net_def)
  ultimately have 1: "wstep (demo_net 0) (demo_net 1)" using wstep.dial_ok [of "demo_net 0"] by simp
  have "demo_net 2 = enqueue_result (demo_msg ''db_status'')
      (SendJSONReliable False (Inr (demo_msg ''db_status'')) (cl (demo_net 1))) (demo_net 1)"
    by (simp add: demo_net_def enqueue_result_def SendJSONReliable_def room_def send_cap_def)
  moreover have "room (cl (demo_net 1))" by (simp add: demo_net_def room_def send_cap_def)
  ultimately have 2: "wstep (demo_net 1) (demo_net 2)"
    using wstep.send_reliable [of False "demo_net 1" "demo_msg ''db_status''"] by simp
  have "demo_net 3 = (demo_net 2)\<lparr>cl := cl (demo_net 3), phase := Up True False,
      g_taken := g_taken (demo_net 2) @ [(demo_msg ''db_status'', False)]\<rparr>"
    by (simp add: demo_net_def)
  moreover have "wstep (demo_net 2) ((demo_net 2)\<lparr>cl := cl (demo_net 3), phase := Up True False,
      g_taken := g_taken (demo_net 2) @ [(demo_msg ''db_status'', False)]\<rparr>)"
    by (rule wstep.write_message [where ok = False]) (simp_all add: demo_net_def pump_message_def)
  ultimately have "wstep (demo_net 2) (demo_net 3)" by simp
  with 1 2 show ?thesis by (meson converse_rtranclp_into_rtranclp rtranclp.rtrancl_refl)
qed

theorem send_queue_conserves_witness:
  "lost (demo_net 3) = [demo_msg ''db_status''] \<and> length (lost (demo_net 3)) \<le> 1"
  using send_queue_conserves [OF demo_net_start demo_net_run] by (simp add: lost_def demo_net_def)

section \<open>The drain at shutdown\<close>

text \<open>
  The drain returns: when the clock does not run backwards and each round sleeps for at
  least ten milliseconds, it ends after at most one round per ten milliseconds of its
  timeout and one more, it ends with the queue empty or the timeout over, and it does not go
  on once it has seen the queue empty.
\<close>

theorem drain_returns:
  assumes "clock 0 \<le> clock 1" and "\<And>i. 1 \<le> i \<Longrightarrow> clock i + 10 \<le> clock (Suc i)"
  shows "\<exists>j\<ge>1. j \<le> nat (timeout div 10) + 2 \<and> Drain clock len timeout = Some j \<and>
    (len j = 0 \<or> clock 0 + timeout \<le> clock j) \<and> (\<forall>l. 1 \<le> l \<longrightarrow> l < j \<longrightarrow> len l \<noteq> 0)"
proof -
  have "timeout \<le> 10 * int (nat (timeout div 10) + 1)"
    using div_mult_mod_eq [of timeout 10] pos_mod_bound [of 10 timeout] by simp presburger
  with assms(1) have "clock 0 + timeout \<le> clock 1 + 10 * int (nat (timeout div 10) + 1)" by simp
  from deadline_loop_returns [OF drain_from.simps [of clock len "clock 0 + timeout"] assms(2) order_refl this] show ?thesis
    unfolding Drain_def by (simp add: add.commute)
qed

text \<open>Five seconds of drain with a clock that ticks every round, and a queue that never empties.\<close>

theorem drain_returns_witness:
  "\<exists>j. j \<le> 502 \<and> Drain (\<lambda>i. 10 * int i) (\<lambda>i. 1) 5000 = Some j \<and> 500 \<le> j"
  using drain_returns [of "\<lambda>i. 10 * int i" 5000 "\<lambda>i. 1"] by auto

end
