(* ===== verification/Deploy_Parse.thy ===== *)
theory Deploy_Parse
  imports Deploy_Spec
begin

text \<open>
  \<open>ParseDeploymentSpec\<close> (deploy/executor.go): the decoding of a deploy payload into the
  structs of the specification by their JSON tags, with \<open>HealthCheck.UnmarshalJSON\<close>, which
  accepts a list or a bare string as the test. As in \<open>encoding/json\<close> an absent or null
  field is the zero value, unknown fields are ignored, and one value of the wrong type fails
  the whole specification; which mismatch the error names is not modelled. Keys are spelled
  as the tags, and numbers are exact (the orchestrator's ids and sizes are below 2^53).
\<close>

section \<open>Values by their Go type\<close>

text \<open>Each Go type has a test for the values it accepts and the value it takes from them.\<close>

definition fits_str :: "json \<Rightarrow> bool" where
  "fits_str j = (case j of JStr s \<Rightarrow> True | JNull \<Rightarrow> True | _ \<Rightarrow> False)"

definition as_str :: "json \<Rightarrow> string" where
  "as_str j = (case j of JStr s \<Rightarrow> s | _ \<Rightarrow> [])"

definition fits_int :: "json \<Rightarrow> bool" where
  "fits_int j = (case j of JNum r \<Rightarrow> r = of_int \<lfloor>r\<rfloor> \<and> int64_range \<lfloor>r\<rfloor> | JNull \<Rightarrow> True | _ \<Rightarrow> False)"

definition as_int :: "json \<Rightarrow> int" where
  "as_int j = (case j of JNum r \<Rightarrow> \<lfloor>r\<rfloor> | _ \<Rightarrow> 0)"

definition fits_float :: "json \<Rightarrow> bool" where
  "fits_float j = (case j of JNum r \<Rightarrow> True | JNull \<Rightarrow> True | _ \<Rightarrow> False)"

definition as_float :: "json \<Rightarrow> rat" where
  "as_float j = (case j of JNum r \<Rightarrow> r | _ \<Rightarrow> 0)"

definition fits_bool :: "json \<Rightarrow> bool" where
  "fits_bool j = (case j of JBool b \<Rightarrow> True | JNull \<Rightarrow> True | _ \<Rightarrow> False)"

definition as_bool :: "json \<Rightarrow> bool" where
  "as_bool j = (case j of JBool b \<Rightarrow> b | _ \<Rightarrow> False)"

definition fits_list :: "(json \<Rightarrow> bool) \<Rightarrow> json \<Rightarrow> bool" where
  "fits_list fits j = (case j of JArr js \<Rightarrow> list_all fits js | JNull \<Rightarrow> True | _ \<Rightarrow> False)"

definition as_list :: "(json \<Rightarrow> 'a) \<Rightarrow> json \<Rightarrow> 'a list" where
  "as_list f j = (case j of JArr js \<Rightarrow> map f js | _ \<Rightarrow> [])"

definition fits_strmap :: "json \<Rightarrow> bool" where
  "fits_strmap j = (case j of JObj m \<Rightarrow> list_all (\<lambda>(k, v). fits_str v) m | JNull \<Rightarrow> True | _ \<Rightarrow> False)"

definition as_strmap :: "json \<Rightarrow> (string \<times> string) list" where
  "as_strmap j = (case j of JObj m \<Rightarrow> map (\<lambda>(k, v). (k, as_str v)) m | _ \<Rightarrow> [])"

definition as_fields :: "json \<Rightarrow> payload" where
  "as_fields j = (case j of JObj m \<Rightarrow> m | _ \<Rightarrow> [])"

definition fits_struct :: "(payload \<Rightarrow> bool) \<Rightarrow> json \<Rightarrow> bool" where
  "fits_struct ok j = (case j of JObj m \<Rightarrow> ok m | JNull \<Rightarrow> True | _ \<Rightarrow> False)"

definition as_pointer :: "(payload \<Rightarrow> 'a) \<Rightarrow> json \<Rightarrow> 'a option" where
  "as_pointer f j = (case j of JObj m \<Rightarrow> Some (f m) | _ \<Rightarrow> None)"

text \<open>A field of an object; an absent field is decoded like null.\<close>

definition fld :: "payload \<Rightarrow> string \<Rightarrow> json" where
  "fld p k = (case map_of p k of None \<Rightarrow> JNull | Some v \<Rightarrow> v)"

section \<open>The structs\<close>

text \<open>
  \<open>UnmarshalJSON\<close> of a health check: the test is a list of strings, or else a bare string
  that is run by the shell; any other test is left out without an error.
\<close>

definition health_test :: "json \<Rightarrow> string list" where
  "health_test j =
     (if fits_list fits_str j then as_list as_str j
      else case j of JStr s \<Rightarrow> if s \<noteq> [] then [''CMD-SHELL'', s] else [] | _ \<Rightarrow> [])"

definition health_ok :: "payload \<Rightarrow> bool" where
  "health_ok p = (fits_str (fld p ''interval'') \<and> fits_str (fld p ''timeout'') \<and>
     fits_int (fld p ''retries'') \<and> fits_str (fld p ''start_period''))"

definition UnmarshalJSON :: "payload \<Rightarrow> HealthCheck" where
  "UnmarshalJSON p = \<lparr>h_Test = health_test (fld p ''test''), h_Interval = as_str (fld p ''interval''),
     h_Timeout = as_str (fld p ''timeout''), h_Retries = as_int (fld p ''retries''),
     h_StartPeriod = as_str (fld p ''start_period'')\<rparr>"

definition port_ok :: "payload \<Rightarrow> bool" where
  "port_ok p = (fits_str (fld p ''host_port'') \<and> fits_str (fld p ''container_port'') \<and> fits_str (fld p ''protocol''))"

definition port_of :: "payload \<Rightarrow> PortMapping" where
  "port_of p = \<lparr>pm_HostPort = as_str (fld p ''host_port''), pm_ContainerPort = as_str (fld p ''container_port''),
     pm_Protocol = as_str (fld p ''protocol'')\<rparr>"

definition ulimit_ok :: "payload \<Rightarrow> bool" where
  "ulimit_ok p = (fits_str (fld p ''name'') \<and> fits_int (fld p ''soft'') \<and> fits_int (fld p ''hard''))"

definition ulimit_of :: "payload \<Rightarrow> ulimit" where
  "ulimit_of p = \<lparr>ul_Name = as_str (fld p ''name''), ul_Soft = as_int (fld p ''soft''), ul_Hard = as_int (fld p ''hard'')\<rparr>"

definition auth_ok :: "payload \<Rightarrow> bool" where
  "auth_ok p = (fits_str (fld p ''username'') \<and> fits_str (fld p ''password''))"

definition auth_of :: "payload \<Rightarrow> regauth" where
  "auth_of p = \<lparr>ra_Username = as_str (fld p ''username''), ra_Password = as_str (fld p ''password'')\<rparr>"

definition named_ok :: "payload \<Rightarrow> bool" where
  "named_ok p = (fits_str (fld p ''name'') \<and> fits_str (fld p ''driver''))"

definition network_of :: "payload \<Rightarrow> NetworkSpec" where
  "network_of p = \<lparr>n_Name = as_str (fld p ''name''), n_Driver = as_str (fld p ''driver'')\<rparr>"

definition volume_of :: "payload \<Rightarrow> VolumeSpec" where
  "volume_of p = \<lparr>v_Name = as_str (fld p ''name''), v_Driver = as_str (fld p ''driver'')\<rparr>"

definition container_ok :: "payload \<Rightarrow> bool" where
  "container_ok p =
     (fits_int (fld p ''id'') \<and> fits_str (fld p ''name'') \<and> fits_str (fld p ''image'') \<and> fits_str (fld p ''tag'') \<and>
      fits_list (fits_struct port_ok) (fld p ''port_mappings'') \<and> fits_strmap (fld p ''env_vars'') \<and>
      fits_strmap (fld p ''volumes'') \<and> fits_float (fld p ''cpu_limit'') \<and> fits_int (fld p ''memory_limit'') \<and>
      fits_int (fld p ''replicas'') \<and> fits_str (fld p ''restart_policy'') \<and> fits_list fits_str (fld p ''command'') \<and>
      fits_list fits_str (fld p ''entrypoint'') \<and> fits_list fits_str (fld p ''networks'') \<and>
      fits_list fits_str (fld p ''network_aliases'') \<and> fits_struct health_ok (fld p ''health_check'') \<and>
      fits_list (fits_struct ulimit_ok) (fld p ''ulimits'') \<and> fits_struct auth_ok (fld p ''registry_auth'') \<and>
      fits_list fits_str (fld p ''depends_on''))"

definition container_of :: "payload \<Rightarrow> DeployContainer" where
  "container_of p =
     \<lparr>c_ID = as_int (fld p ''id''), c_Name = as_str (fld p ''name''), c_Image = as_str (fld p ''image''),
      c_Tag = as_str (fld p ''tag''), c_PortMappings = as_list (\<lambda>j. port_of (as_fields j)) (fld p ''port_mappings''),
      c_EnvVars = as_strmap (fld p ''env_vars''), c_Volumes = as_strmap (fld p ''volumes''),
      c_CPULimit = as_float (fld p ''cpu_limit''), c_MemoryLimit = as_int (fld p ''memory_limit''),
      c_Replicas = as_int (fld p ''replicas''), c_RestartPolicy = as_str (fld p ''restart_policy''),
      c_Command = as_list as_str (fld p ''command''), c_Entrypoint = as_list as_str (fld p ''entrypoint''),
      c_Networks = as_list as_str (fld p ''networks''), c_NetworkAliases = as_list as_str (fld p ''network_aliases''),
      c_HealthCheck = as_pointer UnmarshalJSON (fld p ''health_check''),
      c_Ulimits = as_list (\<lambda>j. ulimit_of (as_fields j)) (fld p ''ulimits''),
      c_RegistryAuth = as_pointer auth_of (fld p ''registry_auth''), c_DependsOn = as_list as_str (fld p ''depends_on'')\<rparr>"

definition spec_ok :: "payload \<Rightarrow> bool" where
  "spec_ok p =
     (fits_int (fld p ''deployment_id'') \<and> fits_str (fld p ''stack_name'') \<and> fits_str (fld p ''strategy'') \<and>
      fits_bool (fld p ''targeted'') \<and> fits_bool (fld p ''force'') \<and>
      fits_list (fits_struct container_ok) (fld p ''containers'') \<and>
      fits_list (fits_struct named_ok) (fld p ''networks'') \<and> fits_list (fits_struct named_ok) (fld p ''volumes''))"

definition spec_of :: "payload \<Rightarrow> DeploymentSpec" where
  "spec_of p =
     \<lparr>d_DeploymentID = as_int (fld p ''deployment_id''), d_StackName = as_str (fld p ''stack_name''),
      d_Strategy = as_str (fld p ''strategy''), d_Targeted = as_bool (fld p ''targeted''), d_Force = as_bool (fld p ''force''),
      d_Containers = as_list (\<lambda>j. container_of (as_fields j)) (fld p ''containers''),
      d_Networks = as_list (\<lambda>j. network_of (as_fields j)) (fld p ''networks''),
      d_Volumes = as_list (\<lambda>j. volume_of (as_fields j)) (fld p ''volumes'')\<rparr>"

definition json_error :: goerr where
  "json_error = Fmt ''json: cannot unmarshal value of the wrong type'' []"

definition ParseDeploymentSpec :: "payload \<Rightarrow> DeploymentSpec res" where
  "ParseDeploymentSpec p = (if spec_ok p then Inr (spec_of p) else Inl (Fmt ''unmarshal spec: %w'' [FE json_error]))"

section \<open>Encoding a specification\<close>

text \<open>The payload that the tags of the structs describe for a specification.\<close>

definition e_strs :: "string list \<Rightarrow> json" where
  "e_strs xs = JArr (map JStr xs)"

definition e_map :: "(string \<times> string) list \<Rightarrow> json" where
  "e_map m = JObj (map (\<lambda>(k, v). (k, JStr v)) m)"

definition e_int :: "int \<Rightarrow> json" where
  "e_int n = JNum (of_int n)"

definition e_health :: "HealthCheck option \<Rightarrow> json" where
  "e_health h = (case h of None \<Rightarrow> JNull | Some c \<Rightarrow>
     JObj [(''test'', e_strs (h_Test c)), (''interval'', JStr (h_Interval c)), (''timeout'', JStr (h_Timeout c)),
       (''retries'', e_int (h_Retries c)), (''start_period'', JStr (h_StartPeriod c))])"

definition e_auth :: "regauth option \<Rightarrow> json" where
  "e_auth a = (case a of None \<Rightarrow> JNull | Some r \<Rightarrow>
     JObj [(''username'', JStr (ra_Username r)), (''password'', JStr (ra_Password r))])"

definition e_port :: "PortMapping \<Rightarrow> json" where
  "e_port p = JObj [(''host_port'', JStr (pm_HostPort p)), (''container_port'', JStr (pm_ContainerPort p)),
     (''protocol'', JStr (pm_Protocol p))]"

definition e_ulimit :: "ulimit \<Rightarrow> json" where
  "e_ulimit u = JObj [(''name'', JStr (ul_Name u)), (''soft'', e_int (ul_Soft u)), (''hard'', e_int (ul_Hard u))]"

definition e_container :: "DeployContainer \<Rightarrow> json" where
  "e_container c = JObj
     [(''id'', e_int (c_ID c)), (''name'', JStr (c_Name c)), (''image'', JStr (c_Image c)), (''tag'', JStr (c_Tag c)),
      (''port_mappings'', JArr (map e_port (c_PortMappings c))), (''env_vars'', e_map (c_EnvVars c)),
      (''volumes'', e_map (c_Volumes c)), (''cpu_limit'', JNum (c_CPULimit c)),
      (''memory_limit'', e_int (c_MemoryLimit c)), (''replicas'', e_int (c_Replicas c)),
      (''restart_policy'', JStr (c_RestartPolicy c)), (''command'', e_strs (c_Command c)),
      (''entrypoint'', e_strs (c_Entrypoint c)), (''networks'', e_strs (c_Networks c)),
      (''network_aliases'', e_strs (c_NetworkAliases c)), (''health_check'', e_health (c_HealthCheck c)),
      (''ulimits'', JArr (map e_ulimit (c_Ulimits c))), (''registry_auth'', e_auth (c_RegistryAuth c)),
      (''depends_on'', e_strs (c_DependsOn c))]"

definition e_spec :: "DeploymentSpec \<Rightarrow> payload" where
  "e_spec s =
     [(''deployment_id'', e_int (d_DeploymentID s)), (''stack_name'', JStr (d_StackName s)),
      (''strategy'', JStr (d_Strategy s)), (''targeted'', JBool (d_Targeted s)), (''force'', JBool (d_Force s)),
      (''containers'', JArr (map e_container (d_Containers s))),
      (''networks'', JArr (map (\<lambda>n. JObj [(''name'', JStr (n_Name n)), (''driver'', JStr (n_Driver n))]) (d_Networks s))),
      (''volumes'', JArr (map (\<lambda>v. JObj [(''name'', JStr (v_Name v)), (''driver'', JStr (v_Driver v))]) (d_Volumes s)))]"

text \<open>The numbers of a specification are Go integers.\<close>

definition ints_ok :: "DeployContainer \<Rightarrow> bool" where
  "ints_ok c = (int64_range (c_ID c) \<and> int64_range (c_MemoryLimit c) \<and> int64_range (c_Replicas c) \<and>
     (case c_HealthCheck c of None \<Rightarrow> True | Some h \<Rightarrow> int64_range (h_Retries h)) \<and>
     list_all (\<lambda>u. int64_range (ul_Soft u) \<and> int64_range (ul_Hard u)) (c_Ulimits c))"

named_theorems dec_simps \<open>decoding an encoded value gives it back\<close>

lemma dec_values [dec_simps]:
  "fits_str (JStr s)" "as_str (JStr s) = s" "fits_bool (JBool b)" "as_bool (JBool b) = b"
  "fits_float (JNum r)" "as_float (JNum r) = r" "int64_range n \<Longrightarrow> fits_int (e_int n)" "as_int (e_int n) = n"
  "as_fields (JObj m) = m" "fits_struct ok (JObj m) = ok m"
  by (simp_all add: fits_str_def as_str_def fits_bool_def as_bool_def fits_float_def as_float_def
      fits_int_def as_int_def e_int_def as_fields_def fits_struct_def)

lemma dec_strs [dec_simps]: "fits_list fits_str (e_strs xs)" "as_list as_str (e_strs xs) = xs"
  by (simp_all add: fits_list_def as_list_def e_strs_def list_all_iff dec_simps comp_def)

lemma dec_map [dec_simps]: "fits_strmap (e_map m)" "as_strmap (e_map m) = m"
  by (auto simp: fits_strmap_def as_strmap_def e_map_def list_all_iff dec_simps comp_def case_prod_unfold)

lemma dec_list [dec_simps]:
  "list_all (\<lambda>x. fits (e x)) xs \<Longrightarrow> fits_list fits (JArr (map e xs))"
  "as_list f (JArr (map e xs)) = map (\<lambda>x. f (e x)) xs"
  by (simp_all add: fits_list_def as_list_def list_all_iff comp_def)

lemma fld_simps [dec_simps]: "fld ((k, v) # p) k = v" "k' \<noteq> k \<Longrightarrow> fld ((k', v) # p) k = fld p k"
  by (simp_all add: fld_def)

lemma dec_port [dec_simps]: "fits_struct port_ok (e_port p)" "port_of (as_fields (e_port p)) = p"
  by (simp_all add: e_port_def port_ok_def port_of_def dec_simps)

lemma dec_ulimit [dec_simps]:
  "int64_range (ul_Soft u) \<Longrightarrow> int64_range (ul_Hard u) \<Longrightarrow> fits_struct ulimit_ok (e_ulimit u)"
  "ulimit_of (as_fields (e_ulimit u)) = u"
  by (simp_all add: e_ulimit_def ulimit_ok_def ulimit_of_def dec_simps)

lemma dec_auth [dec_simps]: "fits_struct auth_ok (e_auth a)" "as_pointer auth_of (e_auth a) = a"
  by (cases a; simp add: e_auth_def auth_ok_def auth_of_def as_pointer_def dec_simps; simp add: fits_struct_def)+

lemma dec_health [dec_simps]:
  "(case h of None \<Rightarrow> True | Some c \<Rightarrow> int64_range (h_Retries c)) \<Longrightarrow> fits_struct health_ok (e_health h)"
  "as_pointer UnmarshalJSON (e_health h) = h"
  by (cases h; simp add: e_health_def health_ok_def UnmarshalJSON_def as_pointer_def health_test_def dec_simps;
      simp add: fits_struct_def)+

lemma dec_container [dec_simps]:
  "ints_ok c \<Longrightarrow> fits_struct container_ok (e_container c)" "container_of (as_fields (e_container c)) = c"
  by (simp_all add: e_container_def container_ok_def container_of_def ints_ok_def dec_simps list_all_iff)

lemma dec_named [dec_simps]:
  "network_of [(''name'', JStr (n_Name n)), (''driver'', JStr (n_Driver n))] = n"
  "volume_of [(''name'', JStr (v_Name v)), (''driver'', JStr (v_Driver v))] = v"
  by (cases n; simp add: network_of_def dec_simps) (cases v; simp add: volume_of_def dec_simps)

lemma parse_encoded:
  assumes "int64_range (d_DeploymentID s)" and "list_all ints_ok (d_Containers s)"
  shows "ParseDeploymentSpec (e_spec s) = Inr s"
  using assms
  by (simp add: ParseDeploymentSpec_def spec_ok_def spec_of_def e_spec_def named_ok_def
      dec_simps list_all_iff)


definition sample_spec :: DeploymentSpec where
  "sample_spec = \<lparr>d_DeploymentID = 12, d_StackName = ''shop'', d_Strategy = ''rolling'', d_Targeted = False, d_Force = False,
     d_Containers = [\<lparr>c_ID = 1, c_Name = ''web'', c_Image = ''nginx'', c_Tag = ''1.27'', c_PortMappings = [],
       c_EnvVars = [(''MODE'', ''prod'')], c_Volumes = [], c_CPULimit = 1 / 2, c_MemoryLimit = 536870912, c_Replicas = 2,
       c_RestartPolicy = ''always'', c_Command = [], c_Entrypoint = [], c_Networks = [''front''], c_NetworkAliases = [],
       c_HealthCheck = Some \<lparr>h_Test = [''CMD'', ''true''], h_Interval = ''5s'', h_Timeout = ''1s'', h_Retries = 3, h_StartPeriod = ''0s''\<rparr>,
       c_Ulimits = [], c_RegistryAuth = None, c_DependsOn = []\<rparr>],
     d_Networks = [\<lparr>n_Name = ''front'', n_Driver = ''bridge''\<rparr>], d_Volumes = []\<rparr>"


end
