(* ===== verification/Deploy_Admission.thy ===== *)
theory Deploy_Admission
  imports Deploy_Parse Executor Replies Transitions
begin

text \<open>
  The deploy command (main.go): parsing, the check-and-set of the in-flight table that
  serialises deployments by stack, the run of the executor, the progress callback that
  keeps the table up to date, the answer to a ping and the expiry of old entries at each
  heartbeat. The table is shared by the handlers, so each critical section is one function
  on it, and \<open>dstep\<close> interleaves them.
\<close>

section \<open>The table of deployments\<close>

record deploymentRunState =
  rs_DeploymentID :: int
  rs_StackName :: string
  rs_Attempt :: int
  rs_MaxRetries :: int
  rs_Status :: string
  rs_CurrentStep :: string
  rs_LastMessage :: gotext
  rs_LastProgressAt :: int
  rs_StartedAt :: int
  rs_InProgress :: bool
  rs_Ctx :: "cmdctx option"

type_synonym dstates = "(int \<times> deploymentRunState) list"

definition stackConflict :: "nat list \<Rightarrow> dstates \<Rightarrow> DeploymentSpec \<Rightarrow> int" where
  "stackConflict order states spec =
     (if d_StackName spec = [] then 0
      else case find (\<lambda>(k, st). rs_InProgress st \<and> rs_DeploymentID st \<noteq> d_DeploymentID spec \<and>
             rs_StackName st = d_StackName spec) (shuffle order states) of
        Some (k, st) \<Rightarrow> rs_DeploymentID st
      | None \<Rightarrow> 0)"

text \<open>A positive number of the payload, or the default (\<open>attempt\<close>, \<open>max_retries\<close>).\<close>

definition positive_or :: "payload \<Rightarrow> string \<Rightarrow> int \<Rightarrow> int" where
  "positive_or p k d = (if go_trunc (pnum p k) > 0 then go_trunc (pnum p k) else d)"

definition started_text :: "int \<Rightarrow> int \<Rightarrow> gotext" where
  "started_text attempt maxr = Fmt ''deploy attempt %d/%d started'' [FD attempt, FD maxr]"

datatype verdict = Invalid goerr | Duplicate | Conflict int | Admitted DeploymentSpec

text \<open>The deploy handler up to the end of its critical section.\<close>

definition admit :: "nat list \<Rightarrow> cmdctx \<Rightarrow> Envelope \<Rightarrow> int \<Rightarrow> dstates \<Rightarrow> verdict \<times> dstates" where
  "admit order ctx env now states = (case ParseDeploymentSpec (e_Payload env) of
     Inl e \<Rightarrow> (Invalid e, states)
   | Inr spec \<Rightarrow>
      (let attempt = positive_or (e_Payload env) ''attempt'' 1;
           maxr = positive_or (e_Payload env) ''max_retries'' 3;
           conflict = stackConflict order states spec in
       if (case map_of states (d_DeploymentID spec) of Some st \<Rightarrow> rs_InProgress st | None \<Rightarrow> False)
       then (Duplicate, states)
       else if conflict \<noteq> 0 then (Conflict conflict, states)
       else (Admitted spec, AList.update (d_DeploymentID spec)
         \<lparr>rs_DeploymentID = d_DeploymentID spec, rs_StackName = d_StackName spec, rs_Attempt = attempt,
          rs_MaxRetries = maxr, rs_Status = ''deploying'', rs_CurrentStep = ''starting'',
          rs_LastMessage = started_text attempt maxr, rs_LastProgressAt = now, rs_StartedAt = now,
          rs_InProgress = True, rs_Ctx = Some ctx\<rparr> states)))"

definition failed_progress :: "Envelope \<Rightarrow> json \<Rightarrow> gotext \<Rightarrow> message" where
  "failed_progress env dep m = \<lparr>om_Type = ''deployment_progress'', om_CommandID = e_CommandID env,
     om_RequestID = [], om_TraceID = [], om_Status = ''failed'',
     om_Payload = [(''deployment_id'', dep), (''status'', JStr ''failed''), (''message'', JText m)]\<rparr>"

text \<open>
  The fields of the event \<open>deployment.failed\<close> for a deployment that is not run: what can be read of its payload, or its
  specification with the deployment it conflicts with. The event itself is \<open>EvDeployLog\<close>, with its step.
\<close>

definition deployFieldsFromPayload :: "payload \<Rightarrow> payload" where
  "deployFieldsFromPayload p =
     [(''component'', JStr ''deploy'')] @
     (case map_of p ''deployment_id'' of Some (JNum v) \<Rightarrow> if v = of_int (go_trunc v) then [(''deployment_id'', JNum v)] else [] | _ \<Rightarrow> []) @
     (case map_of p ''stack_name'' of Some (JStr v) \<Rightarrow> [(''stack'', JStr v)] | _ \<Rightarrow> []) @
     (case map_of p ''strategy'' of Some (JStr v) \<Rightarrow> [(''strategy'', JStr v)] | _ \<Rightarrow> []) @
     (case map_of p ''containers'' of Some (JArr v) \<Rightarrow> [(''container_count'', JNum (of_nat (length v)))] | _ \<Rightarrow> [])"

definition conflict_fields :: "DeploymentSpec \<Rightarrow> int \<Rightarrow> payload" where
  "conflict_fields spec conflict =
     [(''component'', JStr ''deploy''), (''deployment_id'', JNum (of_int (d_DeploymentID spec))), (''stack'', JStr (d_StackName spec)),
      (''strategy'', JStr (d_Strategy spec)), (''container_count'', JNum (of_nat (length (d_Containers spec)))),
      (''conflicting_deployment_id'', JNum (of_int conflict))]"

definition failed_attrs :: "payload \<Rightarrow> string \<Rightarrow> goerr \<Rightarrow> payload" where
  "failed_attrs fs step err = fs @ [(''event'', JStr ''deployment.failed''), (''duration_ms'', JNum 0), (''failed_step'', JStr step), (''error'', JText err)]"

definition logDeployFailedAt :: "payload \<Rightarrow> string \<Rightarrow> goerr \<Rightarrow> unit prog" where
  "logDeployFailedAt fs step err =
     (let as = failed_attrs fs step err in emit (EvDeployLog (pstr as ''event'') (pstr as ''failed_step'')))"

definition rejectDeployConflict :: "cmdctx \<Rightarrow> Envelope \<Rightarrow> DeploymentSpec \<Rightarrow> int \<Rightarrow> unit prog" where
  "rejectDeployConflict ctx env spec conflict =
     (let err = Fmt ''stack %s already has an in-flight deployment (%d)'' [FS (d_StackName spec), FD conflict] in do {
        logDeployFailedAt (conflict_fields spec conflict) ''conflict'' err;
        wsSend ctx (failed_progress env (JNum (of_int (d_DeploymentID spec))) err)
      })"

definition json_or_null :: "payload \<Rightarrow> string \<Rightarrow> json" where
  "json_or_null p k = (case map_of p k of Some v \<Rightarrow> v | None \<Rightarrow> JNull)"

text \<open>The handler after its critical section: the replies, and the run when it was admitted.\<close>

definition deploy_body :: "host \<Rightarrow> cmdctx \<Rightarrow> Envelope \<Rightarrow> verdict \<Rightarrow> goerr option prog" where
  "deploy_body E ctx env v = (case v of
     Invalid e \<Rightarrow> do {
       logDeployFailedAt (deployFieldsFromPayload (e_Payload env)) ''parse'' e;
       wsSend ctx (failed_progress env (json_or_null (e_Payload env) ''deployment_id'')
         (Fmt ''invalid spec: %v'' [FE e]));
       ret None
     }
   | Duplicate \<Rightarrow> ret None
   | Conflict c \<Rightarrow> do { rejectDeployConflict ctx env (projr (ParseDeploymentSpec (e_Payload env))) c; ret None }
   | Admitted spec \<Rightarrow>
      (let attempt = positive_or (e_Payload env) ''attempt'' 1;
           maxr = positive_or (e_Payload env) ''max_retries'' 3 in do {
         wsSend ctx (msg ''deployment_progress''
           [(''deployment_id'', JNum (of_int (d_DeploymentID spec))), (''status'', JStr ''deploying''),
            (''message'', JText (started_text attempt maxr)), (''step'', JStr ''attempt_start''),
            (''attempt'', JNum (of_int attempt)), (''max_retries'', JNum (of_int maxr))]);
         Execute E spec
       }))"

text \<open>The critical section at the end of a run, with the error of \<open>Execute\<close>.\<close>

definition ended :: "int \<Rightarrow> goerr option \<Rightarrow> deploymentRunState \<Rightarrow> deploymentRunState" where
  "ended now r st = (case r of
     Some e \<Rightarrow> st\<lparr>rs_Status := ''failed'', rs_InProgress := False, rs_LastMessage := e, rs_LastProgressAt := now\<rparr>
   | None \<Rightarrow> st\<lparr>rs_Status := ''deployed'', rs_InProgress := False, rs_LastProgressAt := now\<rparr>)"

definition finish_run :: "int \<Rightarrow> int \<Rightarrow> goerr option \<Rightarrow> dstates \<Rightarrow> dstates" where
  "finish_run now dep r states = (case map_of states dep of
     None \<Rightarrow> states
   | Some st \<Rightarrow> AList.update dep (ended now r st) states)"

section \<open>Progress, pings and expiry\<close>

definition terminal_status :: "string \<Rightarrow> bool" where
  "terminal_status s = (s = ''deployed'' \<or> s = ''failed'' \<or> s = ''rolled_back'')"

definition fresh_state :: "int \<Rightarrow> int \<Rightarrow> deploymentRunState" where
  "fresh_state dep now = \<lparr>rs_DeploymentID = dep, rs_StackName = [], rs_Attempt = 1, rs_MaxRetries = 3, rs_Status = [],
     rs_CurrentStep = [], rs_LastMessage = Fmt '''' [], rs_LastProgressAt = 0, rs_StartedAt = now,
     rs_InProgress = True, rs_Ctx = None\<rparr>"

definition note_progress :: "int \<Rightarrow> int \<Rightarrow> string \<Rightarrow> gotext \<Rightarrow> payload \<Rightarrow> dstates \<Rightarrow> deploymentRunState" where
  "note_progress now dep status m p states =
     (let st = (case map_of states dep of Some st \<Rightarrow> st | None \<Rightarrow> fresh_state dep now) in
      st\<lparr>rs_Status := status,
         rs_CurrentStep := (if pstr p ''step'' \<noteq> [] then pstr p ''step'' else rs_CurrentStep st),
         rs_LastMessage := m, rs_LastProgressAt := now,
         rs_InProgress := (if terminal_status status then False else rs_InProgress st)\<rparr>)"

text \<open>The callback of the executor; \<open>stamp\<close> formats a time, \<open>rootctx\<close> is the runner's own context.\<close>

definition progress_cb ::
  "(int \<Rightarrow> string) \<Rightarrow> cmdctx \<Rightarrow> int \<Rightarrow> int \<Rightarrow> string \<Rightarrow> gotext \<Rightarrow> payload \<Rightarrow> dstates \<Rightarrow> unit prog \<times> dstates" where
  "progress_cb stamp rootctx now dep status m p states =
     (let st = note_progress now dep status m p states;
          out = AList.update ''last_progress_at'' (JStr (stamp now)) (AList.update ''max_retries'' (JNum (of_int (rs_MaxRetries st)))
            (AList.update ''attempt'' (JNum (of_int (rs_Attempt st))) p)) in
      (wsSend (case rs_Ctx st of Some c \<Rightarrow> c | None \<Rightarrow> rootctx) (msg ''deployment_progress'' out),
       AList.update dep st states))"

definition deployment_ping :: "(int \<Rightarrow> string) \<Rightarrow> cmdctx \<Rightarrow> Envelope \<Rightarrow> dstates \<Rightarrow> unit prog" where
  "deployment_ping stamp ctx env states =
     (let dep = go_trunc (pnum (e_Payload env) ''deployment_id'') in
      wsSend ctx (msg ''deployment_status'' (case map_of states dep of
        None \<Rightarrow> [(''deployment_id'', JNum (of_int dep)), (''status'', JStr ''idle''), (''in_progress'', JBool False),
          (''message'', JStr ''no active deployment state for this id'')]
      | Some st \<Rightarrow> [(''deployment_id'', JNum (of_int (rs_DeploymentID st))), (''status'', JStr (rs_Status st)),
          (''in_progress'', JBool (rs_InProgress st)), (''step'', JStr (rs_CurrentStep st)),
          (''message'', JText (rs_LastMessage st)), (''attempt'', JNum (of_int (rs_Attempt st))),
          (''max_retries'', JNum (of_int (rs_MaxRetries st))),
          (''last_progress_at'', JStr (stamp (rs_LastProgressAt st)))])))"

text \<open>The heartbeat drops entries that are not deploying and have not reported for 15 minutes.\<close>

definition expired :: "int \<Rightarrow> deploymentRunState \<Rightarrow> bool" where
  "expired now st = (rs_Status st \<noteq> ''deploying'' \<and> now - rs_LastProgressAt st > 15 * 60)"

definition expire :: "int \<Rightarrow> dstates \<Rightarrow> dstates" where
  "expire now states = filter (\<lambda>(k, st). \<not> expired now st) states"

section \<open>Deployments side by side\<close>

text \<open>
  A run is a call of \<open>Execute\<close> that has not returned: its id, its stack, and whether it still
  counts as in flight, which it does until it has reported a terminal status, another run of
  its id has ended, or its entry has expired. \<open>zero\<close> records that a deployment with the id 0
  was admitted; \<open>stackConflict\<close> cannot tell that id from the absence of a conflict.
\<close>

record drun =
  dr_id :: int
  dr_stack :: string
  dr_counts :: bool

record dworld =
  tbl :: dstates
  runs :: "drun list"
  zero :: bool

definition release :: "int \<Rightarrow> drun list \<Rightarrow> drun list" where
  "release dep rs = map (\<lambda>r. if dr_id r = dep then r\<lparr>dr_counts := False\<rparr> else r) rs"

definition release_expired :: "int \<Rightarrow> dstates \<Rightarrow> drun list \<Rightarrow> drun list" where
  "release_expired now states rs = map (\<lambda>r. case map_of states (dr_id r) of
     Some st \<Rightarrow> if expired now st then r\<lparr>dr_counts := False\<rparr> else r
   | None \<Rightarrow> r) rs"

inductive dstep :: "dworld \<Rightarrow> dworld \<Rightarrow> bool" where
  admitted: "admit order ctx env now (tbl w) = (Admitted spec, t) \<Longrightarrow>
    dstep w \<lparr>tbl = t, runs = runs w @ [\<lparr>dr_id = d_DeploymentID spec, dr_stack = d_StackName spec, dr_counts = True\<rparr>],
      zero = (zero w \<or> d_DeploymentID spec = 0)\<rparr>"
| rejected: "admit order ctx env now (tbl w) = (v, t) \<Longrightarrow> (\<forall>spec. v \<noteq> Admitted spec) \<Longrightarrow> dstep w (w\<lparr>tbl := t\<rparr>)"
| progress: "r \<in> set (runs w) \<Longrightarrow> progress_cb stamp rootctx now (dr_id r) status m p (tbl w) = (snt, t) \<Longrightarrow>
    dstep w (w\<lparr>tbl := t, runs := (if terminal_status status then release (dr_id r) (runs w) else runs w)\<rparr>)"
| finished: "r \<in> set (runs w) \<Longrightarrow>
    dstep w (w\<lparr>tbl := finish_run now (dr_id r) res (tbl w), runs := release (dr_id r) (remove1 r (runs w))\<rparr>)"
| expiry: "dstep w (w\<lparr>tbl := expire now (tbl w), runs := release_expired now (tbl w) (runs w)\<rparr>)"

inductive_cases dstepE: "dstep w w'"

definition dstart :: "dworld \<Rightarrow> bool" where
  "dstart w = (tbl w = [] \<and> runs w = [] \<and> \<not> zero w)"

text \<open>
  Every run that counts has its entry, in progress and for its stack; the runs that count
  have different ids, and different stacks unless the stack has no name.
\<close>

definition counting :: "drun list \<Rightarrow> drun list" where
  "counting rs = filter dr_counts rs"

definition named_stacks :: "drun list \<Rightarrow> string list" where
  "named_stacks rs = filter (\<lambda>s. s \<noteq> []) (map dr_stack rs)"

definition covered :: "dstates \<Rightarrow> drun \<Rightarrow> bool" where
  "covered states r = (case map_of states (dr_id r) of
     Some st \<Rightarrow> rs_InProgress st \<and> rs_StackName st = dr_stack r
   | None \<Rightarrow> False)"

definition table_ok :: "dstates \<Rightarrow> bool" where
  "table_ok states = (distinct (map fst states) \<and> (\<forall>(k, st)\<in>set states. rs_DeploymentID st = k))"

definition dinv :: "dworld \<Rightarrow> bool" where
  "dinv w = (table_ok (tbl w) \<and> list_all (covered (tbl w)) (counting (runs w)) \<and>
     distinct (map dr_id (counting (runs w))) \<and>
     (zero w \<or> 0 \<notin> dr_id ` set (runs w) \<and> 0 \<notin> fst ` set (tbl w) \<and> distinct (named_stacks (counting (runs w)))))"

section \<open>The events of a rejection\<close>

lemma log_failed_at:
  "fst ` set fs \<subseteq> {''component'', ''deployment_id'', ''stack'', ''strategy'', ''container_count'', ''conflicting_deployment_id''} \<Longrightarrow>
   logDeployFailedAt fs step err = emit (EvDeployLog ''deployment.failed'' step)"
proof -
  assume "fst ` set fs \<subseteq> {''component'', ''deployment_id'', ''stack'', ''strategy'', ''container_count'', ''conflicting_deployment_id''}"
  then have "map_of fs ''event'' = None" "map_of fs ''failed_step'' = None" by (auto simp: map_of_eq_None_iff)
  then show ?thesis by (simp add: logDeployFailedAt_def failed_attrs_def pstr_def Let_def map_add_def)
qed

lemma log_failed:
  "logDeployFailedAt (deployFieldsFromPayload p) step err = emit (EvDeployLog ''deployment.failed'' step)"
  "logDeployFailedAt (conflict_fields spec c) step err = emit (EvDeployLog ''deployment.failed'' step)"
proof -
  have str: "fst ` set (case map_of p k of Some (JStr v) \<Rightarrow> [(k', JStr v)] | _ \<Rightarrow> []) \<subseteq> {k'}" for k and k' :: string
    by (auto split: option.splits json.splits)
  have num: "fst ` set (case map_of p k of Some (JNum v) \<Rightarrow> if v = of_int (go_trunc v) then [(k', JNum v)] else [] | _ \<Rightarrow> []) \<subseteq> {k'}" for k and k' :: string
    by (auto split: option.splits json.splits if_splits)
  have arr: "fst ` set (case map_of p k of Some (JArr v) \<Rightarrow> [(k', JNum (of_nat (length v)))] | _ \<Rightarrow> []) \<subseteq> {k'}" for k and k' :: string
    by (auto split: option.splits json.splits)
  show "logDeployFailedAt (deployFieldsFromPayload p) step err = emit (EvDeployLog ''deployment.failed'' step)"
    unfolding deployFieldsFromPayload_def
    by (rule log_failed_at, unfold set_append image_Un, intro Un_least order_trans [OF str] order_trans [OF num] order_trans [OF arr]) simp_all
qed (rule log_failed_at, simp add: conflict_fields_def)

lemma deploy_body_logs:
  "does (deploy_body E ctx env v) (\<lambda>r es. \<exists>step. filter (\<lambda>e. \<not> not_log e) es = (case v of
     Invalid e \<Rightarrow> [EvDeployLog ''deployment.failed'' ''parse'']
   | Duplicate \<Rightarrow> []
   | Conflict c \<Rightarrow> [EvDeployLog ''deployment.failed'' ''conflict'']
   | Admitted spec \<Rightarrow> [EvDeployLog ''deployment.started'' [],
       (case r of None \<Rightarrow> EvDeployLog ''deployment.succeeded'' [] | Some _ \<Rightarrow> EvDeployLog ''deployment.failed'' step)]))"
proof (cases v)
  case (Admitted spec)
  have "does (State_Monad.bind (wsSend ctx m) (\<lambda>_. Execute E spec)) (\<lambda>r es. \<exists>step. filter (\<lambda>e. \<not> not_log e) es =
     [EvDeployLog ''deployment.started'' [], (case r of None \<Rightarrow> EvDeployLog ''deployment.succeeded'' [] | Some _ \<Rightarrow> EvDeployLog ''deployment.failed'' step)])" for m
    unfolding wsSend_def by (rule does_bind_emit, rule does_mono [OF Execute_log]) (simp add: not_log_def)
  then show ?thesis using Admitted by (simp add: deploy_body_def Let_def)
qed (auto simp: deploy_body_def rejectDeployConflict_def log_failed wsSend_def Let_def not_log_def intro!: does_intros)

section \<open>Deployments of one stack never overlap while they count\<close>


lemma find_shuffle_None: "find P (shuffle order xs) = None \<longleftrightarrow> (\<forall>x\<in>set xs. \<not> P x)"
  by (auto simp: find_None_iff)

lemma no_conflict:
  assumes "stackConflict order states spec = 0" "(k, st) \<in> set states" "rs_InProgress st"
    "rs_StackName st = d_StackName spec" "d_StackName spec \<noteq> []" "table_ok states" "0 \<notin> fst ` set states"
  shows "k = d_DeploymentID spec"
proof (cases "find (\<lambda>(k, st). rs_InProgress st \<and> rs_DeploymentID st \<noteq> d_DeploymentID spec \<and>
    rs_StackName st = d_StackName spec) (shuffle order states)")
  case None
  with assms(2-4,6) show ?thesis by (fastforce simp: find_shuffle_None table_ok_def)
next
  case (Some x)
  obtain k' st' where x: "x = (k', st')" by fastforce
  with find_SomeD [OF Some] have m: "(k', st') \<in> set states" by auto
  with assms(6,7) have "rs_DeploymentID st' = k'" "k' \<noteq> 0"
    by (fastforce simp: table_ok_def, metis fst_conv image_eqI)
  with Some x assms(1,5) show ?thesis by (simp add: stackConflict_def)
qed

lemma table_ok_update: "table_ok states \<Longrightarrow> rs_DeploymentID st = k \<Longrightarrow> table_ok (AList.update k st states)"
  using set_alist_update [of k st states] by (auto simp: table_ok_def distinct_update)

lemma covered_update:
  "covered (AList.update k st states) r =
     (if dr_id r = k then rs_InProgress st \<and> rs_StackName st = dr_stack r else covered states r)"
  by (simp add: covered_def update_conv')

lemma table_ok_entry: "table_ok states \<Longrightarrow> map_of states k = Some st \<Longrightarrow> rs_DeploymentID st = k"
  by (auto simp: table_ok_def dest: map_of_SomeD)

lemma table_ok_expire: "table_ok states \<Longrightarrow> table_ok (expire now states)"
  by (auto simp: table_ok_def expire_def distinct_map_filter)

lemma keys_update: "fst ` set (AList.update k st states) = insert k (fst ` set states)"
  by (simp add: dom_update)

lemma counting_simps [simp]:
  "counting [] = []" "counting (rs @ qs) = counting rs @ counting qs"
  "counting (r # rs) = (if dr_counts r then r # counting rs else counting rs)"
  by (simp_all add: counting_def)

lemma counting_release: "counting (release dep rs) = filter (\<lambda>r. dr_id r \<noteq> dep) (counting rs)"
  by (induction rs) (auto simp: release_def)

lemma counting_remove: "filter (\<lambda>q. dr_id q \<noteq> dr_id r) (counting (remove1 r rs)) = filter (\<lambda>q. dr_id q \<noteq> dr_id r) (counting rs)"
proof (induction rs)
  case (Cons q qs)
  then show ?case by (cases "q = r") simp_all
qed simp

lemma counting_expired: "counting (release_expired now states rs) =
    filter (\<lambda>r. \<not> (\<exists>st. map_of states (dr_id r) = Some st \<and> expired now st)) (counting rs)"
  by (induction rs) (auto simp: release_expired_def split: option.splits)

lemma map_of_filter_keep:
  "distinct (map fst m) \<Longrightarrow> map_of m k = Some v \<Longrightarrow> P (k, v) \<Longrightarrow> map_of (filter P m) k = Some v"
  by (simp add: distinct_map_filter)

lemma covered_expire:
  assumes "table_ok states" "covered states r" "\<not> (\<exists>st. map_of states (dr_id r) = Some st \<and> expired now st)"
  shows "covered (expire now states) r"
proof -
  obtain st where "map_of states (dr_id r) = Some st" using assms(2) by (auto simp: covered_def split: option.splits)
  moreover from this have "map_of (expire now states) (dr_id r) = Some st"
    using assms(1,3) unfolding expire_def by (auto simp: table_ok_def intro: map_of_filter_keep)
  ultimately show ?thesis using assms(2) by (simp add: covered_def)
qed

lemma ids_release: "map dr_id (release dep rs) = map dr_id rs"
  by (simp add: release_def)

lemma ids_release_expired: "map dr_id (release_expired now states rs) = map dr_id rs"
  by (simp add: release_expired_def split: option.splits)

lemma ids_sets [simp]:
  "dr_id ` set (release dep rs) = dr_id ` set rs"
  "dr_id ` set (release_expired now states rs) = dr_id ` set rs"
  by (metis ids_release list.set_map) (metis ids_release_expired list.set_map)

lemma named_filter: "distinct (named_stacks rs) \<Longrightarrow> distinct (named_stacks (filter P rs))"
  by (induction rs) (auto simp: named_stacks_def)

lemma distinct_ids_filter: "distinct (map dr_id rs) \<Longrightarrow> distinct (map dr_id (filter P rs))"
  by (rule distinct_map_filter)

text \<open>What each critical section does to the table and to the runs that count.\<close>

lemma admit_cases:
  assumes "admit order ctx env now states = (v, t)"
  shows "(\<forall>spec. v \<noteq> Admitted spec) \<and> t = states \<or>
    (\<exists>spec st. v = Admitted spec \<and> t = AList.update (d_DeploymentID spec) st states \<and>
       rs_DeploymentID st = d_DeploymentID spec \<and> rs_StackName st = d_StackName spec \<and> rs_InProgress st \<and>
       stackConflict order states spec = 0 \<and>
       (\<forall>old. map_of states (d_DeploymentID spec) = Some old \<longrightarrow> \<not> rs_InProgress old))"
proof (cases v)
  case (Admitted spec)
  with assms show ?thesis
    by (auto simp: admit_def Let_def split: sum.splits if_splits option.splits intro!: exI)
qed (use assms in \<open>auto simp: admit_def Let_def split: sum.splits if_splits option.splits\<close>)

lemma dinv_admitted:
  assumes i: "dinv w" and a: "admit order ctx env now (tbl w) = (Admitted spec, t)"
  shows "dinv \<lparr>tbl = t, runs = runs w @ [\<lparr>dr_id = d_DeploymentID spec, dr_stack = d_StackName spec, dr_counts = True\<rparr>],
      zero = (zero w \<or> d_DeploymentID spec = 0)\<rparr>"
proof -
  from admit_cases [OF a] obtain st where t: "t = AList.update (d_DeploymentID spec) st (tbl w)"
    and st: "rs_DeploymentID st = d_DeploymentID spec" "rs_StackName st = d_StackName spec" "rs_InProgress st"
    and c: "stackConflict order (tbl w) spec = 0"
    and old: "\<And>e. map_of (tbl w) (d_DeploymentID spec) = Some e \<Longrightarrow> \<not> rs_InProgress e" by auto
  have new: "dr_id r \<noteq> d_DeploymentID spec" if "r \<in> set (counting (runs w))" for r
    using that i old by (fastforce simp: dinv_def covered_def list_all_iff split: option.splits)
  have stack: "dr_stack r \<noteq> d_StackName spec"
    if r: "r \<in> set (counting (runs w))" and "\<not> zero w" "d_StackName spec \<noteq> []" for r
  proof
    assume eq: "dr_stack r = d_StackName spec"
    from i r obtain e where "map_of (tbl w) (dr_id r) = Some e" "rs_InProgress e" "rs_StackName e = dr_stack r"
      by (auto simp: dinv_def covered_def list_all_iff split: option.splits)
    with no_conflict [OF c, of "dr_id r" e] i that eq have "dr_id r = d_DeploymentID spec"
      by (auto simp: dinv_def dest: map_of_SomeD)
    with new [OF r] show False by simp
  qed
  have "list_all (covered t) (counting (runs w))"
    using i new unfolding t by (auto simp: dinv_def list_all_iff covered_update)
  moreover have "covered t \<lparr>dr_id = d_DeploymentID spec, dr_stack = d_StackName spec, dr_counts = True\<rparr>"
    using st unfolding t by (simp add: covered_update)
  moreover have "table_ok t" using i st(1) unfolding t by (simp add: dinv_def table_ok_update)
  moreover have "zero w \<or> distinct (named_stacks (counting (runs w) @ [\<lparr>dr_id = d_DeploymentID spec, dr_stack = d_StackName spec, dr_counts = True\<rparr>]))"
    using i stack by (cases "d_StackName spec = []") (fastforce simp: dinv_def named_stacks_def)+
  moreover have "d_DeploymentID spec \<notin> dr_id ` set (counting (runs w))" using new by (metis imageE)
  moreover have "fst ` set t = insert (d_DeploymentID spec) (fst ` set (tbl w))" unfolding t by (rule keys_update)
  ultimately show ?thesis using i unfolding dinv_def by auto
qed

lemma dinv_update:
  assumes "dinv w" "k \<in> dr_id ` set (runs w)" "rs_DeploymentID st = k"
    "\<And>old. map_of (tbl w) k = Some old \<Longrightarrow> rs_StackName st = rs_StackName old \<and> (rs_InProgress old \<longrightarrow> rs_InProgress st)"
  shows "dinv (w\<lparr>tbl := AList.update k st (tbl w)\<rparr>)"
proof -
  have "covered (AList.update k st (tbl w)) r" if "r \<in> set (counting (runs w))" for r
  proof -
    have "covered (tbl w) r" using that assms(1) by (simp add: dinv_def list_all_iff)
    with assms(4) show ?thesis by (auto simp: covered_update) (auto simp: covered_def split: option.splits)
  qed
  moreover have "table_ok (AList.update k st (tbl w))"
    using assms(1,3) by (simp add: dinv_def table_ok_update)
  ultimately show ?thesis using assms(1,2) by (auto simp: dinv_def list_all_iff keys_update)
qed

lemma dinv_release:
  assumes "dinv w" "k \<in> dr_id ` set (runs w)" "t = tbl w \<or> (\<exists>st. rs_DeploymentID st = k \<and> t = AList.update k st (tbl w))"
    and "counting rs = filter (\<lambda>r. dr_id r \<noteq> k) (counting (runs w))" "dr_id ` set rs \<subseteq> dr_id ` set (runs w)"
  shows "dinv (w\<lparr>tbl := t, runs := rs\<rparr>)"
proof -
  have "covered t r" if "r \<in> set (counting rs)" for r
  proof -
    have "covered (tbl w) r" "dr_id r \<noteq> k" using that assms(1,4) by (auto simp: dinv_def list_all_iff)
    with assms(3) show ?thesis by (auto simp: covered_update)
  qed
  moreover have "table_ok t" using assms(1,3) by (auto simp: dinv_def table_ok_update)
  moreover have "fst ` set t \<subseteq> insert k (fst ` set (tbl w))" using assms(3) by (elim disjE exE conjE) (auto simp: keys_update simp del: fst_conv)
  then have "zero w \<or> 0 \<notin> fst ` set t" using assms(1,2) unfolding dinv_def by blast
  moreover have "zero w \<or> 0 \<notin> dr_id ` set rs" using assms(1,5) by (auto simp: dinv_def)
  moreover have "distinct (map dr_id (counting rs))" "zero w \<or> distinct (named_stacks (counting rs))"
    using assms(1) unfolding dinv_def assms(4) by (blast intro: named_filter distinct_ids_filter)+
  ultimately show ?thesis unfolding dinv_def list_all_iff by auto
qed

lemma note_progress_facts:
  "rs_DeploymentID (note_progress now dep status m p states) = (case map_of states dep of Some st \<Rightarrow> rs_DeploymentID st | None \<Rightarrow> dep)"
  "map_of states dep = Some old \<Longrightarrow> rs_StackName (note_progress now dep status m p states) = rs_StackName old \<and>
     (rs_InProgress (note_progress now dep status m p states) \<longleftrightarrow> rs_InProgress old \<and> \<not> terminal_status status)"
  by (auto simp: note_progress_def Let_def fresh_state_def split: option.splits)

lemma dinv_progress:
  assumes i: "dinv w" and r: "r \<in> set (runs w)"
    and t: "progress_cb stamp rootctx now (dr_id r) status m p (tbl w) = (snt, t)"
  shows "dinv (w\<lparr>tbl := t, runs := (if terminal_status status then release (dr_id r) (runs w) else runs w)\<rparr>)"
proof -
  let ?st = "note_progress now (dr_id r) status m p (tbl w)"
  have t': "t = AList.update (dr_id r) ?st (tbl w)" using t by (simp add: progress_cb_def Let_def)
  have k: "dr_id r \<in> dr_id ` set (runs w)" using r by simp
  have d: "rs_DeploymentID ?st = dr_id r"
    using i unfolding dinv_def by (auto simp: note_progress_facts(1) intro: table_ok_entry split: option.splits)
  show ?thesis
  proof (cases "terminal_status status")
    case True
    have "counting (release (dr_id r) (runs w)) = filter (\<lambda>q. dr_id q \<noteq> dr_id r) (counting (runs w))"
      by (rule counting_release)
    from dinv_release [OF i k _ this, of t] d t' True show ?thesis by auto
  next
    case False
    with dinv_update [OF i k d] note_progress_facts(2) t' show ?thesis by auto
  qed
qed

lemma dinv_finished:
  assumes i: "dinv w" and r: "r \<in> set (runs w)"
  shows "dinv (w\<lparr>tbl := finish_run now (dr_id r) res (tbl w), runs := release (dr_id r) (remove1 r (runs w))\<rparr>)"
proof (rule dinv_release [OF i, of "dr_id r"])
  show "finish_run now (dr_id r) res (tbl w) = tbl w \<or>
      (\<exists>st. rs_DeploymentID st = dr_id r \<and> finish_run now (dr_id r) res (tbl w) = AList.update (dr_id r) st (tbl w))"
  proof (cases "map_of (tbl w) (dr_id r)")
    case (Some st)
    with i have "rs_DeploymentID st = dr_id r" unfolding dinv_def by (blast intro: table_ok_entry)
    then have "rs_DeploymentID (ended now res st) = dr_id r" by (simp add: ended_def split: option.splits)
    with Some show ?thesis by (auto simp: finish_run_def)
  qed (simp add: finish_run_def)
  show "counting (release (dr_id r) (remove1 r (runs w))) = filter (\<lambda>q. dr_id q \<noteq> dr_id r) (counting (runs w))"
    by (simp add: counting_release counting_remove)
qed (use r set_remove1_subset [of r "runs w"] in auto)

lemma dinv_expiry:
  assumes "dinv w"
  shows "dinv (w\<lparr>tbl := expire now (tbl w), runs := release_expired now (tbl w) (runs w)\<rparr>)"
proof -
  have "list_all (covered (expire now (tbl w))) (counting (release_expired now (tbl w) (runs w)))"
    using assms by (auto simp: dinv_def list_all_iff counting_expired covered_expire)
  moreover have "fst ` set (expire now (tbl w)) \<subseteq> fst ` set (tbl w)" by (auto simp: expire_def)
  ultimately show ?thesis
    using assms by (auto simp: dinv_def table_ok_expire counting_expired named_filter distinct_ids_filter)
qed

interpretation admission: guarded_system dstart dstep dinv
proof
  show "dstart w \<Longrightarrow> dinv w" for w
    by (simp add: dstart_def dinv_def table_ok_def named_stacks_def)
  show "dinv w'" if i: "dinv w" and "dstep w w'" for w w'
    using that(2)
  proof cases
    case (rejected order ctx env now v t)
    with admit_cases [OF rejected(2)] i show ?thesis by auto
  qed (use dinv_admitted [OF i] dinv_progress [OF i] dinv_finished [OF i] dinv_expiry [OF i] in auto)
qed

text \<open>
  C17: Deployments are serialised by stack. In every reachable state of the in-flight table,
  however admissions, progress reports, ends of runs and expiries interleave, the runs that
  still count as in flight have pairwise different deployment ids, and unless a deployment
  with the id 0 was ever admitted they are all on different stacks (those without a stack
  name apart). The entry of each of them says that it is in progress.
\<close>

theorem admission_exclusive:
  assumes "dstart w0" and "dstep\<^sup>*\<^sup>* w0 w"
  shows "distinct (map dr_id (counting (runs w))) \<and>
    (zero w \<or> distinct (named_stacks (counting (runs w)))) \<and>
    (\<forall>r\<in>set (counting (runs w)). covered (tbl w) r)"
  using admission.reachable_inv [OF assms] by (auto simp: dinv_def list_all_iff)


text \<open>A first deployment is admitted and counts.\<close>

definition sample_env :: "DeploymentSpec \<Rightarrow> Envelope" where
  "sample_env s = \<lparr>e_Type = ''deploy'', e_CommandID = ''c1'', e_RequestID = [], e_TraceID = [], e_Payload = e_spec s\<rparr>"

definition sample_ctx :: cmdctx where
  "sample_ctx = \<lparr>cx_Command = Some ''c1'', cx_RequestID = [], cx_TraceID = [], cx_JobID = []\<rparr>"

lemma sample_parses: "ParseDeploymentSpec (e_spec (sample_spec\<lparr>d_DeploymentID := 12\<rparr>)) = Inr (sample_spec\<lparr>d_DeploymentID := 12\<rparr>)"
  "ParseDeploymentSpec (e_spec (sample_spec\<lparr>d_DeploymentID := 13\<rparr>)) = Inr (sample_spec\<lparr>d_DeploymentID := 13\<rparr>)"
  by (rule parse_encoded; simp add: sample_spec_def ints_ok_def int64_range_def)+

lemma sample_admitted:
  "\<exists>t. admit [] sample_ctx (sample_env (sample_spec\<lparr>d_DeploymentID := 12\<rparr>)) 0 [] = (Admitted (sample_spec\<lparr>d_DeploymentID := 12\<rparr>), t)"
  by (simp add: admit_def sample_env_def sample_parses stackConflict_def Let_def)

theorem admission_exclusive_witness:
  "\<exists>w0 w. dstart w0 \<and> dstep\<^sup>*\<^sup>* w0 w \<and> map dr_stack (counting (runs w)) = [''shop''] \<and>
     distinct (named_stacks (counting (runs w)))"
proof -
  let ?w0 = "\<lparr>tbl = [], runs = [], zero = False\<rparr>"
  from sample_admitted obtain t where t: "admit [] sample_ctx (sample_env (sample_spec\<lparr>d_DeploymentID := 12\<rparr>)) 0 (tbl ?w0) =
    (Admitted (sample_spec\<lparr>d_DeploymentID := 12\<rparr>), t)" by auto
  have s: "dstart ?w0" by (simp add: dstart_def)
  have r: "dstep\<^sup>*\<^sup>* ?w0 \<lparr>tbl = t, runs = [\<lparr>dr_id = 12, dr_stack = ''shop'', dr_counts = True\<rparr>], zero = False\<rparr>"
    using dstep.admitted [OF t] by (simp add: sample_spec_def)
  from admission_exclusive [OF s r] s r show ?thesis
    by (intro exI [of _ ?w0] exI [of _ "\<lparr>tbl = t, runs = [\<lparr>dr_id = 12, dr_stack = ''shop'', dr_counts = True\<rparr>], zero = False\<rparr>"]) simp
qed

section \<open>A rollback reopens its stack\<close>

lemma events_bind_emit:
  assumes "extends (f ())"
  shows "events (State_Monad.bind (emit ev) f) h = ev # events (f ()) (h @ [ev])"
proof -
  obtain es where "final_hist (f ()) (h @ [ev]) = (h @ [ev]) @ es"
    using assms unfolding emits_def by blast
  then show ?thesis by (simp add: events_def final_hist_def emit_def)
qed

lemma rollback_events:
  assumes "updated \<noteq> []"
  shows "\<exists>m p rest. events (rollbackContainers E spec snaps updated) h =
    EvProgress (d_DeploymentID spec) ''failed'' m p # rest"
proof -
  have "extends (forM (rev updated) (\<lambda>idx.
      if idx < length snaps \<and> sn_SpecIdx (snaps ! idx) < length (d_Containers spec)
      then rollback_one E spec (snaps ! idx) else emit (EvPanic ''index out of range'')))"
    by (auto simp: rollback_one_def Let_def GenerateSuffix_def client_ops intro!: emits_intros emits_forM)
  from events_bind_emit [OF this] assms show ?thesis
    by (auto simp: rollbackContainers_def reportProgress_def)
qed

text \<open>
  C18: A rollback gives its stack away before it has ended. While a deployment is in progress
  a second one of its stack is refused; but the first event of the rollback of a rolling
  update is the report "failed", and from then on the second deployment is admitted,
  although the rollback has still to restore its containers.
\<close>

theorem rollback_reopens_stack:
  assumes "updated \<noteq> []" and "d_DeploymentID spec \<noteq> 0" and "d_DeploymentID next \<noteq> d_DeploymentID spec"
    and "ParseDeploymentSpec (e_Payload env) = Inr next" and "d_StackName next \<noteq> []"
    and "states = [(d_DeploymentID spec, st)]" and "rs_DeploymentID st = d_DeploymentID spec"
    and "rs_InProgress st" and "rs_StackName st = d_StackName next"
  shows "fst (admit order ctx env now states) = Conflict (d_DeploymentID spec) \<and>
    (\<exists>m p rest. events (rollbackContainers E spec snaps updated) h =
       EvProgress (d_DeploymentID spec) ''failed'' m p # rest \<and>
     fst (admit order ctx env now
       (snd (progress_cb stamp rootctx now (d_DeploymentID spec) ''failed'' m p states))) = Admitted next)"
proof
  have sh: "shuffle order [x] = [x]" for x :: "int \<times> deploymentRunState" by (cases order) simp_all
  show "fst (admit order ctx env now states) = Conflict (d_DeploymentID spec)"
    using assms by (simp add: admit_def stackConflict_def sh Let_def)
  obtain m p rest where e: "events (rollbackContainers E spec snaps updated) h =
      EvProgress (d_DeploymentID spec) ''failed'' m p # rest" using rollback_events [OF assms(1)] by blast
  have "snd (progress_cb stamp rootctx now (d_DeploymentID spec) ''failed'' m p states) =
      [(d_DeploymentID spec, note_progress now (d_DeploymentID spec) ''failed'' m p states)]"
    using assms(6) by (simp add: progress_cb_def Let_def)
  moreover have "\<not> rs_InProgress (note_progress now (d_DeploymentID spec) ''failed'' m p states)"
    by (simp add: note_progress_def Let_def terminal_status_def)
  ultimately have "fst (admit order ctx env now
       (snd (progress_cb stamp rootctx now (d_DeploymentID spec) ''failed'' m p states))) = Admitted next"
    using assms(3,4) by (simp add: admit_def stackConflict_def sh Let_def)
  with e show "\<exists>m p rest. events (rollbackContainers E spec snaps updated) h =
       EvProgress (d_DeploymentID spec) ''failed'' m p # rest \<and>
     fst (admit order ctx env now
       (snd (progress_cb stamp rootctx now (d_DeploymentID spec) ''failed'' m p states))) = Admitted next" by blast
qed

definition numbered :: "int \<Rightarrow> DeploymentSpec" where
  "numbered n = sample_spec\<lparr>d_DeploymentID := n\<rparr>"

definition sample_state :: deploymentRunState where
  "sample_state = (fresh_state 12 0)\<lparr>rs_StackName := ''shop''\<rparr>"

definition sample_snap :: containerSnapshot where
  "sample_snap = \<lparr>sn_Name = ''web-1'', sn_OldImage = ''nginx:1.26'', sn_SpecIdx = 0, sn_Replica = 0, sn_OldID = ''old''\<rparr>"

theorem rollback_reopens_stack_witness:
  "\<exists>m p rest. events (rollbackContainers calm_host (numbered 12) [sample_snap] [0]) [] = EvProgress 12 ''failed'' m p # rest \<and>
     fst (admit [] sample_ctx (sample_env (numbered 13)) 0
       (snd (progress_cb Itoa sample_ctx 0 12 ''failed'' m p [(12, sample_state)]))) = Admitted (numbered 13)"
proof -
  have f: "d_DeploymentID (numbered n) = n" "d_StackName (numbered n) = ''shop''" for n
    by (simp_all add: numbered_def sample_spec_def)
  have "ParseDeploymentSpec (e_Payload (sample_env (numbered 13))) = Inr (numbered 13)"
    by (simp add: sample_env_def numbered_def sample_parses)
  from rollback_reopens_stack [of "[0]" "numbered 12" "numbered 13" _ "[(12, sample_state)]" sample_state, OF _ _ _ this]
  show ?thesis unfolding f by (simp add: sample_state_def fresh_state_def)
qed

end
