(* ===== verification/Db_Inflight.thy ===== *)
theory Db_Inflight
  imports Transitions
begin

text \<open>
  The serialisation of database creates and removes by container name (db_inflight.go). The
  table maps a name to an operation object that all goroutines of the name share, so the
  objects live in a heap and the table and the goroutines hold addresses; an object leaves
  the table when the last goroutine releases it. Every critical section of the source, every
  lock and every unlock is one step.
\<close>

section \<open>The table and its operations\<close>

record dbNameOp =
  op_locked :: bool
  op_cancel :: "nat option"
  op_refs :: nat

text \<open>
  A goroutine: its number, the name, its object, whether it is a create, and where it
  stands. \<open>Arrived\<close> is a remove that has not yet looked for a create to cancel; \<open>Held\<close> is a
  create that has the lock but has not yet registered its cancel function; \<open>Unregistered\<close> one
  that has withdrawn it and still holds the lock.
\<close>

datatype pc = Arrived | Waiting | Held | Running | Unregistered | Released

record dbthread =
  t_id :: nat
  t_name :: string
  t_op :: nat
  t_create :: bool
  t_pc :: pc

record dbtable =
  dbOps :: "(string \<times> nat) list"
  heap :: "nat \<Rightarrow> dbNameOp"
  next_op :: nat
  threads :: "dbthread list"
  cancelled :: "nat list"

definition new_op :: dbNameOp where
  "new_op = \<lparr>op_locked = False, op_cancel = None, op_refs = 0\<rparr>"

definition set_op :: "nat \<Rightarrow> (dbNameOp \<Rightarrow> dbNameOp) \<Rightarrow> dbtable \<Rightarrow> dbtable" where
  "set_op a f s = s\<lparr>heap := (heap s)(a := f (heap s a))\<rparr>"

definition dbOpFor :: "string \<Rightarrow> dbtable \<Rightarrow> nat \<times> dbtable" where
  "dbOpFor name s = (case map_of (dbOps s) name of
     Some a \<Rightarrow> (a, set_op a (\<lambda>x. x\<lparr>op_refs := op_refs x + 1\<rparr>) s)
   | None \<Rightarrow> (next_op s, s\<lparr>heap := (heap s)(next_op s := new_op\<lparr>op_refs := 1\<rparr>),
        dbOps := AList.update name (next_op s) (dbOps s), next_op := next_op s + 1\<rparr>))"

definition releaseDbOp :: "string \<Rightarrow> nat \<Rightarrow> dbtable \<Rightarrow> dbtable" where
  "releaseDbOp name a s =
     (let s' = set_op a (\<lambda>x. x\<lparr>op_refs := op_refs x - 1\<rparr>) s in
      if op_refs (heap s' a) = 0 then s'\<lparr>dbOps := AList.delete name (dbOps s')\<rparr> else s')"

section \<open>Goroutines in \<open>beginDbCreate\<close>, \<open>beginDbRemove\<close> and their finish functions\<close>

inductive istep :: "dbtable \<Rightarrow> dbtable \<Rightarrow> bool" where
  begin_op: "dbOpFor n s = (a, s') \<Longrightarrow> i \<notin> t_id ` set (threads s) \<Longrightarrow>
    istep s (s'\<lparr>threads := \<lparr>t_id = i, t_name = n, t_op = a, t_create = c,
      t_pc = (if c then Waiting else Arrived)\<rparr> # threads s\<rparr>)"
| cancel_create: "threads s = xs @ t # ys \<Longrightarrow> t_pc t = Arrived \<Longrightarrow>
    istep s (s\<lparr>threads := xs @ t\<lparr>t_pc := Waiting\<rparr> # ys,
      cancelled := (case op_cancel (heap s (t_op t)) of Some k \<Rightarrow> k # cancelled s | None \<Rightarrow> cancelled s)\<rparr>)"
| lock: "threads s = xs @ t # ys \<Longrightarrow> t_pc t = Waiting \<Longrightarrow> \<not> op_locked (heap s (t_op t)) \<Longrightarrow>
    istep s ((set_op (t_op t) (\<lambda>x. x\<lparr>op_locked := True\<rparr>) s)
      \<lparr>threads := xs @ t\<lparr>t_pc := (if t_create t then Held else Running)\<rparr> # ys\<rparr>)"
| register: "threads s = xs @ t # ys \<Longrightarrow> t_pc t = Held \<Longrightarrow>
    istep s ((set_op (t_op t) (\<lambda>x. x\<lparr>op_cancel := Some (t_id t)\<rparr>) s)\<lparr>threads := xs @ t\<lparr>t_pc := Running\<rparr> # ys\<rparr>)"
| unregister: "threads s = xs @ t # ys \<Longrightarrow> t_pc t = Running \<Longrightarrow> t_create t \<Longrightarrow>
    istep s ((set_op (t_op t) (\<lambda>x. x\<lparr>op_cancel := None\<rparr>) s)\<lparr>threads := xs @ t\<lparr>t_pc := Unregistered\<rparr> # ys\<rparr>)"
| unlock: "threads s = xs @ t # ys \<Longrightarrow> t_pc t = Unregistered \<or> t_pc t = Running \<and> \<not> t_create t \<Longrightarrow>
    istep s ((set_op (t_op t) (\<lambda>x. x\<lparr>op_locked := False\<rparr>) s)\<lparr>threads := xs @ t\<lparr>t_pc := Released\<rparr> # ys\<rparr>)"
| release: "threads s = xs @ t # ys \<Longrightarrow> t_pc t = Released \<Longrightarrow>
    istep s ((releaseDbOp (t_name t) (t_op t) s)\<lparr>threads := xs @ ys\<rparr>)"

inductive_cases istepE: "istep s s'"

definition istart :: "dbtable \<Rightarrow> bool" where
  "istart s = (dbOps s = [] \<and> threads s = [] \<and> cancelled s = [])"

section \<open>The invariant\<close>

definition holds :: "dbthread \<Rightarrow> bool" where
  "holds t = (t_pc t \<in> {Held, Running, Unregistered})"

definition active_create :: "dbthread \<Rightarrow> bool" where
  "active_create t = (t_create t \<and> t_pc t = Running)"

text \<open>How many goroutines of an object satisfy a predicate.\<close>

definition cnt :: "(dbthread \<Rightarrow> bool) \<Rightarrow> nat \<Rightarrow> dbthread list \<Rightarrow> nat" where
  "cnt P a ts = length (filter (\<lambda>t. t_op t = a \<and> P t) ts)"

text \<open>
  The table: its keys and its addresses are distinct and in use, and every goroutine holds
  the address the table has for its name.
\<close>

definition addr_ok :: "dbtable \<Rightarrow> bool" where
  "addr_ok s = (distinct (map fst (dbOps s)) \<and> distinct (map snd (dbOps s)) \<and>
     (\<forall>(n, a)\<in>set (dbOps s). a < next_op s) \<and>
     (\<forall>t\<in>set (threads s). (t_name t, t_op t) \<in> set (dbOps s)) \<and> distinct (map t_id (threads s)))"

text \<open>
  The objects: the reference count is the number of goroutines and not zero, the lock is held
  by one goroutine or by none, and the cancel function is that of the create that runs.
\<close>

definition op_ok :: "dbthread list \<Rightarrow> nat \<Rightarrow> dbNameOp \<Rightarrow> bool" where
  "op_ok ts a x = (op_refs x = cnt (\<lambda>t. True) a ts \<and> 0 < op_refs x \<and>
     cnt holds a ts = (if op_locked x then 1 else 0) \<and>
     (\<forall>i. op_cancel x = Some i \<longleftrightarrow> (\<exists>t\<in>set ts. t_id t = i \<and> t_op t = a \<and> active_create t)))"

definition iinv :: "dbtable \<Rightarrow> bool" where
  "iinv s = (addr_ok s \<and> (\<forall>a\<in>snd ` set (dbOps s). op_ok (threads s) a (heap s a)) \<and>
     (\<forall>t\<in>set (threads s). t_pc t \<in> {Held, Unregistered} \<longrightarrow> t_create t))"

lemma cnt_simps [simp]:
  "cnt P a [] = 0" "cnt P a (t # ts) = (if t_op t = a \<and> P t then 1 else 0) + cnt P a ts"
  "cnt P a (xs @ ys) = cnt P a xs + cnt P a ys"
  by (simp_all add: cnt_def)

lemma cnt_zero: "cnt P a ts = 0 \<longleftrightarrow> (\<forall>t\<in>set ts. t_op t = a \<longrightarrow> \<not> P t)"
  by (auto simp: cnt_def filter_empty_conv)

text \<open>
  A step that changes the state of one goroutine and its object: the other objects are
  untouched, so only that object has to be looked at.
\<close>

lemma iinv_change:
  assumes "iinv s" "threads s = xs @ t # ys" "t' = t\<lparr>t_pc := p\<rparr>"
    and "op_ok (xs @ t' # ys) (t_op t) (f (heap s (t_op t)))" "p \<in> {Held, Unregistered} \<longrightarrow> t_create t"
  shows "iinv ((set_op (t_op t) f s)\<lparr>threads := xs @ t' # ys, cancelled := cs\<rparr>)"
proof -
  have other: "op_ok (xs @ t' # ys) a x = op_ok (xs @ t # ys) a x" if "a \<noteq> t_op t" for a x
    using that assms(3) by (auto simp: op_ok_def)
  have "addr_ok ((set_op (t_op t) f s)\<lparr>threads := xs @ t' # ys, cancelled := cs\<rparr>)"
    using assms(1-3) by (auto simp: iinv_def addr_ok_def set_op_def)
  moreover have "op_ok (xs @ t' # ys) a (heap (set_op (t_op t) f s) a)" if "a \<in> snd ` set (dbOps s)" for a
    using that assms(1,2,4) other by (auto simp: iinv_def set_op_def)
  moreover have "u \<in> set (xs @ t' # ys) \<Longrightarrow> t_pc u \<in> {Held, Unregistered} \<Longrightarrow> t_create u" for u
    using assms(1-3,5) by (auto simp: iinv_def)
  ultimately show ?thesis
    unfolding iinv_def by (intro conjI ballI impI) (simp_all, simp add: set_op_def)
qed

lemma thread_op:
  assumes "iinv s" "threads s = xs @ t # ys"
  shows "op_ok (xs @ t # ys) (t_op t) (heap s (t_op t))"
proof -
  have "(t_name t, t_op t) \<in> set (dbOps s)" using assms by (auto simp: iinv_def addr_ok_def)
  then have "t_op t \<in> snd ` set (dbOps s)" by (metis image_eqI snd_conv)
  with assms show ?thesis by (auto simp: iinv_def)
qed

text \<open>What is left of an object when one of its goroutines is set aside.\<close>

lemma op_split:
  assumes "op_ok (xs @ t # ys) (t_op t) x"
  shows "cnt holds (t_op t) (xs @ ys) + (if holds t then 1 else 0) = (if op_locked x then 1 else 0)"
    "op_refs x = cnt (\<lambda>t. True) (t_op t) (xs @ ys) + 1"
    "op_cancel x = Some i \<longleftrightarrow> t_id t = i \<and> active_create t \<or>
       (\<exists>u\<in>set (xs @ ys). t_id u = i \<and> t_op u = t_op t \<and> active_create u)"
  using assms by (auto simp: op_ok_def)

lemma op_join:
  assumes "cnt holds a (xs @ ys) + (if holds t then 1 else 0) = (if op_locked x then 1 else 0)"
    "op_refs x = cnt (\<lambda>t. True) a (xs @ ys) + 1" "t_op t = a"
    "\<And>i. op_cancel x = Some i \<longleftrightarrow> t_id t = i \<and> active_create t \<or>
       (\<exists>u\<in>set (xs @ ys). t_id u = i \<and> t_op u = a \<and> active_create u)"
  shows "op_ok (xs @ t # ys) a x"
  using assms by (auto simp: op_ok_def)

lemma active_holds: "active_create t \<Longrightarrow> holds t"
  by (simp add: active_create_def holds_def)

text \<open>When a goroutine has the lock no other one of its object runs.\<close>

lemma alone:
  assumes "op_ok (xs @ t # ys) (t_op t) x" "holds t" "u \<in> set (xs @ ys)" "t_op u = t_op t"
  shows "\<not> holds u" "\<not> active_create u"
proof -
  have "cnt holds (t_op t) (xs @ ys) = 0" using op_split(1) [OF assms(1)] assms(2) by (auto split: if_splits)
  with assms(3,4) show "\<not> holds u" unfolding cnt_zero by blast
  then show "\<not> active_create u" by (blast dest: active_holds)
qed

lemma iinv_cancel:
  assumes "iinv s" "threads s = xs @ t # ys" "t_pc t = Arrived"
  shows "iinv (s\<lparr>threads := xs @ t\<lparr>t_pc := Waiting\<rparr> # ys, cancelled := cs\<rparr>)"
proof -
  note o = op_split [OF thread_op [OF assms(1,2)]]
  have "op_ok (xs @ t\<lparr>t_pc := Waiting\<rparr> # ys) (t_op t) (id (heap s (t_op t)))"
    by (rule op_join) (use o assms(3) in \<open>simp_all add: holds_def active_create_def\<close>)
  from iinv_change [OF assms(1,2) refl, of _ id cs, OF this] show ?thesis by (simp add: set_op_def)
qed

lemma iinv_lock:
  assumes "iinv s" "threads s = xs @ t # ys" "t_pc t = Waiting" "\<not> op_locked (heap s (t_op t))"
  shows "iinv ((set_op (t_op t) (\<lambda>x. x\<lparr>op_locked := True\<rparr>) s)
      \<lparr>threads := xs @ t\<lparr>t_pc := (if t_create t then Held else Running)\<rparr> # ys\<rparr>)"
proof -
  note o = op_split [OF thread_op [OF assms(1,2)]]
  have "op_ok (xs @ t\<lparr>t_pc := (if t_create t then Held else Running)\<rparr> # ys) (t_op t) ((heap s (t_op t))\<lparr>op_locked := True\<rparr>)"
    by (rule op_join) (use o assms(3,4) in \<open>simp_all add: holds_def active_create_def\<close>)
  from iinv_change [OF assms(1,2) refl, of _ "\<lambda>x. x\<lparr>op_locked := True\<rparr>" "cancelled s", OF this] show ?thesis
    by (simp add: set_op_def)
qed

lemma iinv_register:
  assumes "iinv s" "threads s = xs @ t # ys" "t_pc t = Held"
  shows "iinv ((set_op (t_op t) (\<lambda>x. x\<lparr>op_cancel := Some (t_id t)\<rparr>) s)\<lparr>threads := xs @ t\<lparr>t_pc := Running\<rparr> # ys\<rparr>)"
proof -
  note ok = thread_op [OF assms(1,2)]
  have c: "t_create t" using assms by (auto simp: iinv_def)
  have h: "holds t" using assms(3) by (simp add: holds_def)
  have "op_ok (xs @ t\<lparr>t_pc := Running\<rparr> # ys) (t_op t) ((heap s (t_op t))\<lparr>op_cancel := Some (t_id t)\<rparr>)"
    by (rule op_join)
      (use op_split [OF ok] alone(2) [OF ok h] h c in \<open>auto simp: holds_def active_create_def\<close>)
  from iinv_change [OF assms(1,2) refl, of _ "\<lambda>x. x\<lparr>op_cancel := Some (t_id t)\<rparr>" "cancelled s", OF this] show ?thesis
    by (simp add: set_op_def)
qed

lemma iinv_unregister:
  assumes "iinv s" "threads s = xs @ t # ys" "t_pc t = Running" "t_create t"
  shows "iinv ((set_op (t_op t) (\<lambda>x. x\<lparr>op_cancel := None\<rparr>) s)\<lparr>threads := xs @ t\<lparr>t_pc := Unregistered\<rparr> # ys\<rparr>)"
proof -
  note ok = thread_op [OF assms(1,2)]
  have h: "holds t" using assms(3) by (simp add: holds_def)
  have "op_ok (xs @ t\<lparr>t_pc := Unregistered\<rparr> # ys) (t_op t) ((heap s (t_op t))\<lparr>op_cancel := None\<rparr>)"
    by (rule op_join)
      (use op_split [OF ok] alone(2) [OF ok h] h in \<open>auto simp: holds_def active_create_def\<close>)
  from iinv_change [OF assms(1,2) refl, of _ "\<lambda>x. x\<lparr>op_cancel := None\<rparr>" "cancelled s", OF this] assms(4) show ?thesis
    by (simp add: set_op_def)
qed

lemma iinv_unlock:
  assumes "iinv s" "threads s = xs @ t # ys" "t_pc t = Unregistered \<or> t_pc t = Running \<and> \<not> t_create t"
  shows "iinv ((set_op (t_op t) (\<lambda>x. x\<lparr>op_locked := False\<rparr>) s)\<lparr>threads := xs @ t\<lparr>t_pc := Released\<rparr> # ys\<rparr>)"
proof -
  note ok = thread_op [OF assms(1,2)]
  have h: "holds t" "\<not> active_create t" using assms(3) by (auto simp: holds_def active_create_def)
  have "op_ok (xs @ t\<lparr>t_pc := Released\<rparr> # ys) (t_op t) ((heap s (t_op t))\<lparr>op_locked := False\<rparr>)"
    by (rule op_join)
      (use op_split [OF ok] alone [OF ok h(1)] h in \<open>auto simp: holds_def active_create_def split: if_splits\<close>)
  from iinv_change [OF assms(1,2) refl, of _ "\<lambda>x. x\<lparr>op_locked := False\<rparr>" "cancelled s", OF this] show ?thesis
    by (simp add: set_op_def)
qed

lemma alist_update_new: "map_of m k = None \<Longrightarrow> AList.update k v m = m @ [(k, v)]"
  by (induction m) (auto split: if_splits)

lemma op_ok_other: "t_op t \<noteq> a \<Longrightarrow> op_ok (xs @ t # ys) a x = op_ok (xs @ ys) a x"
  by (auto simp: op_ok_def)

lemma iinv_begin:
  assumes "iinv s" "dbOpFor n s = (a, s')" "i \<notin> t_id ` set (threads s)"
  shows "iinv (s'\<lparr>threads := \<lparr>t_id = i, t_name = n, t_op = a, t_create = c, t_pc = (if c then Waiting else Arrived)\<rparr> # threads s\<rparr>)"
    (is "iinv (s'\<lparr>threads := ?t # threads s\<rparr>)")
proof (cases "map_of (dbOps s) n")
  case (Some b)
  with assms(2) have ab: "a = b" "s' = set_op a (\<lambda>x. x\<lparr>op_refs := op_refs x + 1\<rparr>) s" by (auto simp: dbOpFor_def)
  have m: "(n, a) \<in> set (dbOps s)" using Some ab(1) by (simp add: map_of_SomeD)
  then have ok: "op_ok (threads s) a (heap s a)" using assms(1) by (force simp: iinv_def)
  have "op_ok ([] @ ?t # threads s) a ((heap s a)\<lparr>op_refs := op_refs (heap s a) + 1\<rparr>)"
    by (rule op_join) (use ok in \<open>auto simp: op_ok_def holds_def active_create_def\<close>)
  moreover have "op_ok ([] @ ?t # threads s) b (heap s b)" if "b \<in> snd ` set (dbOps s)" "b \<noteq> a" for b
    by (subst op_ok_other) (use that assms(1) in \<open>auto simp: iinv_def\<close>)
  ultimately have "op_ok (?t # threads s) b (heap s' b)" if "b \<in> snd ` set (dbOps s)" for b
    using that unfolding ab(2) set_op_def by simp
  moreover have "addr_ok (s'\<lparr>threads := ?t # threads s\<rparr>)"
    using assms(1,3) m by (auto simp: iinv_def addr_ok_def ab(2) set_op_def)
  ultimately show ?thesis
    using assms(1) unfolding iinv_def by (auto simp: ab(2) set_op_def)
next
  case None
  let ?a = "next_op s"
  from None assms(2) have ab: "a = ?a" "s' = s\<lparr>heap := (heap s)(?a := new_op\<lparr>op_refs := 1\<rparr>),
      dbOps := AList.update n ?a (dbOps s), next_op := ?a + 1\<rparr>" by (auto simp: dbOpFor_def)
  have u: "AList.update n ?a (dbOps s) = dbOps s @ [(n, ?a)]"
    using None by (rule alist_update_new)
  have fresh: "(k, ?a) \<notin> set (dbOps s)" "t \<in> set (threads s) \<Longrightarrow> t_op t \<noteq> ?a" for k t
    using assms(1) by (force simp: iinv_def addr_ok_def)+
  then have "op_ok ([] @ ?t # threads s) ?a (new_op\<lparr>op_refs := 1\<rparr>)"
    by (intro op_join) (auto simp: new_op_def ab(1) holds_def active_create_def cnt_zero)
  moreover have "op_ok ([] @ ?t # threads s) b (heap s b)" if "(k, b) \<in> set (dbOps s)" for k b
    by (subst op_ok_other) (use that fresh assms(1) in \<open>force simp: iinv_def ab(1)\<close>)+
  ultimately have "op_ok (?t # threads s) b (heap s' b)" if "b \<in> snd ` set (dbOps s')" for b
    using that fresh unfolding ab(2) by (auto simp: u)
  moreover have "addr_ok (s'\<lparr>threads := ?t # threads s\<rparr>)"
    using assms(1,3) fresh None by (auto simp: iinv_def addr_ok_def ab u map_of_eq_None_iff less_Suc_eq)
  ultimately show ?thesis
    using assms(1) unfolding iinv_def by (auto simp: ab(2))
qed

lemma iinv_release:
  assumes "iinv s" "threads s = xs @ t # ys" "t_pc t = Released"
  shows "iinv ((releaseDbOp (t_name t) (t_op t) s)\<lparr>threads := xs @ ys\<rparr>)"
proof -
  let ?a = "t_op t" and ?x = "heap s (t_op t)"
  note ok = thread_op [OF assms(1,2)]
  have in_tbl: "u \<in> set (xs @ t # ys) \<Longrightarrow> (t_name u, t_op u) \<in> set (dbOps s)" for u
    using assms(1,2) by (auto simp: iinv_def addr_ok_def)
  have d: "distinct (map fst (dbOps s))" "distinct (map snd (dbOps s))" using assms(1) by (auto simp: iinv_def addr_ok_def)
  have keep: "op_ok (xs @ ys) b (heap s b)" if "(k, b) \<in> set (dbOps s)" "b \<noteq> ?a" for k b
    using that op_ok_other [of t b xs ys "heap s b"] assms(1,2) by (force simp: iinv_def)
  have own: "op_ok (xs @ ys) ?a (?x\<lparr>op_refs := op_refs ?x - 1\<rparr>)" if "op_refs ?x - 1 \<noteq> 0"
    using that op_split [OF ok] assms(3) by (auto simp: op_ok_def holds_def active_create_def)
  have rest: "distinct (map t_id (xs @ ys))" "\<forall>u\<in>set (xs @ ys). t_pc u \<in> {Held, Unregistered} \<longrightarrow> t_create u"
    using assms(1,2) by (auto simp: iinv_def addr_ok_def)
  show ?thesis
  proof (cases "op_refs ?x - 1 = 0")
    case True
    then have none: "t_op u \<noteq> ?a" if "u \<in> set (xs @ ys)" for u
      using that op_split(2) [OF ok] by (auto simp: cnt_zero)
    have del: "set (AList.delete (t_name t) (dbOps s)) = {(k, b). (k, b) \<in> set (dbOps s) \<and> b \<noteq> ?a}"
      using d in_tbl [of t] unfolding AList.delete_eq
      by (auto simp: distinct_map inj_on_def) (metis fst_conv snd_conv)+
    have "distinct (map fst (AList.delete (t_name t) (dbOps s)))" "distinct (map snd (AList.delete (t_name t) (dbOps s)))"
      using d by (simp_all add: AList.delete_eq distinct_map_filter)
    with True assms(1) none in_tbl del keep rest show ?thesis
      unfolding iinv_def addr_ok_def releaseDbOp_def Let_def by (auto simp: set_op_def)
  next
    case False
    with assms(1) in_tbl own keep rest d show ?thesis
      unfolding iinv_def addr_ok_def releaseDbOp_def Let_def by (auto simp: set_op_def)
  qed
qed

interpretation dbops: guarded_system istart istep iinv
proof
  show "istart s \<Longrightarrow> iinv s" for s by (simp add: istart_def iinv_def addr_ok_def)
  show "iinv s'" if i: "iinv s" and "istep s s'" for s s'
    using that(2)
    by cases (use iinv_begin [OF i] iinv_cancel [OF i] iinv_lock [OF i] iinv_register [OF i]
        iinv_unregister [OF i] iinv_unlock [OF i] iinv_release [OF i] in auto)
qed

lemma two_holders:
  assumes "cnt holds a ts \<le> 1" "t \<in> set ts" "u \<in> set ts" "t_op t = a" "t_op u = a" "holds t" "holds u"
  shows "t = u"
proof (rule ccontr)
  assume "t \<noteq> u"
  obtain xs ys where ts: "ts = xs @ t # ys" using assms(2) by (meson split_list)
  with \<open>t \<noteq> u\<close> assms(3) have "u \<in> set (xs @ ys)" by auto
  with assms(5,7) have "cnt holds a (xs @ ys) \<noteq> 0" unfolding cnt_zero by blast
  with assms(1,4,6) ts show False by simp
qed

text \<open>
  Creates and removes of one database name exclude each other. In every reachable state of
  the table, however the goroutines interleave: of all creates and removes of a name at most
  one holds its lock and works on the container; the cancel function that a remove would
  call is that of the create of this name that is working, and of no other; and the table
  has an object exactly for the names some goroutine is using, so nothing leaks.
\<close>

theorem db_ops_exclusive:
  assumes "istart s0" and "istep\<^sup>*\<^sup>* s0 s"
  shows "(\<forall>t\<in>set (threads s). \<forall>u\<in>set (threads s). t_name t = t_name u \<longrightarrow> holds t \<longrightarrow> holds u \<longrightarrow> t = u) \<and>
    (\<forall>n a i. map_of (dbOps s) n = Some a \<longrightarrow> (op_cancel (heap s a) = Some i \<longleftrightarrow>
       (\<exists>t\<in>set (threads s). t_id t = i \<and> t_name t = n \<and> active_create t))) \<and>
    fst ` set (dbOps s) = t_name ` set (threads s)"
proof (intro conjI)
  have i: "iinv s" using dbops.reachable_inv [OF assms] .
  then have d: "distinct (map fst (dbOps s))" "distinct (map snd (dbOps s))"
    and in_tbl: "\<And>t. t \<in> set (threads s) \<Longrightarrow> map_of (dbOps s) (t_name t) = Some (t_op t)"
    and ok: "\<And>n a. map_of (dbOps s) n = Some a \<Longrightarrow> op_ok (threads s) a (heap s a)"
    by (auto simp: iinv_def addr_ok_def dest: map_of_SomeD)
  have same: "t_name t = n" if "t \<in> set (threads s)" "map_of (dbOps s) n = Some (t_op t)" for t n
    using that in_tbl d(2) by (metis (no_types, lifting) distinct_map inj_onD map_of_SomeD prod.inject snd_conv)
  show "\<forall>t\<in>set (threads s). \<forall>u\<in>set (threads s). t_name t = t_name u \<longrightarrow> holds t \<longrightarrow> holds u \<longrightarrow> t = u"
  proof (intro ballI impI)
    fix t u assume a: "t \<in> set (threads s)" "u \<in> set (threads s)" "t_name t = t_name u" "holds t" "holds u"
    then have "t_op u = t_op t" using in_tbl by (metis option.inject)
    moreover have "cnt holds (t_op t) (threads s) \<le> 1"
      using ok [OF in_tbl [OF a(1)]] by (simp add: op_ok_def)
    ultimately show "t = u" using a two_holders by blast
  qed
  show "\<forall>n a i. map_of (dbOps s) n = Some a \<longrightarrow> (op_cancel (heap s a) = Some i \<longleftrightarrow>
       (\<exists>t\<in>set (threads s). t_id t = i \<and> t_name t = n \<and> active_create t))"
    using ok same in_tbl unfolding op_ok_def by (metis option.inject)
  show "fst ` set (dbOps s) = t_name ` set (threads s)"
  proof
    show "t_name ` set (threads s) \<subseteq> fst ` set (dbOps s)" using in_tbl by (force dest: map_of_SomeD)
    show "fst ` set (dbOps s) \<subseteq> t_name ` set (threads s)"
    proof
      fix n assume "n \<in> fst ` set (dbOps s)"
      then obtain a where a: "map_of (dbOps s) n = Some a" using d(1) by force
      with ok [OF a] have "cnt (\<lambda>t. True) a (threads s) \<noteq> 0" by (simp add: op_ok_def)
      then obtain t where "t \<in> set (threads s)" "t_op t = a" by (auto simp: cnt_zero)
      with a same show "n \<in> t_name ` set (threads s)" by blast
    qed
  qed
qed

text \<open>A create that has the lock and a remove that waits for it, having cancelled it.\<close>

definition demo_ops :: "nat \<Rightarrow> dbtable" where
  "demo_ops k = \<lparr>dbOps = (if k = 0 then [] else [(''db'', 0)]),
     heap = (\<lambda>_. new_op)(0 := (if k = 0 then new_op else
       \<lparr>op_locked = 2 \<le> k, op_cancel = (if 3 \<le> k then Some 1 else None), op_refs = (if k < 4 then 1 else 2)\<rparr>)),
     next_op = (if k = 0 then 0 else 1),
     threads = (if k = 0 then [] else if k < 4 then [] else [\<lparr>t_id = 2, t_name = ''db'', t_op = 0, t_create = False,
         t_pc = (if k < 5 then Arrived else Waiting)\<rparr>]) @
       (if k = 0 then [] else [\<lparr>t_id = 1, t_name = ''db'', t_op = 0, t_create = True,
         t_pc = (if k = 1 then Waiting else if k = 2 then Held else Running)\<rparr>]),
     cancelled = (if k < 5 then [] else [1])\<rparr>"

lemma demo_ops_steps: "istep (demo_ops 0) (demo_ops 1)" "istep (demo_ops 1) (demo_ops 2)" "istep (demo_ops 2) (demo_ops 3)"
  "istep (demo_ops 3) (demo_ops 4)" "istep (demo_ops 4) (demo_ops 5)"
proof -
  have o: "dbOpFor ''db'' (demo_ops 0) = (0, (demo_ops 1)\<lparr>threads := []\<rparr>)"
    by (simp add: dbOpFor_def demo_ops_def new_op_def fun_upd_def)
  have "demo_ops 1 = (demo_ops 1)\<lparr>threads := []\<rparr>\<lparr>threads := \<lparr>t_id = 1, t_name = ''db'', t_op = 0, t_create = True,
      t_pc = (if True then Waiting else Arrived)\<rparr> # threads (demo_ops 0)\<rparr>" by (simp add: demo_ops_def)
  with istep.begin_op [OF o, of 1 True] show "istep (demo_ops 0) (demo_ops 1)" by (simp add: demo_ops_def)
  let ?t = "\<lambda>p. \<lparr>t_id = 1, t_name = ''db'', t_op = 0, t_create = True, t_pc = p\<rparr>"
  have 1: "threads (demo_ops 1) = [] @ ?t Waiting # []" by (simp add: demo_ops_def)
  have "demo_ops 2 = (set_op 0 (\<lambda>x. x\<lparr>op_locked := True\<rparr>) (demo_ops 1))\<lparr>threads := [] @ ?t Held # []\<rparr>"
    by (simp add: demo_ops_def set_op_def)
  with istep.lock [OF 1] show "istep (demo_ops 1) (demo_ops 2)" by (simp add: demo_ops_def)
  have 2: "threads (demo_ops 2) = [] @ ?t Held # []" by (simp add: demo_ops_def)
  have "demo_ops 3 = (set_op 0 (\<lambda>x. x\<lparr>op_cancel := Some 1\<rparr>) (demo_ops 2))\<lparr>threads := [] @ ?t Running # []\<rparr>"
    by (simp add: demo_ops_def set_op_def)
  with istep.register [OF 2] show "istep (demo_ops 2) (demo_ops 3)" by simp
  have o4: "dbOpFor ''db'' (demo_ops 3) = (0, (demo_ops 4)\<lparr>threads := threads (demo_ops 3)\<rparr>)"
    by (simp add: dbOpFor_def demo_ops_def set_op_def numeral_2_eq_2)
  have "demo_ops 4 = (demo_ops 4)\<lparr>threads := threads (demo_ops 3)\<rparr>\<lparr>threads := \<lparr>t_id = 2, t_name = ''db'', t_op = 0, t_create = False,
      t_pc = (if False then Waiting else Arrived)\<rparr> # threads (demo_ops 3)\<rparr>" by (simp add: demo_ops_def)
  with istep.begin_op [OF o4, of 2 False] show "istep (demo_ops 3) (demo_ops 4)" by (simp add: demo_ops_def)
  have 4: "threads (demo_ops 4) = [] @ \<lparr>t_id = 2, t_name = ''db'', t_op = 0, t_create = False, t_pc = Arrived\<rparr> # [?t Running]"
    by (simp add: demo_ops_def)
  from istep.cancel_create [OF 4] show "istep (demo_ops 4) (demo_ops 5)" by (simp add: demo_ops_def)
qed

lemma demo_ops_run: "istart (demo_ops 0)" "istep\<^sup>*\<^sup>* (demo_ops 0) (demo_ops 5)"
  using demo_ops_steps by (simp add: istart_def demo_ops_def, meson converse_rtranclp_into_rtranclp rtranclp.rtrancl_refl)

theorem db_ops_exclusive_witness:
  "istep\<^sup>*\<^sup>* (demo_ops 0) (demo_ops 5) \<and> map t_pc (threads (demo_ops 5)) = [Waiting, Running] \<and> cancelled (demo_ops 5) = [1] \<and>
   fst ` set (dbOps (demo_ops 5)) = t_name ` set (threads (demo_ops 5))"
proof -
  note r = demo_ops_run(2)
  from db_ops_exclusive [OF demo_ops_run] r show ?thesis by (simp add: demo_ops_def)
qed

section \<open>One lock per name\<close>

text \<open>
  The specification: every name has one lock, which is free or owned by one goroutine. The
  table with its shared objects, reference counts and addresses implements it.
\<close>

inductive name_lock :: "(string \<Rightarrow> nat option) \<Rightarrow> (string \<Rightarrow> nat option) \<Rightarrow> bool" where
  take_lock: "m n = None \<Longrightarrow> name_lock m (m(n := Some i))"
| give_lock: "m n = Some i \<Longrightarrow> name_lock m (m(n := None))"

definition owner :: "dbtable \<Rightarrow> string \<Rightarrow> nat option" where
  "owner s n = map_option t_id (find (\<lambda>t. t_name t = n \<and> holds t) (threads s))"

lemma find_split: "find P (xs @ t # ys) = (case find P xs of Some u \<Rightarrow> Some u | None \<Rightarrow> if P t then Some t else find P ys)"
  by (induction xs) auto

lemma find_append: "find P (xs @ ys) = (case find P xs of Some u \<Rightarrow> Some u | None \<Rightarrow> find P ys)"
  by (induction xs) auto

lemma owner_same:
  assumes "threads s = xs @ t # ys" "threads s' = xs @ t' # ys" "t_id t' = t_id t" "t_name t' = t_name t" "holds t' = holds t"
  shows "owner s' = owner s"
  using assms by (auto simp: owner_def find_split fun_eq_iff split: option.splits)

text \<open>Goroutines of one name share their object, so its lock decides whether the name is owned.\<close>

lemma same_name_same_op:
  assumes "iinv s" "t \<in> set (threads s)" "u \<in> set (threads s)"
  shows "t_name u = t_name t \<longleftrightarrow> t_op u = t_op t"
proof -
  have "(t_name t, t_op t) \<in> set (dbOps s)" "(t_name u, t_op u) \<in> set (dbOps s)"
    "inj_on fst (set (dbOps s))" "inj_on snd (set (dbOps s))"
    using assms by (auto simp: iinv_def addr_ok_def distinct_map)
  then show ?thesis by (metis fst_conv inj_onD prod.inject snd_conv)
qed

lemma others_do_not_hold:
  assumes i: "iinv s" and ts: "threads s = xs @ t # ys" and n: "cnt holds (t_op t) (xs @ ys) = 0"
  shows "find (\<lambda>u. t_name u = t_name t \<and> holds u) xs = None" "find (\<lambda>u. t_name u = t_name t \<and> holds u) ys = None"
proof -
  have "\<not> (t_name u = t_name t \<and> holds u)" if "u \<in> set (xs @ ys)" for u
    using same_name_same_op [OF i, of t u] that ts n by (auto simp: cnt_zero)
  then show "find (\<lambda>u. t_name u = t_name t \<and> holds u) xs = None" "find (\<lambda>u. t_name u = t_name t \<and> holds u) ys = None"
    by (auto simp: find_None_iff)
qed

lemma owner_change:
  assumes i: "iinv s" and ts: "threads s = xs @ t # ys" "threads s' = xs @ t' # ys" and n: "cnt holds (t_op t) (xs @ ys) = 0"
    and same: "t_id t' = t_id t" "t_name t' = t_name t"
  shows "owner s' = (owner s)(t_name t := (if holds t' then Some (t_id t) else None))"
    "owner s (t_name t) = (if holds t then Some (t_id t) else None)"
  using others_do_not_hold [OF i ts(1) n] ts same
  by (auto simp: owner_def find_split fun_eq_iff split: option.splits)

lemma locked_cnt:
  assumes "iinv s" "threads s = xs @ t # ys"
  shows "cnt holds (t_op t) (xs @ ys) + (if holds t then 1 else 0) = (if op_locked (heap s (t_op t)) then 1 else 0)"
  by (rule op_split(1) [OF thread_op [OF assms]])

lemma threads_simps [simp]: "threads (set_op a f s) = threads s" "threads (releaseDbOp n a s) = threads s"
  by (simp_all add: set_op_def releaseDbOp_def Let_def)

lemma threads_begin: "dbOpFor n s = (a, s') \<Longrightarrow> threads s' = threads s"
  by (auto simp: dbOpFor_def set_op_def split: option.splits)

lemma istep_refines:
  assumes i: "iinv s" and "istep s s'"
  shows "owner s' = owner s \<or> name_lock (owner s) (owner s')"
  using assms(2)
proof cases
  case (begin_op n a s1 k c)
  then show ?thesis by (simp add: owner_def holds_def fun_eq_iff threads_begin)
next
  case (cancel_create xs t ys)
  then show ?thesis by (intro disjI1 owner_same [of s xs t ys _ "t\<lparr>t_pc := Waiting\<rparr>"]) (simp_all add: holds_def)
next
  case (lock xs t ys)
  have "\<not> holds t" using lock by (simp add: holds_def)
  with locked_cnt [OF i lock(2)] lock(4) have n: "cnt holds (t_op t) (xs @ ys) = 0" by simp
  let ?t = "t\<lparr>t_pc := (if t_create t then Held else Running)\<rparr>"
  have "owner s' = (owner s)(t_name t := Some (t_id t))" "owner s (t_name t) = None"
    using owner_change [OF i lock(2) _ n, of s' ?t] lock(1) \<open>\<not> holds t\<close> by (simp_all add: holds_def)
  then show ?thesis using take_lock by metis
next
  case (register xs t ys)
  then show ?thesis by (intro disjI1 owner_same [of s xs t ys _ "t\<lparr>t_pc := Running\<rparr>"]) (simp_all add: holds_def)
next
  case (unregister xs t ys)
  then show ?thesis by (intro disjI1 owner_same [of s xs t ys _ "t\<lparr>t_pc := Unregistered\<rparr>"]) (simp_all add: holds_def)
next
  case (unlock xs t ys)
  have "holds t" using unlock by (auto simp: holds_def)
  with locked_cnt [OF i unlock(2)] have n: "cnt holds (t_op t) (xs @ ys) = 0" by (auto split: if_splits)
  have "owner s' = (owner s)(t_name t := None)" "owner s (t_name t) = Some (t_id t)"
    using owner_change [OF i unlock(2) _ n, of s' "t\<lparr>t_pc := Released\<rparr>"] unlock(1) \<open>holds t\<close> by (simp_all add: holds_def)
  then show ?thesis using give_lock by metis
next
  case (release xs t ys)
  then show ?thesis by (simp add: owner_def holds_def fun_eq_iff find_split find_append split: option.splits)
qed

interpretation dbnames: refined_system istart istep iinv owner name_lock
  by unfold_locales (rule istep_refines)



end
