(* ===== verification/Database.thy ===== *)
theory Database
  imports Deploy_Spec
begin

text \<open>
  Managed databases (docker/database.go): the specification, the server flags that must be
  set at create time, the creation of the container with its data volume and its clean-up,
  the listings by label and by volume prefix, and the data volume of a container. The
  context of a create can be cancelled by a remove; the host's \<open>CreateCtxErr\<close> tells whether it
  is.
\<close>

section \<open>Specification and flags\<close>

record DatabaseSpec =
  db_InstanceID :: int
  db_ContainerName :: string
  db_VolumeName :: string
  db_Engine :: string
  db_EngineVersion :: string
  db_Port :: int
  db_RootPassword :: string
  db_DatabaseName :: string
  db_Username :: string
  db_Password :: string
  db_CPULimit :: rat
  db_MemoryLimit :: int
  db_AdoptVolume :: bool
  db_BinlogRetentionSeconds :: int

definition engineMajor :: "string \<Rightarrow> int" where
  "engineMajor version = (case Atoi (takeWhile is_digit version) of Some n \<Rightarrow> n | None \<Rightarrow> 0)"

definition durabilityArgs :: "string \<Rightarrow> string \<Rightarrow> int \<Rightarrow> string list" where
  "durabilityArgs engine version retention =
     (let major = engineMajor version;
          secs = (if retention \<le> 0 then 7 * 24 * 60 * 60 else retention);
          expire = ''--binlog-expire-logs-seconds='' @ Itoa secs;
          temp = ''--innodb-temp-data-file-path=ibtmp1:12M:autoextend:max:500M'' in
      if engine = ''mysql'' then
        (if major < 8 then []
         else [''--log-bin=binlog'', ''--server-id=1'', ''--binlog-format=ROW'', expire, temp])
      else if engine = ''mariadb'' then
        (if major < 10 then []
         else [''--log-bin=binlog'', ''--server-id=1'', ''--binlog-format=ROW'', temp] @
              (if major \<ge> 11 then [expire] else []))
      else if engine = ''postgres'' then
        (if major < 12 then []
         else [''-c'', ''wal_level=replica'', ''-c'', ''archive_mode=on'', ''-c'', ''archive_command=/bin/true''])
      else [])"

definition defaultDBPort :: "string \<Rightarrow> int" where
  "defaultDBPort engine = (if engine = ''mysql'' \<or> engine = ''mariadb'' then 3306
     else if engine = ''postgres'' then 5432 else 3306)"

section \<open>Creating a database container\<close>

definition validate_db :: "DatabaseSpec \<Rightarrow> goerr option" where
  "validate_db s =
     (if db_Engine s = [] \<or> db_EngineVersion s = [] then Some (Fmt ''engine and engine_version are required'' [])
      else if db_ContainerName s = [] \<or> db_VolumeName s = [] then Some (Fmt ''container_name and volume_name are required'' [])
      else if db_Port s \<le> 0 then Some (Fmt ''port must be positive'' [])
      else if db_DatabaseName s = [] \<or> db_Username s = [] then Some (Fmt ''database_name and username are required'' [])
      else None)"

text \<open>Environment, data directory and health command of an engine.\<close>

definition engine_config :: "DatabaseSpec \<Rightarrow> (string list \<times> string \<times> string list) option" where
  "engine_config s =
     (if db_Engine s = ''mysql'' then Some
        ([''MYSQL_ROOT_PASSWORD='' @ db_RootPassword s, ''MYSQL_DATABASE='' @ db_DatabaseName s,
          ''MYSQL_USER='' @ db_Username s, ''MYSQL_PASSWORD='' @ db_Password s],
         ''/var/lib/mysql'', [''CMD'', ''mysqladmin'', ''ping'', ''-h'', ''localhost''])
      else if db_Engine s = ''mariadb'' then Some
        ([''MARIADB_ROOT_PASSWORD='' @ db_RootPassword s, ''MARIADB_DATABASE='' @ db_DatabaseName s,
          ''MARIADB_USER='' @ db_Username s, ''MARIADB_PASSWORD='' @ db_Password s],
         ''/var/lib/mysql'', [''CMD'', ''healthcheck.sh'', ''--connect'', ''--innodb_initialized''])
      else if db_Engine s = ''postgres'' then Some
        ([''POSTGRES_PASSWORD='' @ db_Password s, ''POSTGRES_DB='' @ db_DatabaseName s, ''POSTGRES_USER='' @ db_Username s],
         ''/var/lib/postgresql/data'', [''CMD'', ''pg_isready'', ''-U'', db_Username s])
      else None)"

definition LabelDatabaseInstanceID :: string where
  "LabelDatabaseInstanceID = ''lattice-database-instance-id''"

definition db_labels :: "DatabaseSpec \<Rightarrow> (string \<times> string) list" where
  "db_labels s = [(''managed-by'', ''lattice''), (''lattice-type'', ''database''), (''lattice-engine'', db_Engine s)] @
     (if db_InstanceID s > 0 then [(LabelDatabaseInstanceID, Itoa (db_InstanceID s))] else [])"

definition db_port_key :: "DatabaseSpec \<Rightarrow> string" where
  "db_port_key s = Itoa (defaultDBPort (db_Engine s)) @ ''/tcp''"

definition seconds :: "int \<Rightarrow> int" where
  "seconds n = n * 1000000000"

definition db_config :: "DatabaseSpec \<Rightarrow> string list \<Rightarrow> string list \<Rightarrow> config" where
  "db_config s env healthCmd =
     \<lparr>cfg_Image = db_Engine s @ '':'' @ db_EngineVersion s, cfg_Env = env, cfg_ExposedPorts = [db_port_key s],
      cfg_Labels = db_labels s,
      cfg_Cmd = durabilityArgs (db_Engine s) (db_EngineVersion s) (db_BinlogRetentionSeconds s), cfg_Entrypoint = [],
      cfg_Healthcheck = Some \<lparr>hcf_Test = healthCmd, hcf_Interval = seconds 10, hcf_Timeout = seconds 5,
        hcf_StartPeriod = seconds 60, hcf_Retries = 5\<rparr>\<rparr>"

definition db_hostconfig :: "DatabaseSpec \<Rightarrow> string \<Rightarrow> hostconfig" where
  "db_hostconfig s dataDir =
     \<lparr>hc_PortBindings = [(db_port_key s, Itoa (db_Port s))], hc_Binds = [db_VolumeName s @ '':'' @ dataDir],
      hc_RestartPolicy = ''unless-stopped'', hc_CPUs = (if db_CPULimit s > 0 then Some (db_CPULimit s) else None),
      hc_Memory = (if db_MemoryLimit s > 0 then db_MemoryLimit s else 0), hc_Ulimits = [], hc_Privileged = False,
      hc_NetworkMode = []\<rparr>"

definition cleanupOnError :: "host \<Rightarrow> string \<Rightarrow> unit prog" where
  "cleanupOnError E cid = (if cid \<noteq> [] then do { RemoveContainer E cid True; ret () } else ret ())"

definition volume_exists_error :: "DatabaseSpec \<Rightarrow> goerr" where
  "volume_exists_error s = Fmt ''data volume %q already exists and would be reused: %s would skip initialisation and keep its previous credentials, ignoring the ones configured here. Remove the volume (docker volume rm %s), choose a different instance name, or set adopt_existing_volume to reuse it deliberately''
     [FS (db_VolumeName s), FS (db_Engine s), FS (db_VolumeName s)]"

definition start_database :: "host \<Rightarrow> string \<Rightarrow> string res prog" where
  "start_database E cid = do {
     c \<leftarrow> observe (CreateCtxErr (svc E));
     (case c of
        Some e \<Rightarrow> do { cleanupOnError E cid; ret (Inl (Fmt ''create cancelled before start: %w'' [FE e])) }
      | None \<Rightarrow> do {
          r \<leftarrow> StartContainer E cid;
          (case r of
             Some e \<Rightarrow> do { cleanupOnError E cid; ret (Inl (Fmt ''start container: %w'' [FE e])) }
           | None \<Rightarrow> ret (Inr cid))
        })
   }"

definition CreateDatabaseContainer :: "host \<Rightarrow> DatabaseSpec \<Rightarrow> string res prog" where
  "CreateDatabaseContainer E s = (case validate_db s of
     Some e \<Rightarrow> ret (Inl e)
   | None \<Rightarrow> do {
       p \<leftarrow> PullImage E (db_Engine s @ '':'' @ db_EngineVersion s) None;
       (case p of
          Some e \<Rightarrow> ret (Inl (Fmt ''pull database image: %w'' [FE e]))
        | None \<Rightarrow> (case engine_config s of
            None \<Rightarrow> ret (Inl (Fmt ''unsupported database engine: %s'' [FS (db_Engine s)]))
          | Some (env, dataDir, healthCmd) \<Rightarrow> do {
              i \<leftarrow> request (\<lambda>h. VolumeInspect E h (db_VolumeName s)) (EvVolInspect (db_VolumeName s));
              (if i = None \<and> \<not> db_AdoptVolume s then ret (Inl (volume_exists_error s))
               else do {
                 v \<leftarrow> CreateVolume E (db_VolumeName s) ''local'';
                 (case v of
                    Some e \<Rightarrow> ret (Inl (Fmt ''create volume %s: %w'' [FS (db_VolumeName s), FE e]))
                  | None \<Rightarrow> do {
                      r \<leftarrow> create_container E (db_ContainerName s) (db_config s env healthCmd) (db_hostconfig s dataDir) [];
                      (case r of
                         Inl e \<Rightarrow> ret (Inl (Fmt ''create container: %w'' [FE e]))
                       | Inr cid \<Rightarrow> start_database E cid)
                    })
               })
            }))
     })"

section \<open>Listings\<close>

record ContainerHealth =
  ch_Status :: string
  ch_FailingStreak :: int

record ObservedDatabaseContainer =
  o_ID :: string
  o_Name :: string
  o_InstanceID :: int
  o_State :: string
  o_Health :: "ContainerHealth option"
  o_RestartCount :: int
  o_ExitCode :: int

definition observe_one :: "host \<Rightarrow> container \<Rightarrow> ObservedDatabaseContainer prog" where
  "observe_one E c =
     (let entry = \<lparr>o_ID = ct_ID c, o_Name = (case names_of c of [] \<Rightarrow> [] | n # _ \<Rightarrow> n),
            o_InstanceID = (case Atoi (lookup_str (ct_Labels c) LabelDatabaseInstanceID) of Some v \<Rightarrow> v | None \<Rightarrow> 0),
            o_State = ct_State c, o_Health = None, o_RestartCount = 0, o_ExitCode = 0\<rparr> in do {
        r \<leftarrow> InspectContainer E (ct_ID c);
        ret (case r of
          Inl e \<Rightarrow> entry
        | Inr info \<Rightarrow> entry\<lparr>o_RestartCount := cj_RestartCount info, o_ExitCode := st_ExitCode (cj_State info),
            o_Health := map_option (\<lambda>(st, n). \<lparr>ch_Status = st, ch_FailingStreak = n\<rparr>) (st_Health (cj_State info))\<rparr>)
      })"

definition ListDatabaseContainers :: "host \<Rightarrow> ObservedDatabaseContainer list res prog" where
  "ListDatabaseContainers E = do {
     r \<leftarrow> request (\<lambda>h. ContainerListLabels E h [(''managed-by'', ''lattice''), (''lattice-type'', ''database'')])
            (EvListLabels [(''managed-by'', ''lattice''), (''lattice-type'', ''database'')]);
     (case r of
        Inl e \<Rightarrow> ret (Inl (Fmt ''list database containers: %w'' [FE e]))
      | Inr cs \<Rightarrow> do { os \<leftarrow> mapP cs (observe_one E); ret (Inr os) })
   }"

definition DatabaseVolumePrefix :: string where
  "DatabaseVolumePrefix = ''lattice-dbdata-''"

definition ListDatabaseVolumes :: "host \<Rightarrow> string list res prog" where
  "ListDatabaseVolumes E = do {
     r \<leftarrow> request (\<lambda>h. VolumeList (svc E) h DatabaseVolumePrefix) (\<lambda>r. EvExt (EvVolList DatabaseVolumePrefix r));
     ret (case r of
        Inl e \<Rightarrow> Inl (Fmt ''list database volumes: %w'' [FE e])
      | Inr vs \<Rightarrow> Inr (filter (\<lambda>n. HasPrefix n DatabaseVolumePrefix) (map vl_Name vs)))
   }"

definition DatabaseVolumeName :: "host \<Rightarrow> string \<Rightarrow> string res prog" where
  "DatabaseVolumeName E cid = do {
     r \<leftarrow> InspectContainer E cid;
     ret (case r of
        Inl e \<Rightarrow> Inl (Fmt ''inspect container: %w'' [FE e])
      | Inr info \<Rightarrow> Inr (case find (\<lambda>(ty, n). ty = ''volume'' \<and> n \<noteq> []) (cj_Mounts info) of
          Some (ty, n) \<Rightarrow> n | None \<Rightarrow> []))
   }"

section \<open>What a create leaves behind\<close>

text \<open>
  What a create promises: a container it made is either returned and started, or asked to be
  removed; an existing volume is not used without permission; and every container it
  makes is one the deployment clean-up leaves alone and the database listing selects.
\<close>

definition no_container :: "event \<Rightarrow> bool" where
  "no_container e = (case e of EvVolCreate _ _ _ \<Rightarrow> False | EvCreate _ _ _ _ _ \<Rightarrow> False | EvStart _ _ \<Rightarrow> False | _ \<Rightarrow> True)"

definition db_marked :: "DatabaseSpec \<Rightarrow> event \<Rightarrow> bool" where
  "db_marked s e = (case e of EvCreate n c hc nc r \<Rightarrow> n = db_ContainerName s \<and> \<not> hc_Privileged hc \<and>
       (\<forall>k v. (k, v) \<in> set [(''managed-by'', ''lattice''), (''lattice-type'', ''database'')] \<longrightarrow> map_of (cfg_Labels c) k = Some v) \<and>
       (\<forall>name ports stack specNames needed. fst (cleanupDecision (cfg_Labels c) name ports stack specNames needed) = False)
   | _ \<Rightarrow> True)"

definition created_of :: "event \<Rightarrow> string set" where
  "created_of e = (case e of EvCreate n c hc nc (Inr cid) \<Rightarrow> {cid} | _ \<Rightarrow> {})"

definition created_ids :: "event list \<Rightarrow> string set" where
  "created_ids es = (\<Union>e\<in>set es. created_of e)"

definition create_outcome :: "DatabaseSpec \<Rightarrow> string res \<Rightarrow> event list \<Rightarrow> bool" where
  "create_outcome s r es =
     ((case r of
         Inr cid \<Rightarrow> created_ids es = {cid} \<and> EvStart cid None \<in> set es
       | Inl e \<Rightarrow> (\<forall>cid\<in>created_ids es. cid = [] \<or> (\<exists>q. EvRemove cid True q \<in> set es))) \<and>
      (EvVolInspect (db_VolumeName s) None \<in> set es \<longrightarrow> \<not> db_AdoptVolume s \<longrightarrow> list_all no_container es) \<and>
      list_all (db_marked s) es)"

lemma created_simps [simp]:
  "created_ids [] = {}" "created_ids (e # es) = created_of e \<union> created_ids es"
  "created_of (EvCreate n c hc nc r) = (case r of Inr cid \<Rightarrow> {cid} | Inl x \<Rightarrow> {})"
  "created_of (EvPull i a q) = {}" "created_of (EvPullRead q) = {}" "created_of (EvVolInspect v q) = {}"
  "created_of (EvVolCreate v d q) = {}" "created_of (EvStart k q) = {}" "created_of (EvRemove k f q) = {}"
  by (simp_all add: created_ids_def created_of_def split: sum.splits)

lemma db_marked_create: "db_marked s (EvCreate (db_ContainerName s) (db_config s env hcmd) (db_hostconfig s d) [] r)"
  by (auto simp: db_marked_def db_config_def db_hostconfig_def db_labels_def LabelDatabaseInstanceID_def
      cleanupDecision_def lookup_str_def)

lemma db_marked_other [simp]:
  "db_marked s (EvPull i a q)" "db_marked s (EvPullRead q)" "db_marked s (EvVolInspect v q)" "db_marked s (EvVolCreate v d q)"
  "db_marked s (EvStart c q)" "db_marked s (EvRemove c f q)"
  by (simp_all add: db_marked_def)

lemma start_database_does:
  "does (start_database E cid) (\<lambda>r es. (case r of Inr c \<Rightarrow> c = cid \<and> EvStart cid None \<in> set es
      | Inl e \<Rightarrow> cid = [] \<or> (\<exists>q. EvRemove cid True q \<in> set es)) \<and>
    list_all (\<lambda>e. \<exists>q. e = EvStart cid q \<or> e = EvRemove cid True q) es)"
  unfolding start_database_def cleanupOnError_def StartContainer_def RemoveContainer_def
  by (auto intro!: does_intros)

lemma start_events:
  assumes "list_all (\<lambda>e. \<exists>q. e = EvStart cid q \<or> e = EvRemove cid True q) es"
  shows "created_ids es = {}" "EvVolInspect v q \<notin> set es" "list_all (db_marked s) es"
  using assms by (induction es) auto

lemma create_database_does: "does (CreateDatabaseContainer E s) (create_outcome s)"
  unfolding CreateDatabaseContainer_def PullImage_def CreateVolume_def create_container_def
  apply (intro does_intros does_mono [OF start_database_does])
  apply (simp_all add: create_outcome_def db_marked_create no_container_def start_events)
  apply (auto simp: start_events split: sum.splits)
  done

text \<open>
  C23: A create of a database never leaves a container behind and never takes over data it was
  not given. When it succeeds, the container it returns is the only one it created, and that
  one was started; when it fails, or is cancelled, every container it had created is asked
  to be removed. When the data volume is found to exist and adopting it was not permitted,
  it creates and starts nothing. Each container it creates carries the labels by which
  databases are listed, and no clean-up of any deployment will pick it.
\<close>

theorem database_create_clean:
  "create_outcome s (result (CreateDatabaseContainer E s) h) (events (CreateDatabaseContainer E s) h)"
  by (rule does_events [OF create_database_does])

end
