(* ===== verification/Drive.thy ===== *)
theory Drive
  imports Replies
begin

text \<open>
  The Google Drive destination (backup/gdrive.go): the query that looks a file up by its name, the loop over the
  pages of its answer, and upload, download, test and deletion. Drive itself is a parameter of the host: a listing, a
  creation, an update, a deletion and a download are requests with any answer. The number of
  pages that can be asked for before the context ends is a parameter, and the request after the last is
  answered by the error of the context.
\<close>

section \<open>Queries\<close>

text \<open>\<open>strings.ReplaceAll\<close> with a pattern of one character.\<close>

definition ReplaceAll1 :: "char \<Rightarrow> string \<Rightarrow> string \<Rightarrow> string" where
  "ReplaceAll1 c new s = concat (map (\<lambda>x. if x = c then new else [x]) s)"

definition escapedName :: "string \<Rightarrow> string" where
  "escapedName name = ReplaceAll1 (CHR 0x27) [CHR 0x5C, CHR 0x27] (ReplaceAll1 (CHR 0x5C) [CHR 0x5C, CHR 0x5C] name)"

definition drive_query :: "string \<Rightarrow> string \<Rightarrow> string" where
  "drive_query folderID name =
     ''name = '' @ [CHR 0x27] @ escapedName name @ [CHR 0x27] @ '' and trashed = false'' @
     (if folderID \<noteq> [] then '' and '' @ [CHR 0x27] @ folderID @ [CHR 0x27] @ '' in parents'' else [])"

section \<open>Requests\<close>

definition Files_List :: "host \<Rightarrow> string \<Rightarrow> nat \<Rightarrow> string \<Rightarrow> (string list \<times> string) res prog" where
  "Files_List E q n token =
     request (\<lambda>h. ListFiles (cloud (svc E)) h q n token) (\<lambda>r. EvExt (EvCloud (EvDriveList q n token r)))"

definition Files_Create :: "host \<Rightarrow> string \<Rightarrow> string list \<Rightarrow> string \<Rightarrow> string res prog" where
  "Files_Create E name parents b =
     request (\<lambda>h. CreateDriveFile (cloud (svc E)) h name parents b) (\<lambda>r. EvExt (EvCloud (EvDriveCreate name parents b r)))"

definition Files_Update :: "host \<Rightarrow> string \<Rightarrow> string \<Rightarrow> goerr option prog" where
  "Files_Update E i b = request (\<lambda>h. UpdateDriveFile (cloud (svc E)) h i b) (\<lambda>r. EvExt (EvCloud (EvDriveUpdate i b r)))"

definition Files_Delete :: "host \<Rightarrow> string \<Rightarrow> goerr option prog" where
  "Files_Delete E i = request (\<lambda>h. DeleteDriveFile (cloud (svc E)) h i) (\<lambda>r. EvExt (EvCloud (EvDriveDelete i r)))"

definition Files_Get :: "host \<Rightarrow> string \<Rightarrow> stream res prog" where
  "Files_Get E i = request (\<lambda>h. GetDriveFile (cloud (svc E)) h i) (\<lambda>r. EvExt (EvCloud (EvDriveGet i r)))"

lemmas drive_requests = Files_List_def Files_Create_def Files_Update_def Files_Delete_def Files_Get_def

text \<open>
  The body of an answer is copied into a new local file, which is removed again if the copy fails: because
  the body ends with an error, or because the file cannot be written.
\<close>

definition save_body :: "host \<Rightarrow> string \<Rightarrow> stream \<Rightarrow> goerr option prog" where
  "save_body E localPath body = do {
     c \<leftarrow> request (\<lambda>h. CreateFile (svc E) h localPath) (\<lambda>r. EvExt (EvCreateFile localPath r));
     (case c of
        Some e \<Rightarrow> ret (Some (Fmt ''create file: %w'' [FE e]))
      | None \<Rightarrow> do {
          w \<leftarrow> request (\<lambda>h. WriteFile (svc E) h localPath body) (\<lambda>r. EvExt (EvWriteFile localPath body r));
          (case (case w of Some e \<Rightarrow> Some e | None \<Rightarrow> snd body) of
             Some e \<Rightarrow> do { emit (EvExt (EvRemoveFile localPath)); ret (Some (Fmt ''write file: %w'' [FE e])) }
           | None \<Rightarrow> ret None)
        })
   }"

definition open_file :: "host \<Rightarrow> string \<Rightarrow> string res prog" where
  "open_file E p = request (\<lambda>h. ReadFile (svc E) h p) (\<lambda>r. EvExt (EvReadFile p r))"

section \<open>Operations\<close>

fun find_pages :: "host \<Rightarrow> string \<Rightarrow> nat \<Rightarrow> string \<Rightarrow> string list \<Rightarrow> string list res prog" where
  "find_pages E q 0 pageToken ids = ret (Inl (Fmt ''context deadline exceeded'' []))"
| "find_pages E q (Suc n) pageToken ids = do {
     r \<leftarrow> Files_List E q 100 pageToken;
     (case r of
        Inl e \<Rightarrow> ret (Inl e)
      | Inr p \<Rightarrow> if snd p = [] then ret (Inr (ids @ fst p)) else find_pages E q n (snd p) (ids @ fst p))
   }"

definition findByName :: "host \<Rightarrow> string \<Rightarrow> string \<Rightarrow> string list res prog" where
  "findByName E folderID name = do {
     n \<leftarrow> observe (PageBudget (cloud (svc E)));
     find_pages E (drive_query folderID name) n [] []
   }"

definition drive_store :: "host \<Rightarrow> string \<Rightarrow> string \<Rightarrow> string \<Rightarrow> string list \<Rightarrow> goerr option prog" where
  "drive_store E folderID remotePath b existing = (case existing of
     [] \<Rightarrow> do {
       r \<leftarrow> Files_Create E remotePath (if folderID \<noteq> [] then [folderID] else []) b;
       ret (case r of Inl e \<Rightarrow> Some (Fmt ''gdrive upload: %w'' [FE e]) | Inr i \<Rightarrow> None)
     }
   | i # dups \<Rightarrow> do {
       r \<leftarrow> Files_Update E i b;
       (case r of
          Some e \<Rightarrow> ret (Some (Fmt ''gdrive upload (update): %w'' [FE e]))
        | None \<Rightarrow> do { forM dups (\<lambda>dupID. do { Files_Delete E dupID; ret () }); ret None })
     })"

definition drive_Upload :: "host \<Rightarrow> string \<Rightarrow> string \<Rightarrow> string \<Rightarrow> int res prog" where
  "drive_Upload E folderID localPath remotePath = do {
     f \<leftarrow> open_file E localPath;
     (case f of
        Inl e \<Rightarrow> ret (Inl (Fmt ''open file: %w'' [FE e]))
      | Inr b \<Rightarrow> do {
          s \<leftarrow> request (\<lambda>h. FileSize (svc E) h localPath) (\<lambda>r. EvExt (EvStat localPath r));
          (case s of
             Inl e \<Rightarrow> ret (Inl (Fmt ''stat file: %w'' [FE e]))
           | Inr sz \<Rightarrow> do {
               x \<leftarrow> findByName E folderID remotePath;
               (case x of
                  Inl e \<Rightarrow> ret (Inl (Fmt ''gdrive lookup: %w'' [FE e]))
                | Inr existing \<Rightarrow> do {
                    u \<leftarrow> drive_store E folderID remotePath b existing;
                    ret (case u of Some e \<Rightarrow> Inl e | None \<Rightarrow> Inr sz)
                  })
             })
        })
   }"

definition drive_Download :: "host \<Rightarrow> string \<Rightarrow> string \<Rightarrow> string \<Rightarrow> goerr option prog" where
  "drive_Download E folderID remotePath localPath = do {
     r \<leftarrow> Files_List E (drive_query folderID remotePath) 1 [];
     (case r of
        Inl e \<Rightarrow> ret (Some (Fmt ''gdrive find file: %w'' [FE e]))
      | Inr p \<Rightarrow> (case fst p of
          [] \<Rightarrow> ret (Some (Fmt ''gdrive: file %q not found'' [FS remotePath]))
        | i # _ \<Rightarrow> do {
            g \<leftarrow> Files_Get E i;
            (case g of
               Inl e \<Rightarrow> ret (Some (Fmt ''gdrive download: %w'' [FE e]))
             | Inr body \<Rightarrow> save_body E localPath body)
          }))
   }"

definition drive_Test :: "host \<Rightarrow> goerr option prog" where
  "drive_Test E = do {
     r \<leftarrow> request (AboutDrive (cloud (svc E))) (\<lambda>r. EvExt (EvCloud (EvDriveAbout r)));
     ret (map_option (\<lambda>e. Fmt ''gdrive test: %w'' [FE e]) r)
   }"

definition drive_Delete :: "host \<Rightarrow> string \<Rightarrow> string \<Rightarrow> goerr option prog" where
  "drive_Delete E folderID remotePath = do {
     r \<leftarrow> Files_List E (drive_query folderID remotePath) 1 [];
     (case r of
        Inl e \<Rightarrow> ret (Some (Fmt ''gdrive find file: %w'' [FE e]))
      | Inr p \<Rightarrow> (case fst p of
          [] \<Rightarrow> ret None
        | i # _ \<Rightarrow> do {
            d \<leftarrow> Files_Delete E i;
            ret (map_option (\<lambda>e. Fmt ''gdrive delete: %w'' [FE e]) d)
          }))
   }"

section \<open>A name cannot break out of its query\<close>

text \<open>
  How Drive reads a string literal of a query after its opening quote: a backslash takes the
  next character as it is, and the first other quote ends the literal. The result is the value and the rest.
\<close>

fun read_literal :: "string \<Rightarrow> (string \<times> string) option" where
  "read_literal [] = None"
| "read_literal (c # s) =
     (if c = CHR 0x27 then Some ([], s)
      else if c = CHR 0x5C then (case s of [] \<Rightarrow> None | d # t \<Rightarrow> map_option (\<lambda>(v, r). (d # v, r)) (read_literal t))
      else map_option (\<lambda>(v, r). (c # v, r)) (read_literal s))"

lemma escapedName_Cons:
  "escapedName (c # s) = (if c = CHR 0x27 \<or> c = CHR 0x5C then [CHR 0x5C, c] else [c]) @ escapedName s"
  by (simp add: escapedName_def ReplaceAll1_def)

lemma read_escaped: "read_literal (escapedName n @ CHR 0x27 # r) = Some (n, r)"
proof (induction n)
  case Nil
  show ?case by (simp add: escapedName_def ReplaceAll1_def)
next
  case (Cons c n)
  then show ?case by (auto simp: escapedName_Cons)
qed

text \<open>The name a query asks for, and the conditions that follow it.\<close>

definition query_reads :: "string \<Rightarrow> (string \<times> string) option" where
  "query_reads q = (if HasPrefix q (''name = '' @ [CHR 0x27]) then read_literal (drop 8 q) else None)"

lemma query_reads_drive:
  "query_reads (drive_query f n) = Some (n, '' and trashed = false'' @
     (if f \<noteq> [] then '' and '' @ [CHR 0x27] @ f @ [CHR 0x27] @ '' in parents'' else []))"
proof -
  have p: "drive_query f n = (''name = '' @ [CHR 0x27]) @ escapedName n @ CHR 0x27 # '' and trashed = false'' @
     (if f \<noteq> [] then '' and '' @ [CHR 0x27] @ f @ [CHR 0x27] @ '' in parents'' else [])"
    unfolding drive_query_def by simp
  show ?thesis
    unfolding query_reads_def p by (simp only: HasPrefix_def) (simp add: read_escaped)
qed

text \<open>
  A monitor for the operations on one name: its state holds the ids listed so far, by queries that ask for this name
  and nothing else. Only listed files are read, changed or deleted, and a file is created only
  under the name, in the folder, and when none was listed.
\<close>

definition drive_nxt :: "string list \<Rightarrow> event \<Rightarrow> string list" where
  "drive_nxt s e = (case e of EvExt (EvCloud (EvDriveList q k t (Inr p))) \<Rightarrow> s @ fst p | _ \<Rightarrow> s)"

definition drive_ok :: "string \<Rightarrow> string \<Rightarrow> string list \<Rightarrow> event \<Rightarrow> bool" where
  "drive_ok folderID name s e = (case e of
     EvExt (EvCloud c) \<Rightarrow> (case c of
       EvDriveList q k t r \<Rightarrow> q = drive_query folderID name \<and> map_option fst (query_reads q) = Some name
     | EvDriveCreate n ps b r \<Rightarrow> n = name \<and> ps = (if folderID \<noteq> [] then [folderID] else []) \<and> s = []
     | EvDriveUpdate i b r \<Rightarrow> i \<in> set s
     | EvDriveDelete i r \<Rightarrow> i \<in> set s
     | EvDriveGet i r \<Rightarrow> i \<in> set s
     | _ \<Rightarrow> False)
   | _ \<Rightarrow> True)"

lemma drive_nxt_simps [simp]:
  "drive_nxt s (EvExt (EvCloud (EvDriveList q k t (Inr pg)))) = s @ fst pg"
  "drive_nxt s (EvExt (EvCloud (EvDriveList q k t (Inl e)))) = s"
  "drive_nxt s (EvExt (EvCloud (EvDriveCreate n ps b ri))) = s" "drive_nxt s (EvExt (EvCloud (EvDriveUpdate i b r))) = s"
  "drive_nxt s (EvExt (EvCloud (EvDriveDelete i r))) = s" "drive_nxt s (EvExt (EvCloud (EvDriveGet i g))) = s"
  "drive_nxt s (EvExt (EvReadFile p rf)) = s" "drive_nxt s (EvExt (EvStat p rs)) = s" "drive_nxt s (EvExt (EvCreateFile p r)) = s"
  "drive_nxt s (EvExt (EvWriteFile p w r)) = s" "drive_nxt s (EvExt (EvRemoveFile p)) = s"
  by (simp_all add: drive_nxt_def)

lemma drive_ok_simps [simp]:
  "drive_ok f n s (EvExt (EvCloud (EvDriveList q k t rl))) \<longleftrightarrow> q = drive_query f n"
  "drive_ok f n s (EvExt (EvCloud (EvDriveCreate m ps b ri))) \<longleftrightarrow> m = n \<and> ps = (if f \<noteq> [] then [f] else []) \<and> s = []"
  "drive_ok f n s (EvExt (EvCloud (EvDriveUpdate i b r))) \<longleftrightarrow> i \<in> set s"
  "drive_ok f n s (EvExt (EvCloud (EvDriveDelete i r))) \<longleftrightarrow> i \<in> set s" "drive_ok f n s (EvExt (EvCloud (EvDriveGet i g))) \<longleftrightarrow> i \<in> set s"
  "drive_ok f n s (EvExt (EvReadFile p rf))" "drive_ok f n s (EvExt (EvStat p rs))" "drive_ok f n s (EvExt (EvCreateFile p r))"
  "drive_ok f n s (EvExt (EvWriteFile p w r))" "drive_ok f n s (EvExt (EvRemoveFile p))"
  by (auto simp: drive_ok_def query_reads_drive)

abbreviation drive_track :: "string \<Rightarrow> string \<Rightarrow> string list \<Rightarrow> 'a prog \<Rightarrow> ('a \<Rightarrow> string list \<Rightarrow> bool) \<Rightarrow> bool" where
  "drive_track f n \<equiv> track (drive_ok f n) drive_nxt"

lemma track_find_pages:
  "drive_track f n ids (find_pages E (drive_query f n) k t ids) (\<lambda>r s. \<forall>x. r = Inr x \<longrightarrow> s = x)"
proof (induction k arbitrary: t ids)
  case 0
  show ?case by (auto intro!: track_intros)
next
  case (Suc k)
  show ?case unfolding find_pages.simps Files_List_def
    by (rule track_bind_request) (auto intro!: track_intros Suc.IH split: sum.split)
qed

lemma track_deletes:
  "set ds \<subseteq> set s \<Longrightarrow> drive_track f n s (forM ds (\<lambda>d. do { Files_Delete E d; ret () })) (\<lambda>_ t. t = s)"
  by (rule track_forM) (auto simp: Files_Delete_def intro!: track_intros)

lemma track_drive_store: "drive_track f n s (drive_store E f n b s) (\<lambda>_ _. True)"
proof (cases s)
  case Nil
  then show ?thesis by (auto simp: drive_store_def Files_Create_def intro!: track_intros)
next
  case (Cons i ds)
  show ?thesis unfolding Cons drive_store_def list.case Files_Update_def
    by (intro track_intros track_bind [OF track_deletes]) auto
qed

lemma track_save_body: "drive_track f n s (save_body E l b) (\<lambda>_ _. True)"
  unfolding save_body_def by (intro track_intros) simp_all

lemma track_Upload: "drive_track f n [] (drive_Upload E f l n) (\<lambda>_ _. True)"
proof -
  have tail: "drive_track f n [] (State_Monad.bind (find_pages E (drive_query f n) k [] [])
      (\<lambda>x. case x of Inl e \<Rightarrow> ret (Inl (Fmt ''gdrive lookup: %w'' [FE e]))
        | Inr existing \<Rightarrow> State_Monad.bind (drive_store E f n b existing) (\<lambda>u. ret (case u of Some e \<Rightarrow> Inl e | None \<Rightarrow> Inr sz))))
      (\<lambda>_ _. True)" for k b and sz :: int
    by (rule track_bind [OF track_find_pages], rule track_case_sum)
      (auto intro!: track_intros track_bind [OF track_drive_store])
  show ?thesis
    unfolding drive_Upload_def open_file_def findByName_def by (intro track_intros) (simp_all add: tail [simplified])
qed

lemma track_Download: "drive_track f n [] (drive_Download E f n l) (\<lambda>_ _. True)"
  unfolding drive_Download_def Files_List_def Files_Get_def
  by (intro track_intros) (auto intro!: track_intros track_save_body split: list.split)

lemma track_Delete: "drive_track f n [] (drive_Delete E f n) (\<lambda>_ _. True)"
  unfolding drive_Delete_def Files_List_def Files_Delete_def
  by (intro track_intros) (auto intro!: track_intros split: list.split)

text \<open>
  C32: An operation on a name acts on the files of this name only. Whatever characters the remote path
  holds, every query an upload, a download or a deletion sends to Google Drive reads back as a
  query for exactly this name; only files listed in answer to it are read, updated or deleted; and
  an upload creates a file only when none was listed, under this name and in the configured folder.
\<close>

theorem drive_acts_on_named:
  "accepted (drive_ok folderID name) drive_nxt [] (events (drive_Upload E folderID localPath name) h) \<and>
   accepted (drive_ok folderID name) drive_nxt [] (events (drive_Download E folderID name localPath) h) \<and>
   accepted (drive_ok folderID name) drive_nxt [] (events (drive_Delete E folderID name) h)"
  using track_events [OF track_Upload] track_events [OF track_Download] track_events [OF track_Delete] by blast

section \<open>What was uploaded is what is downloaded\<close>

text \<open>
  The files of the drive, as the answered requests have left them: for each id its name, its parents and its content.
\<close>

type_synonym drive = "(string \<times> string \<times> string list \<times> string) list"

definition drive_step :: "drive \<Rightarrow> event \<Rightarrow> drive" where
  "drive_step d e = (case e of
     EvExt (EvCloud (EvDriveCreate n ps b (Inr i))) \<Rightarrow> (i, n, ps, b) # d
   | EvExt (EvCloud (EvDriveUpdate i b None)) \<Rightarrow> map (\<lambda>(j, n, ps, c). (j, n, ps, if j = i then b else c)) d
   | EvExt (EvCloud (EvDriveDelete i None)) \<Rightarrow> filter (\<lambda>(j, x). j \<noteq> i) d
   | _ \<Rightarrow> d)"

abbreviation drive_files :: "drive \<Rightarrow> event list \<Rightarrow> drive" where
  "drive_files \<equiv> foldl drive_step"

definition named :: "string \<Rightarrow> string \<Rightarrow> drive \<Rightarrow> string list" where
  "named folderID name d = map fst (filter (\<lambda>(i, n, ps, b). n = name \<and> (folderID = [] \<or> folderID \<in> set ps)) d)"

text \<open>
  Documented behaviour of Drive. The listing of a query holds each file that matches it once, in some order; a page is
  a part of it that begins where its token stands, the empty token at its beginning; the next token stands at the
  end of the page, and is empty only when the listing is exhausted. A new file has a new id, and a
  download that ends cleanly yields the content of the file.
\<close>

definition pages_law :: "host \<Rightarrow> drive \<Rightarrow> string \<Rightarrow> (drive \<Rightarrow> string \<Rightarrow> string list) \<Rightarrow> (string \<Rightarrow> nat) \<Rightarrow> bool" where
  "pages_law E d0 folderID order pos = (pos [] = 0 \<and>
     (\<forall>d n. set (order d n) = set (named folderID n d) \<and> distinct (order d n)) \<and>
     (\<forall>h n k t ids t'. ListFiles (cloud (svc E)) h (drive_query folderID n) k t = Inr (ids, t') \<longrightarrow>
        (let l = order (drive_files d0 h) n in ids = take (length ids) (drop (pos t) l) \<and>
          (if t' = [] then length l \<le> pos t + length ids else pos t' = pos t + length ids))))"

definition drive_law :: "host \<Rightarrow> drive \<Rightarrow> string \<Rightarrow> bool" where
  "drive_law E d0 folderID = ((\<exists>order pos. pages_law E d0 folderID order pos) \<and>
     (\<forall>h n ps b i. CreateDriveFile (cloud (svc E)) h n ps b = Inr i \<longrightarrow> i \<notin> fst ` set (drive_files d0 h)) \<and>
     (\<forall>h i b. GetDriveFile (cloud (svc E)) h i = Inr (b, None) \<longrightarrow> (\<exists>n ps. (i, n, ps, b) \<in> set (drive_files d0 h))))"

definition deletes_done :: "event list \<Rightarrow> bool" where
  "deletes_done es = (\<forall>i e. EvExt (EvCloud (EvDriveDelete i (Some e))) \<notin> set es)"

lemma drive_step_simps [simp]:
  "drive_step d (EvExt (EvCloud (EvDriveList q k t rl))) = d" "drive_step d (EvExt (EvCloud (EvDriveGet i g))) = d"
  "drive_step d (EvExt (EvReadFile p rf)) = d" "drive_step d (EvExt (EvStat p rs)) = d"
  "drive_step d (EvExt (EvCloud (EvDriveCreate n ps b (Inr i)))) = (i, n, ps, b) # d"
  "drive_step d (EvExt (EvCloud (EvDriveUpdate i b None))) = map (\<lambda>(j, n, ps, c). (j, n, ps, if j = i then b else c)) d"
  "drive_step d (EvExt (EvCloud (EvDriveDelete i None))) = filter (\<lambda>(j, x). j \<noteq> i) d"
  by (simp_all add: drive_step_def)

lemma deletes_done_simps [simp]:
  "deletes_done []" "deletes_done (es @ fs) \<longleftrightarrow> deletes_done es \<and> deletes_done fs"
  "deletes_done (EvExt (EvCloud (EvDriveDelete i r)) # es) \<longleftrightarrow> r = None \<and> deletes_done es"
    apply (simp_all add: deletes_done_def)
   apply blast
  apply (cases r; blast)
  done

text \<open>The pages add up to the listing.\<close>

lemma find_pages_lists:
  assumes pg: "pages_law E d0 f order pos"
    and "drive_files d0 h = d"
  shows "wp (find_pages E (drive_query f n) k t ids) (\<lambda>r h'. \<exists>es. h' = h @ es \<and> drive_files d0 h' = d \<and>
     (\<forall>x. r = Inr x \<longrightarrow> x = ids @ drop (pos t) (order d n))) h"
  using assms(2)
proof (induction k arbitrary: t ids h)
  case 0
  then show ?case by (simp add: wp_return)
next
  case (Suc k)
  define r where "r = ListFiles (cloud (svc E)) h (drive_query f n) 100 t"
  define h1 where "h1 = h @ [EvExt (EvCloud (EvDriveList (drive_query f n) 100 t r))]"
  have d1: "drive_files d0 h1 = d" using Suc.prems by (simp add: h1_def)
  have unf: "wp (find_pages E (drive_query f n) (Suc k) t ids) Q h = wp (case r of Inl e \<Rightarrow> ret (Inl e)
      | Inr p \<Rightarrow> if snd p = [] then ret (Inr (ids @ fst p)) else find_pages E (drive_query f n) k (snd p) (ids @ fst p)) Q h1" for Q
    by (simp add: Files_List_def wp_simps r_def h1_def)
  show ?case
  proof (cases r)
    case (Inl e)
    show ?thesis unfolding unf unfolding Inl sum.case using d1 by (simp add: wp_return h1_def)
  next
    case (Inr p)
    obtain ps t' where p: "p = (ps, t')" by (cases p)
    have l: "ps = take (length ps) (drop (pos t) (order d n))"
        "if t' = [] then length (order d n) \<le> pos t + length ps else pos t' = pos t + length ps"
      using pg Inr unfolding p r_def pages_law_def Let_def Suc.prems [symmetric] by blast+
    show ?thesis
    proof (cases "t' = []")
      case True
      then have "length (drop (pos t) (order d n)) \<le> length ps" using l(2) by simp
      then have "ps = drop (pos t) (order d n)" using l(1) take_all by metis
      with True d1 show ?thesis unfolding unf unfolding Inr p sum.case by (simp add: wp_return h1_def)
    next
      case False
      then have t: "pos t' = pos t + length ps" using l by simp
      have e: "ids @ ps @ drop (pos t') (order d n) = ids @ drop (pos t) (order d n)"
        unfolding t by (metis l(1) append_take_drop_id drop_drop add.commute)
      from Suc.IH [OF d1, of t' "ids @ ps"] show ?thesis
        using False unfolding unf unfolding Inr p sum.case by (auto simp: wp_def h1_def e split: prod.splits)
    qed
  qed
qed

lemma forM_deletes:
  "wp (forM ds (\<lambda>d. do { Files_Delete E d; ret () })) (\<lambda>_ h'. \<exists>es. h' = h @ es \<and>
     (deletes_done es \<longrightarrow> drive_files d0 h' = filter (\<lambda>(j, x). j \<notin> set ds) (drive_files d0 h))) h"
proof (induction ds arbitrary: h)
  case Nil
  show ?case by (simp add: wp_return)
next
  case (Cons i ds)
  define r where "r = DeleteDriveFile (cloud (svc E)) h i"
  define e where "e = EvExt (EvCloud (EvDriveDelete i r))"
  have e: "deletes_done (e # es) \<Longrightarrow> drive_files d0 (h @ [e]) = filter (\<lambda>(j, x). j \<noteq> i) (drive_files d0 h)" for es
    by (auto simp: e_def)
  have f: "filter (\<lambda>(j, x). j \<notin> set ds) (filter (\<lambda>(j, x). j \<noteq> i) d) = filter (\<lambda>(j, x). j \<notin> set (i # ds)) d" for d :: drive
    by (induction d) auto
  have "wp (forM ds (\<lambda>d. do { Files_Delete E d; ret () })) (\<lambda>_ h'. \<exists>es. h' = h @ es \<and>
     (deletes_done es \<longrightarrow> drive_files d0 h' = filter (\<lambda>(j, x). j \<notin> set (i # ds)) (drive_files d0 h))) (h @ [e])"
  proof (rule wp_mono [OF Cons.IH [of "h @ [e]"]])
    fix u :: unit and h'
    assume "\<exists>es. h' = (h @ [e]) @ es \<and>
      (deletes_done es \<longrightarrow> drive_files d0 h' = filter (\<lambda>(j, x). j \<notin> set ds) (drive_files d0 (h @ [e])))"
    then obtain es where es: "h' = h @ (e # es)"
        "deletes_done es \<Longrightarrow> drive_files d0 h' = filter (\<lambda>(j, x). j \<notin> set ds) (drive_files d0 (h @ [e]))" by auto
    have "drive_files d0 h' = filter (\<lambda>(j, x). j \<notin> set (i # ds)) (drive_files d0 h)" if d: "deletes_done (e # es)"
    proof -
      have "deletes_done es" using d by (simp add: e_def)
      from es(2) [OF this] show ?thesis unfolding e [OF d] f .
    qed
    with es(1) show "\<exists>es. h' = h @ es \<and>
      (deletes_done es \<longrightarrow> drive_files d0 h' = filter (\<lambda>(j, x). j \<notin> set (i # ds)) (drive_files d0 h))" by blast
  qed
  then show ?case by (simp add: wp_simps Files_Delete_def r_def e_def)
qed

text \<open>Exactly one file has the name, and its content is \<open>b\<close>.\<close>

definition sole :: "string \<Rightarrow> string \<Rightarrow> string \<Rightarrow> drive \<Rightarrow> bool" where
  "sole folderID name b d = (\<exists>i ps. named folderID name d = [i] \<and> (i, name, ps, b) \<in> set d \<and> distinct (map fst d))"

definition put :: "string \<Rightarrow> string \<Rightarrow> drive \<Rightarrow> drive" where
  "put i b d = map (\<lambda>(j, n, ps, c). (j, n, ps, if j = i then b else c)) d"

lemma put_facts: "map fst (put i b d) = map fst d" "named f n (put i b d) = named f n d"
  by (induction d) (auto simp: put_def named_def)

lemma put_entry: "(i, m, ps, c) \<in> set d \<Longrightarrow> (i, m, ps, b) \<in> set (put i b d)"
  by (force simp: put_def)

lemma named_filter_files: "named f n (filter (\<lambda>(j, x). P j) d) = filter P (named f n d)"
  by (induction d) (auto simp: named_def)

lemma named_entry: "i \<in> set (named f n d) \<Longrightarrow> \<exists>ps c. (i, n, ps, c) \<in> set d"
  unfolding named_def by (auto; blast)

lemma distinct_named: "distinct (map fst d) \<Longrightarrow> distinct (named f n d)"
  by (simp add: named_def distinct_map_filter)

lemma filter_one: "distinct xs \<Longrightarrow> set xs = insert i A \<Longrightarrow> i \<notin> A \<Longrightarrow> filter (\<lambda>x. x \<notin> A) xs = [i]"
proof -
  assume a: "distinct xs" "set xs = insert i A" "i \<notin> A"
  then have "set (filter (\<lambda>x. x \<notin> A) xs) = {i}" "distinct (filter (\<lambda>x. x \<notin> A) xs)" by auto
  then have "length (filter (\<lambda>x. x \<notin> A) xs) = 1" by (simp flip: distinct_card)
  then show ?thesis using \<open>set (filter (\<lambda>x. x \<notin> A) xs) = {i}\<close> by (cases "filter (\<lambda>x. x \<notin> A) xs") auto
qed

lemma sole_update:
  assumes "distinct (map fst d)" "set (named f n d) = set (i # ds)" "distinct (i # ds)"
  shows "sole f n b (filter (\<lambda>(j, x). j \<notin> set ds) (put i b d))"
proof -
  obtain ps c where "(i, n, ps, c) \<in> set d" using named_entry [of i f n d] assms(2) by auto
  then have "(i, n, ps, b) \<in> set (filter (\<lambda>(j, x). j \<notin> set ds) (put i b d))" using assms(3) by (auto dest: put_entry)
  moreover have "named f n (filter (\<lambda>(j, x). j \<notin> set ds) (put i b d)) = [i]"
    unfolding named_filter_files put_facts using assms by (intro filter_one) (auto simp: distinct_named)
  moreover have "distinct (map fst (filter (\<lambda>(j, x). j \<notin> set ds) (put i b d)))"
    using assms(1) by (simp add: distinct_map_filter put_facts)
  ultimately show ?thesis unfolding sole_def by blast
qed

lemma sole_create:
  assumes "distinct (map fst d)" "named f n d = []" "i \<notin> fst ` set d" "f = [] \<or> f \<in> set ps"
  shows "sole f n b ((i, n, ps, b) # d)"
  using assms unfolding sole_def by (intro exI [of _ i] exI [of _ ps]) (auto simp: named_def)

lemma drive_store_sole:
  assumes "drive_law E d0 f" "distinct (map fst (drive_files d0 h))" "set ids = set (named f n (drive_files d0 h))" "distinct ids"
  shows "wp (drive_store E f n b ids) (\<lambda>u h'. \<exists>es. h' = h @ es \<and> (u = None \<and> deletes_done es \<longrightarrow> sole f n b (drive_files d0 h'))) h"
proof (cases ids)
  case Nil
  then have "named f n (drive_files d0 h) = []" using assms(3) by simp
  moreover have "CreateDriveFile (cloud (svc E)) h n ps b = Inr i \<Longrightarrow> i \<notin> fst ` set (drive_files d0 h)" for ps i
    using assms(1) unfolding drive_law_def by blast
  ultimately show ?thesis
    using assms(2) unfolding Nil drive_store_def list.case Files_Create_def wp_simps
    by (auto intro!: sole_create simp: drive_step_def split: sum.splits)
next
  case (Cons i ds)
  define r where "r = UpdateDriveFile (cloud (svc E)) h i b"
  define e where "e = EvExt (EvCloud (EvDriveUpdate i b r))"
  show ?thesis
  proof (cases r)
    case (Some x)
    then show ?thesis unfolding Cons drive_store_def list.case Files_Update_def wp_simps by (simp add: r_def wp_return)
  next
    case None
    then have d: "drive_files d0 (h @ [e]) = put i b (drive_files d0 h)" by (simp add: e_def put_def)
    have "wp (forM ds (\<lambda>d. do { Files_Delete E d; ret () })) (\<lambda>_ h'. \<exists>es. h' = h @ es \<and>
        (deletes_done es \<longrightarrow> sole f n b (drive_files d0 h'))) (h @ [e])"
    proof (rule wp_mono [OF forM_deletes])
      fix u :: unit and h'
      assume "\<exists>es. h' = (h @ [e]) @ es \<and> (deletes_done es \<longrightarrow>
        drive_files d0 h' = filter (\<lambda>(j, x). j \<notin> set ds) (drive_files d0 (h @ [e])))"
      then obtain es where es: "h' = h @ (e # es)"
          "deletes_done es \<Longrightarrow> drive_files d0 h' = filter (\<lambda>(j, x). j \<notin> set ds) (put i b (drive_files d0 h))"
        unfolding d by auto
      have "sole f n b (drive_files d0 h')" if "deletes_done (e # es)"
      proof -
        have ok: "deletes_done es" using that by (simp add: deletes_done_def e_def)
        show ?thesis unfolding es(2) [OF ok] using assms(2,3,4) Cons by (intro sole_update) simp_all
      qed
      with es(1) show "\<exists>es. h' = h @ es \<and> (deletes_done es \<longrightarrow> sole f n b (drive_files d0 h'))" by blast
    qed
    moreover have "e = EvExt (EvCloud (EvDriveUpdate i b None))" by (simp add: e_def None)
    ultimately show ?thesis
      unfolding Cons drive_store_def list.case Files_Update_def wp_simps by (simp add: None wp_def flip: r_def split: prod.splits)
  qed
qed

definition uploaded :: "host \<Rightarrow> drive \<Rightarrow> string \<Rightarrow> string \<Rightarrow> string \<Rightarrow> event list \<Rightarrow> int res \<Rightarrow> event list \<Rightarrow> bool" where
  "uploaded E d0 f n l h r h' = (\<exists>es. h' = h @ es \<and> (\<forall>z. r = Inr z \<longrightarrow> deletes_done es \<longrightarrow>
     (\<exists>b. ReadFile (svc E) h l = Inr b \<and> EvExt (EvReadFile l (Inr b)) \<in> set es \<and> sole f n b (drive_files d0 h'))))"

lemma uploaded_Inl [simp]: "uploaded E d0 f n l h (Inl e) (h @ es)"
  by (simp add: uploaded_def)

lemma Upload_sole:
  assumes law: "drive_law E d0 f" and dist: "distinct (map fst (drive_files d0 h))"
  shows "wp (drive_Upload E f l n) (uploaded E d0 f n l h) h"
proof (cases "ReadFile (svc E) h l")
  case (Inl e)
  then show ?thesis by (simp add: drive_Upload_def open_file_def wp_simps)
next
  case (Inr b)
  note rd = Inr
  define h1 where "h1 = h @ [EvExt (EvReadFile l (Inr b))]"
  define st where "st = FileSize (svc E) h1 l"
  define h2 where "h2 = h1 @ [EvExt (EvStat l st)]"
  have unf: "wp (drive_Upload E f l n) Q h = wp (case st of Inl e \<Rightarrow> ret (Inl (Fmt ''stat file: %w'' [FE e]))
      | Inr sz \<Rightarrow> do {
          x \<leftarrow> findByName E f n;
          (case x of Inl e \<Rightarrow> ret (Inl (Fmt ''gdrive lookup: %w'' [FE e]))
           | Inr existing \<Rightarrow> do { u \<leftarrow> drive_store E f n b existing; ret (case u of Some e \<Rightarrow> Inl e | None \<Rightarrow> Inr sz) }) }) Q h2" for Q
    by (simp add: drive_Upload_def open_file_def wp_simps Inr h1_def h2_def st_def)
  have h2: "h2 = h @ [EvExt (EvReadFile l (Inr b)), EvExt (EvStat l st)]" by (simp add: h2_def h1_def)
  have d2: "drive_files d0 h2 = drive_files d0 h" by (simp add: h2)
  show ?thesis
  proof (cases st)
    case (Inl e)
    show ?thesis unfolding unf Inl sum.case by (simp add: wp_return h2)
  next
    case (Inr sz)
    obtain order pos where pg: "pages_law E d0 f order pos" using law unfolding drive_law_def by blast
    then have p: "pos [] = 0" "\<And>d n. set (order d n) = set (named f n d)" "\<And>d n. distinct (order d n)"
      by (simp_all add: pages_law_def)
    have "wp (findByName E f n) (\<lambda>x h'. \<exists>es. h' = h2 @ es \<and> drive_files d0 h' = drive_files d0 h \<and>
        (\<forall>ids. x = Inr ids \<longrightarrow> ids = order (drive_files d0 h) n)) h2"
      unfolding findByName_def wp_simps by (rule wp_mono [OF find_pages_lists [OF pg d2]]) (simp add: p)
    moreover have "wp (case x of Inl e \<Rightarrow> ret (Inl (Fmt ''gdrive lookup: %w'' [FE e]))
           | Inr existing \<Rightarrow> do { u \<leftarrow> drive_store E f n b existing; ret (case u of Some e \<Rightarrow> Inl e | None \<Rightarrow> Inr sz) })
          (uploaded E d0 f n l h) h'"
      if h': "\<exists>es. h' = h2 @ es \<and> drive_files d0 h' = drive_files d0 h \<and> (\<forall>ids. x = Inr ids \<longrightarrow> ids = order (drive_files d0 h) n)" for x h'
    proof -
      obtain es where es: "h' = h @ (EvExt (EvReadFile l (Inr b)) # EvExt (EvStat l st) # es)"
          "drive_files d0 h' = drive_files d0 h" "\<And>ids. x = Inr ids \<Longrightarrow> ids = order (drive_files d0 h) n"
        using h' by (auto simp: h2)
      show ?thesis
      proof (cases x)
        case (Inl e)
        show ?thesis unfolding Inl sum.case es(1) by (simp add: wp_return)
      next
        case (Inr ids)
        have "wp (drive_store E f n b ids) (\<lambda>u h''. \<exists>fs. h'' = h' @ fs \<and> (u = None \<and> deletes_done fs \<longrightarrow> sole f n b (drive_files d0 h''))) h'"
          by (rule drive_store_sole [OF law]) (use dist es Inr p in simp_all)
        then have "wp (drive_store E f n b ids) (\<lambda>u. uploaded E d0 f n l h (case u of Some e \<Rightarrow> Inl e | None \<Rightarrow> Inr sz)) h'"
        proof (rule wp_mono)
          fix u :: "goerr option" and h'' assume "\<exists>fs. h'' = h' @ fs \<and> (u = None \<and> deletes_done fs \<longrightarrow> sole f n b (drive_files d0 h''))"
          then obtain fs where fs: "h'' = h' @ fs" "u = None \<Longrightarrow> deletes_done fs \<Longrightarrow> sole f n b (drive_files d0 h'')" by blast
          define gs where "gs = (EvExt (EvReadFile l (Inr b)) # EvExt (EvStat l st) # es) @ fs"
          have "h'' = h @ gs" by (simp add: fs(1) es(1) gs_def)
          moreover have "deletes_done gs \<Longrightarrow> deletes_done fs" "EvExt (EvReadFile l (Inr b)) \<in> set gs" by (simp_all add: gs_def deletes_done_def)
          ultimately show "uploaded E d0 f n l h (case u of Some e \<Rightarrow> Inl e | None \<Rightarrow> Inr sz) h''"
            using fs(2) rd unfolding uploaded_def by (auto split: option.splits)
        qed
        then show ?thesis unfolding Inr sum.case wp_simps .
      qed
    qed
    ultimately show ?thesis unfolding unf Inr sum.case wp_bind by (rule wp_mono)
  qed
qed

lemma save_body_saves:
  "wp (save_body E l body) (\<lambda>r h'. \<exists>es. h' = h @ es \<and> (r = None \<longrightarrow> snd body = None \<and> (\<exists>fs. es = fs @ [EvExt (EvWriteFile l body None)]))) h"
  unfolding save_body_def wp_simps by (auto simp: wp_simps split: option.splits)

lemma Download_sole:
  assumes law: "drive_law E d0 f" and one: "sole f n b (drive_files d0 h)"
  shows "wp (drive_Download E f n l) (\<lambda>r h'. \<exists>es. h' = h @ es \<and> (r = None \<longrightarrow> (\<exists>fs. es = fs @ [EvExt (EvWriteFile l (b, None) None)]))) h"
proof -
  obtain i ps where i: "named f n (drive_files d0 h) = [i]" "(i, n, ps, b) \<in> set (drive_files d0 h)" "distinct (map fst (drive_files d0 h))"
    using one unfolding sole_def by blast
  obtain order pos where pg: "pages_law E d0 f order pos" using law unfolding drive_law_def by blast
  have hit: "j = i" if "ListFiles (cloud (svc E)) h (drive_query f n) 1 [] = Inr (j # js, t')" for j js t'
  proof -
    have "j # js = take (length (j # js)) (drop (pos []) (order (drive_files d0 h) n))"
      using pg that unfolding pages_law_def Let_def by blast
    then have "j \<in> set (order (drive_files d0 h) n)" by (metis in_set_dropD in_set_takeD list.set_intros(1))
    then show ?thesis using pg i(1) by (simp add: pages_law_def)
  qed
  define q where "q = EvExt (EvCloud (EvDriveList (drive_query f n) 1 [] (ListFiles (cloud (svc E)) h (drive_query f n) 1 [])))"
  have got: "c = b" if g: "GetDriveFile (cloud (svc E)) (h @ [q]) i = Inr (c, None)" for c
  proof -
    obtain m ps' where "(i, m, ps', c) \<in> set (drive_files d0 (h @ [q]))" using law g unfolding drive_law_def by blast
    then have "(i, m, ps', c) \<in> set (drive_files d0 h)" by (simp add: q_def)
    then show ?thesis using i(2,3) by (metis eq_key_imp_eq_value prod.inject)
  qed
  show ?thesis
  proof (cases "ListFiles (cloud (svc E)) h (drive_query f n) 1 []")
    case (Inl e)
    then show ?thesis by (simp add: drive_Download_def Files_List_def wp_simps)
  next
    case (Inr p)
    show ?thesis
    proof (cases "fst p")
      case Nil
      then show ?thesis by (simp add: drive_Download_def Files_List_def wp_simps Inr del: One_nat_def)
    next
      case (Cons j js)
      then have ji: "j = i" using hit [of j js "snd p"] Inr by (metis prod.collapse)
      define g where "g = GetDriveFile (cloud (svc E)) (h @ [q]) i"
      have unf: "wp (drive_Download E f n l) Q h = wp (case g of Inl e \<Rightarrow> ret (Some (Fmt ''gdrive download: %w'' [FE e]))
          | Inr body \<Rightarrow> save_body E l body) Q (h @ [q, EvExt (EvCloud (EvDriveGet i g))])" for Q
        using Inr Cons by (simp add: drive_Download_def Files_List_def Files_Get_def wp_simps ji g_def q_def)
      show ?thesis
      proof (cases g)
        case (Inl e)
        then show ?thesis unfolding unf by (simp add: wp_return)
      next
        case (Inr body)
        have "body = (b, None)" if "snd body = None"
          using that got [of "fst body"] Inr by (cases body) (simp add: g_def)
        then show ?thesis unfolding unf Inr sum.case by (intro wp_mono [OF save_body_saves]) auto
      qed
    qed
  qed
qed

text \<open>
  An upload to Google Drive leaves one file of its name, and a download returns its content. When Drive behaves
  as documented, an upload that succeeds and whose deletions of duplicates all succeed leaves exactly one file
  of the name in the folder, with the bytes read from the local file; and a download of the name that follows, if it
  succeeds, has written exactly these bytes.
\<close>

theorem drive_upload_round_trip:
  assumes "drive_law E d0 f" and "distinct (map fst (drive_files d0 h))"
    and "result (drive_Upload E f l n) h = Inr z" and "deletes_done (events (drive_Upload E f l n) h)"
  shows "\<exists>b. EvExt (EvReadFile l (Inr b)) \<in> set (events (drive_Upload E f l n) h) \<and>
    sole f n b (drive_files d0 (final_hist (drive_Upload E f l n) h)) \<and>
    (result (drive_Download E f n l') (final_hist (drive_Upload E f l n) h) = None \<longrightarrow>
       EvExt (EvWriteFile l' (b, None) None) \<in> set (events (drive_Download E f n l') (final_hist (drive_Upload E f l n) h)))"
proof -
  let ?h = "final_hist (drive_Upload E f l n) h"
  have "uploaded E d0 f n l h (Inr z) ?h" using Upload_sole [OF assms(1,2), of l n] assms(3) by (simp add: wp_result)
  then obtain b where b: "EvExt (EvReadFile l (Inr b)) \<in> set (events (drive_Upload E f l n) h)" "sole f n b (drive_files d0 ?h)"
    using assms(4) by (auto simp: uploaded_def events_def)
  show ?thesis
    using b Download_sole [OF assms(1) b(2), of l'] by (intro exI [of _ b]) (auto simp: wp_result events_def)
qed

text \<open>A drive that answers with pages of one file, whose tokens count the files before them.\<close>

definition page_host :: "drive \<Rightarrow> string \<Rightarrow> host" where
  "page_host d0 f = calm_host\<lparr>svc := calm_services\<lparr>ReadFile := (\<lambda>_ _. Inr ''dump''), FileSize := (\<lambda>_ _. Inr 4),
     cloud := calm_cloud\<lparr>PageBudget := (\<lambda>_. 4),
       ListFiles := (\<lambda>h q k t. case query_reads q of
          None \<Rightarrow> Inl (Fmt ''bad query'' [])
        | Some (n, c) \<Rightarrow> (let l = remdups (named f n (drive_files d0 h)) in
            Inr (take 1 (drop (length t) l), if length t + 1 < length l then CHR ''x'' # t else []))),
       CreateDriveFile := (\<lambda>h n ps b. Inr (CHR ''f'' # concat (map fst (drive_files d0 h)))),
       GetDriveFile := (\<lambda>h i. case map_of (drive_files d0 h) i of
          None \<Rightarrow> Inl (Fmt ''not found'' []) | Some (n, ps, b) \<Rightarrow> Inr (b, None))\<rparr>\<rparr>\<rparr>"

lemma id_length: "i \<in> fst ` set (d :: drive) \<Longrightarrow> length i \<le> length (concat (map fst d))"
proof (induction d)
  case (Cons x d)
  then show ?case by (cases "i = fst x") auto
qed simp

lemma longer_id: "CHR ''f'' # concat (map fst d) \<notin> fst ` set (d :: drive)"
  using id_length [of "CHR ''f'' # concat (map fst d)" d] by auto

lemma page_host_law: "drive_law (page_host d0 f) d0 f"
proof -
  have "pages_law (page_host d0 f) d0 f (\<lambda>d n. remdups (named f n d)) length"
    unfolding pages_law_def by (auto simp: page_host_def query_reads_drive Let_def min_def split: if_splits)
  then have "\<exists>order pos. pages_law (page_host d0 f) d0 f order pos" by blast
  moreover have "\<forall>h n ps b i. CreateDriveFile (cloud (svc (page_host d0 f))) h n ps b = Inr i \<longrightarrow> i \<notin> fst ` set (drive_files d0 h)"
    by (simp add: page_host_def longer_id)
  moreover have "\<forall>h i b. GetDriveFile (cloud (svc (page_host d0 f))) h i = Inr (b, None) \<longrightarrow> (\<exists>n ps. (i, n, ps, b) \<in> set (drive_files d0 h))"
    by (auto simp: page_host_def dest: map_of_SomeD split: option.splits)
  ultimately show ?thesis unfolding drive_law_def by (intro conjI)
qed

definition twice :: drive where
  "twice = [(''a'', ''db.gz'', [''dir''], ''old''), (''c'', ''other'', [''dir''], ''x''), (''b'', ''db.gz'', [''dir''], ''older'')]"

lemmas drive_run = drive_Upload_def findByName_def open_file_def drive_store_def drive_requests page_host_def run_simps query_reads_drive
  named_def twice_def Let_def calm_services_def calm_cloud_def eval_nat_numeral

lemma twice_run:
  "result (drive_Upload (page_host twice ''dir'') ''dir'' ''/tmp/d'' ''db.gz'') [] = Inr 4"
  "deletes_done (events (drive_Upload (page_host twice ''dir'') ''dir'' ''/tmp/d'' ''db.gz'') [])"
  "distinct (map fst (drive_files twice []))"
    apply (simp add: drive_run)
   apply (simp add: drive_run deletes_done_def)
  apply (simp add: twice_def)
  done

theorem drive_upload_round_trip_witness:
  "\<exists>b. sole ''dir'' ''db.gz'' b (drive_files twice (final_hist (drive_Upload (page_host twice ''dir'') ''dir'' ''/tmp/d'' ''db.gz'') []))"
  using drive_upload_round_trip [OF page_host_law twice_run(3) twice_run(1,2)] by blast

end
