(* ===== verification/Backup.thy ===== *)
theory Backup
  imports Drive
begin

text \<open>
  Backup destinations (backup/): the construction of a destination from its configuration,
  and the operations of the three destinations. Samba runs the program \<open>smbclient\<close>, with the environment the source
  sets; PATH and HOME are passed through and not shown. S3 sends its requests through the SDK, whose upload manager is
  the request \<open>DestUploadStream\<close> of the host; the operations of Google Drive are those of the theory Drive.
\<close>

section \<open>Construction\<close>

definition newS3Destination :: "payload \<Rightarrow> dest res" where
  "newS3Destination c =
     (if pstr c ''bucket'' = [] \<or> pstr c ''region'' = [] \<or> pstr c ''access_key_id'' = [] \<or> pstr c ''secret_access_key'' = []
      then Inl (Fmt ''s3: bucket, region, access_key_id, and secret_access_key are required'' [])
      else Inr (DestS3 (pstr c ''bucket'') (pstr c ''path_prefix'')))"

definition newGDriveDestination :: "host \<Rightarrow> payload \<Rightarrow> dest res prog" where
  "newGDriveDestination E c =
     (if pstr c ''client_id'' = [] \<or> pstr c ''client_secret'' = [] \<or> pstr c ''refresh_token'' = []
      then ret (Inl (Fmt ''google_drive: client_id, client_secret, and refresh_token are required'' []))
      else do {
        r \<leftarrow> request (GDriveService (svc E)) (\<lambda>r. EvExt (EvGDrive r));
        ret (case r of
          Some e \<Rightarrow> Inl (Fmt ''google_drive: create service: %w'' [FE e])
        | None \<Rightarrow> Inr (DestGDrive (pstr c ''folder_id'')))
      })"

definition smb_forbidden :: string where
  "smb_forbidden = '';`$'' @ [CHR 0x22, CHR 0x5C, CHR 0x0A, CHR 0x0D]"

definition validateSMBPath :: "string \<Rightarrow> goerr option" where
  "validateSMBPath p = (if ContainsAny p smb_forbidden
     then Some (Fmt ''samba: remote path contains disallowed characters'' []) else None)"

definition newSambaDestination :: "payload \<Rightarrow> dest res" where
  "newSambaDestination c =
     (if pstr c ''server'' = [] \<or> pstr c ''share'' = [] \<or> pstr c ''username'' = [] \<or> pstr c ''password'' = []
      then Inl (Fmt ''samba: server, share, username, and password are required'' [])
      else if Contains (pstr c ''username'') ''%''
      then Inl (Fmt (''samba: username must not contain '' @ [CHR 0x27] @ ''%%'' @ [CHR 0x27]) [])
      else case validateSMBPath (pstr c ''path'') of
        Some e \<Rightarrow> Inl e
      | None \<Rightarrow> Inr (DestSamba (pstr c ''server'') (pstr c ''share'') (pstr c ''username'') (pstr c ''password'') (pstr c ''path'')))"

text \<open>A nil configuration reads like an empty one.\<close>

definition NewDestination :: "host \<Rightarrow> string \<Rightarrow> payload option \<Rightarrow> dest res prog" where
  "NewDestination E t cfg = (let c = (case cfg of Some m \<Rightarrow> m | None \<Rightarrow> []) in
     if t = ''s3'' then ret (newS3Destination c)
     else if t = ''google_drive'' then newGDriveDestination E c
     else if t = ''samba'' then ret (newSambaDestination c)
     else ret (Inl (Fmt ''unsupported backup destination type: %s'' [FS t])))"

section \<open>S3 keys and the Samba client\<close>

definition s3_remotePath :: "string \<Rightarrow> string \<Rightarrow> string" where
  "s3_remotePath pre p = (if pre \<noteq> [] then pre @ ''/'' @ p else p)"

definition smbEscape :: "string \<Rightarrow> string" where
  "smbEscape s = concat (map (\<lambda>c. if c = CHR 0x22 then [CHR 0x5C, CHR 0x22] else [c]) s)"

definition smbURI :: "string \<Rightarrow> string \<Rightarrow> string" where
  "smbURI server share = ''//'' @ server @ ''/'' @ share"

definition remoteDir :: "string \<Rightarrow> string" where
  "remoteDir path = (if path \<noteq> [] then TrimSuffix path ''/'' else [])"

definition smb_remote :: "string \<Rightarrow> string \<Rightarrow> string" where
  "smb_remote path remotePath = (if remoteDir path \<noteq> [] then remoteDir path @ ''/'' @ remotePath else remotePath)"

definition quoted :: "string \<Rightarrow> string" where
  "quoted s = [CHR 0x22] @ s @ [CHR 0x22]"

definition smbclient :: "host \<Rightarrow> string \<Rightarrow> string \<Rightarrow> string \<Rightarrow> string \<Rightarrow> string \<Rightarrow> (goerr option \<times> string) prog" where
  "smbclient E server share user pw script =
     (let argv = [''smbclient'', smbURI server share, ''-U'', user, ''-c'', script]; env = [(''PASSWD'', pw)] in
      request (\<lambda>h. RunCommand (svc E) h argv env) (\<lambda>r. EvExt (EvRun argv env r)))"

section \<open>Operations of a destination\<close>

text \<open>Only S3 implements \<open>StreamUploader\<close>; the answer is the number of bytes the uploader read, as the counting reader has it.\<close>

definition UploadStream :: "host \<Rightarrow> dest \<Rightarrow> stream \<Rightarrow> string \<Rightarrow> int res prog" where
  "UploadStream E d s remotePath =
     (let key = (case d of DestS3 b pre \<Rightarrow> s3_remotePath pre remotePath | _ \<Rightarrow> remotePath) in do {
        r \<leftarrow> request (\<lambda>h. DestUploadStream (svc E) h d key s) (\<lambda>r. EvExt (EvUploadStream d key s r));
        ret (case r of Inl e \<Rightarrow> Inl (Fmt ''s3 upload: %w'' [FE e]) | Inr n \<Rightarrow> Inr n)
      })"

definition s3_Upload :: "host \<Rightarrow> dest \<Rightarrow> string \<Rightarrow> string \<Rightarrow> int res prog" where
  "s3_Upload E d localPath remotePath = do {
     f \<leftarrow> open_file E localPath;
     (case f of
        Inl e \<Rightarrow> ret (Inl (Fmt ''open file: %w'' [FE e]))
      | Inr b \<Rightarrow> UploadStream E d (b, None) remotePath)
   }"

definition s3_Download :: "host \<Rightarrow> string \<Rightarrow> string \<Rightarrow> string \<Rightarrow> string \<Rightarrow> goerr option prog" where
  "s3_Download E bucket pre remotePath localPath = (let key = s3_remotePath pre remotePath in do {
     r \<leftarrow> request (\<lambda>h. GetObject (cloud (svc E)) h bucket key) (\<lambda>r. EvExt (EvCloud (EvS3Get bucket key r)));
     (case r of
        Inl e \<Rightarrow> ret (Some (Fmt ''s3 download: %w'' [FE e]))
      | Inr body \<Rightarrow> save_body E localPath body)
   })"

definition s3_Test :: "host \<Rightarrow> string \<Rightarrow> goerr option prog" where
  "s3_Test E bucket = do {
     r \<leftarrow> request (\<lambda>h. HeadBucket (cloud (svc E)) h bucket) (\<lambda>r. EvExt (EvCloud (EvS3Head bucket r)));
     ret (map_option (\<lambda>e. Fmt ''s3 test: %w'' [FE e]) r)
   }"

definition s3_Delete :: "host \<Rightarrow> string \<Rightarrow> string \<Rightarrow> string \<Rightarrow> goerr option prog" where
  "s3_Delete E bucket pre remotePath = (let key = s3_remotePath pre remotePath in do {
     r \<leftarrow> request (\<lambda>h. DeleteObject (cloud (svc E)) h bucket key) (\<lambda>r. EvExt (EvCloud (EvS3Delete bucket key r)));
     ret (map_option (\<lambda>e. Fmt ''s3 delete: %w'' [FE e]) r)
   })"

definition dest_Upload :: "host \<Rightarrow> dest \<Rightarrow> string \<Rightarrow> string \<Rightarrow> int res prog" where
  "dest_Upload E d localPath remotePath = (case d of
     DestS3 b pre \<Rightarrow> s3_Upload E d localPath remotePath
   | DestGDrive f \<Rightarrow> drive_Upload E f localPath remotePath
   | DestSamba server share user pw path \<Rightarrow> (case validateSMBPath remotePath of
       Some e \<Rightarrow> ret (Inl e)
     | None \<Rightarrow> do {
         (if remoteDir path \<noteq> []
          then do { smbclient E server share user pw (''mkdir '' @ quoted (smbEscape (remoteDir path))); ret () }
          else ret ());
         r \<leftarrow> smbclient E server share user pw
           (''put '' @ quoted (smbEscape localPath) @ '' '' @ quoted (smbEscape (smb_remote path remotePath)));
         (case fst r of
            Some e \<Rightarrow> ret (Inl (Fmt ''samba upload: %s: %w'' [FS (TrimSpace (snd r)), FE e]))
          | None \<Rightarrow> do {
              s \<leftarrow> request (\<lambda>h. FileSize (svc E) h localPath) (\<lambda>r. EvExt (EvStat localPath r));
              ret (case s of Inl e \<Rightarrow> Inl (Fmt ''stat uploaded file: %w'' [FE e]) | Inr n \<Rightarrow> Inr n)
            })
       }))"

definition dest_Download :: "host \<Rightarrow> dest \<Rightarrow> string \<Rightarrow> string \<Rightarrow> goerr option prog" where
  "dest_Download E d remotePath localPath = (case d of
     DestS3 b pre \<Rightarrow> s3_Download E b pre remotePath localPath
   | DestGDrive f \<Rightarrow> drive_Download E f remotePath localPath
   | DestSamba server share user pw path \<Rightarrow> (case validateSMBPath remotePath of
       Some e \<Rightarrow> ret (Some e)
     | None \<Rightarrow> do {
         r \<leftarrow> smbclient E server share user pw
           (''get '' @ quoted (smbEscape (smb_remote path remotePath)) @ '' '' @ quoted (smbEscape localPath));
         ret (case fst r of
            Some e \<Rightarrow> Some (Fmt ''samba download: %s: %w'' [FS (TrimSpace (snd r)), FE e])
          | None \<Rightarrow> None)
       }))"

definition dest_Test :: "host \<Rightarrow> dest \<Rightarrow> goerr option prog" where
  "dest_Test E d = (case d of
     DestSamba server share user pw path \<Rightarrow> do {
       r \<leftarrow> smbclient E server share user pw ''ls'';
       ret (case fst r of Some e \<Rightarrow> Some (Fmt ''samba test: %s: %w'' [FS (TrimSpace (snd r)), FE e]) | None \<Rightarrow> None)
     }
   | DestS3 b pre \<Rightarrow> s3_Test E b
   | DestGDrive f \<Rightarrow> drive_Test E)"

definition dest_Delete :: "host \<Rightarrow> dest \<Rightarrow> string \<Rightarrow> goerr option prog" where
  "dest_Delete E d remotePath = (case d of
     DestS3 b pre \<Rightarrow> s3_Delete E b pre remotePath
   | DestGDrive f \<Rightarrow> drive_Delete E f remotePath
   | DestSamba server share user pw path \<Rightarrow> (case validateSMBPath remotePath of
       Some e \<Rightarrow> ret (Some e)
     | None \<Rightarrow> do {
         r \<leftarrow> smbclient E server share user pw (''del '' @ quoted (smbEscape (smb_remote path remotePath)));
         ret (case fst r of
            Some e \<Rightarrow> Some (Fmt ''samba delete: %s: %w'' [FS (TrimSpace (snd r)), FE e])
          | None \<Rightarrow> None)
       }))"

definition can_stream :: "dest \<Rightarrow> bool" where
  "can_stream d = (case d of DestS3 _ _ \<Rightarrow> True | _ \<Rightarrow> False)"

section \<open>No path breaks out of an smbclient script\<close>

definition smb_clean :: "string \<Rightarrow> bool" where
  "smb_clean s = (\<forall>c\<in>set s. c \<notin> set smb_forbidden)"

text \<open>
  The scripts the runner may hand to \<open>smbclient\<close> for an operation with the local file
  \<open>localPath\<close>: one command whose remote arguments are quoted and contain neither a quote nor a
  backslash nor a separator of commands.
\<close>

definition one_command :: "string \<Rightarrow> string \<Rightarrow> bool" where
  "one_command localPath script = (script = ''ls'' \<or> (\<exists>r. smb_clean r \<and>
     script \<in> {''mkdir '' @ quoted r, ''del '' @ quoted r,
       ''put '' @ quoted (smbEscape localPath) @ '' '' @ quoted r, ''get '' @ quoted r @ '' '' @ quoted (smbEscape localPath)}))"

definition smb_guarded :: "dest \<Rightarrow> string \<Rightarrow> event \<Rightarrow> bool" where
  "smb_guarded d localPath e = (case e of
     EvExt (EvRun argv env r) \<Rightarrow> (\<exists>server share user pw path script. d = DestSamba server share user pw path \<and>
       argv = [''smbclient'', smbURI server share, ''-U'', user, ''-c'', script] \<and> env = [(''PASSWD'', pw)] \<and>
       CHR ''%'' \<notin> set user \<and> one_command localPath script)
   | _ \<Rightarrow> True)"

definition samba_ok :: "dest \<Rightarrow> bool" where
  "samba_ok d = (case d of DestSamba server share user pw path \<Rightarrow> smb_clean path \<and> CHR ''%'' \<notin> set user | _ \<Rightarrow> True)"

lemma validateSMBPath_iff: "validateSMBPath p = None \<longleftrightarrow> smb_clean p"
  by (auto simp: validateSMBPath_def smb_clean_def ContainsAny_iff)

lemma Contains_char: "Contains s [c] \<longleftrightarrow> c \<in> set s"
  by (auto simp: Contains_iff in_set_conv_decomp)

lemma smbEscape_clean: "smb_clean s \<Longrightarrow> smbEscape s = s"
  by (induction s) (auto simp: smbEscape_def smb_clean_def smb_forbidden_def)

lemma remoteDir_clean: "smb_clean p \<Longrightarrow> smb_clean (remoteDir p)"
  by (auto simp: smb_clean_def remoteDir_def TrimSuffix_def dest: in_set_takeD)

lemma smb_clean_append: "smb_clean (a @ b) \<longleftrightarrow> smb_clean a \<and> smb_clean b"
  by (auto simp: smb_clean_def)

lemma smb_clean_slash: "smb_clean ''/''"
  by (simp add: smb_clean_def smb_forbidden_def)

lemma smb_remote_clean: "smb_clean p \<Longrightarrow> smb_clean q \<Longrightarrow> smb_clean (smb_remote p q)"
  unfolding smb_remote_def by (simp only: smb_clean_append smb_clean_slash remoteDir_clean split: if_split) simp

lemma newSamba_ok: "newSambaDestination c = Inr d \<Longrightarrow> samba_ok d"
  unfolding newSambaDestination_def
  by (auto simp: samba_ok_def validateSMBPath_iff Contains_char split: if_splits option.splits)

lemma does_NewDestination: "does (NewDestination E t cfg) (\<lambda>r es. \<forall>d. r = Inr d \<longrightarrow> samba_ok d)"
proof -
  have "samba_ok d" if "newS3Destination c = Inr d" for c d
    using that by (auto simp: newS3Destination_def samba_ok_def split: if_splits)
  moreover have gd: "samba_ok (DestGDrive f)" for f by (simp add: samba_ok_def)
  ultimately show ?thesis
    unfolding NewDestination_def newGDriveDestination_def Let_def
    by (intro does_intros) (auto intro: newSamba_ok simp: gd split: option.splits)
qed

lemma emits_smbclient [emits_intros]:
  "CHR ''%'' \<notin> set user \<Longrightarrow> one_command l script \<Longrightarrow>
   emits (smb_guarded (DestSamba server share user pw path) l) (smbclient E server share user pw script)"
  unfolding smbclient_def Let_def by (intro emits_intros) (simp add: smb_guarded_def)

lemma one_commands:
  assumes "smb_clean r"
  shows "one_command l (''mkdir '' @ quoted (smbEscape r))" "one_command l (''del '' @ quoted (smbEscape r))"
    "one_command l (''put '' @ quoted (smbEscape l) @ '' '' @ quoted (smbEscape r))"
    "one_command l (''get '' @ quoted (smbEscape r) @ '' '' @ quoted (smbEscape l))"
  unfolding one_command_def smbEscape_clean [OF assms] using assms by blast+

text \<open>
  The requests an operation sends unless the destination is a Samba share: it opens, stats and writes local
  files, and speaks to its service.
\<close>

definition plain_request :: "event \<Rightarrow> bool" where
  "plain_request e = (case e of
     EvExt x \<Rightarrow> (case x of EvReadFile p r \<Rightarrow> True | EvStat p r \<Rightarrow> True | EvCreateFile p r \<Rightarrow> True | EvWriteFile p b r \<Rightarrow> True
       | EvRemoveFile p \<Rightarrow> True | EvUploadStream d k b r \<Rightarrow> True | EvCloud c \<Rightarrow> True | _ \<Rightarrow> False)
   | _ \<Rightarrow> False)"

lemma plain_simps [simp]:
  "plain_request (EvExt (EvReadFile p rf))" "plain_request (EvExt (EvStat p rs))" "plain_request (EvExt (EvCreateFile p r))"
  "plain_request (EvExt (EvWriteFile p b r))" "plain_request (EvExt (EvRemoveFile p))" "plain_request (EvExt (EvUploadStream d k b rs))"
  "plain_request (EvExt (EvCloud c))"
  by (simp_all add: plain_request_def)

lemma emits_find_pages: "emits plain_request (find_pages E q n t ids)"
  by (induction n arbitrary: t ids) (auto simp: Files_List_def intro!: emits_intros)

lemma emits_store: "emits plain_request (drive_store E f n b ids)"
  unfolding drive_store_def drive_requests by (cases ids) (auto intro!: emits_intros)

lemma emits_save_body: "emits plain_request (save_body E l b)"
  unfolding save_body_def by (intro emits_intros) simp_all

lemmas cloud_ops = s3_Upload_def s3_Download_def s3_Test_def s3_Delete_def UploadStream_def
  drive_Upload_def drive_Download_def drive_Test_def drive_Delete_def

lemma emits_cloud:
  "emits plain_request (s3_Upload E d l r)" "emits plain_request (s3_Download E b pre r l)" "emits plain_request (s3_Test E b)"
  "emits plain_request (s3_Delete E b pre r)" "emits plain_request (drive_Upload E f l r)" "emits plain_request (drive_Download E f r l)"
  "emits plain_request (drive_Test E)" "emits plain_request (drive_Delete E f r)"
  unfolding cloud_ops open_file_def findByName_def drive_requests Let_def
  by (auto intro!: emits_intros emits_find_pages emits_store emits_save_body split: list.split)

lemma plain_guarded: "plain_request e \<Longrightarrow> smb_guarded d l e"
  by (auto simp: plain_request_def smb_guarded_def split: event.splits ext.splits)

lemma guarded_stat [simp]: "smb_guarded d l (EvExt (EvStat a q))"
  by (simp add: plain_guarded)

lemmas cloud_guarded = emits_cloud [THEN emits_mono, OF plain_guarded]

lemma smb_events:
  assumes "samba_ok d"
  shows "emits (smb_guarded d l) (dest_Upload E d l r) \<and> emits (smb_guarded d l) (dest_Download E d r l) \<and>
    emits (smb_guarded d l) (dest_Delete E d r) \<and> emits (smb_guarded d l) (dest_Test E d)"
proof (cases d)
  case (DestSamba server share user pw path)
  with assms have u: "CHR ''%'' \<notin> set user" "smb_clean path" by (simp_all add: samba_ok_def)
  have c: "smb_clean (smb_remote path r) \<and> smb_clean (remoteDir path)" if "validateSMBPath r = None"
    using that u(2) by (simp add: validateSMBPath_iff smb_remote_clean remoteDir_clean)
  have "one_command l ''ls''" by (simp add: one_command_def)
  with c show ?thesis
    unfolding dest_Upload_def dest_Download_def dest_Delete_def dest_Test_def DestSamba dest.case
    by (intro conjI emits_intros u(1) one_commands) simp_all
qed (auto simp: dest_Upload_def dest_Download_def dest_Delete_def dest_Test_def intro!: cloud_guarded)

text \<open>
  C24: No path breaks out of an \<open>smbclient\<close> script. For every destination that \<open>NewDestination\<close>
  accepts, and every remote path, each program the operations of the destination run is
  \<open>smbclient\<close> with a script of one command, in which the remote names are quoted and hold no
  quote, backslash, backtick, dollar, semicolon or line break; the password is passed in the
  environment and never as an argument.
\<close>

theorem samba_scripts_guarded:
  assumes "result (NewDestination E t cfg) h0 = Inr d"
  shows "list_all (smb_guarded d l) (events (dest_Upload E d l r) h @ events (dest_Download E d r l) h @
    events (dest_Delete E d r) h @ events (dest_Test E d) h)"
proof -
  have "samba_ok d" using does_events [OF does_NewDestination] assms by blast
  from smb_events [OF this] show ?thesis by (simp add: emits_final)
qed

definition sample_share :: payload where
  "sample_share = [(''server'', JStr ''nas''), (''share'', JStr ''backups''), (''username'', JStr ''svc''),
     (''password'', JStr ''pw''), (''path'', JStr ''db/'')]"

lemma sample_share_accepted:
  "result (NewDestination calm_host ''samba'' (Some sample_share)) [] = Inr (DestSamba ''nas'' ''backups'' ''svc'' ''pw'' ''db/'')"
  by (simp add: NewDestination_def result_def newSambaDestination_def sample_share_def pstr_def validateSMBPath_def
      ContainsAny_def smb_forbidden_def Contains_def HasPrefix_def)

theorem samba_scripts_guarded_witness:
  "list_all (smb_guarded (DestSamba ''nas'' ''backups'' ''svc'' ''pw'' ''db/'') [])
     (events (dest_Delete calm_host (DestSamba ''nas'' ''backups'' ''svc'' ''pw'' ''db/'') ''a.sql'') []) \<and>
   events (dest_Delete calm_host (DestSamba ''nas'' ''backups'' ''svc'' ''pw'' ''db/'') ''a.sql'') [] \<noteq> []"
  using samba_scripts_guarded [OF sample_share_accepted, of "[]" "''a.sql''" "[]"]
  by (simp add: dest_Delete_def smbclient_def run_simps validateSMBPath_def ContainsAny_def smb_forbidden_def Let_def)

end
