(* ===== verification/Snapshot.thy ===== *)
theory Snapshot
  imports Backup
begin

text \<open>
  Taking and restoring snapshots: the dump and the restore inside a container
  (docker/snapshot.go) and the pipeline between a dump and a destination
  (snapshot_pipeline.go). A reader is the value \<open>stream\<close>: the bytes it yields and the error it
  ends with. The goroutines that feed a pipe run before the reader here; what a reader
  sees is the same. The answer of \<open>ExecOutput\<close> is what the exec wrote, with the error that cut
  the attached stream short.
\<close>

section \<open>Dump and restore in the container\<close>

definition mysqlFamilyCmd :: "string \<Rightarrow> string \<Rightarrow> string list \<Rightarrow> string list" where
  "mysqlFamilyCmd preferred fallback args =
     [''sh'', ''-c'', ''if command -v '' @ preferred @ '' >/dev/null 2>&1; then exec '' @ preferred @ '' '' @
        [CHR 0x22] @ ''$@'' @ [CHR 0x22] @ ''; else exec '' @ fallback @ '' '' @ [CHR 0x22] @ ''$@'' @ [CHR 0x22] @ ''; fi'',
      ''sh''] @ args"

definition dump_command :: "string \<Rightarrow> string \<Rightarrow> string \<Rightarrow> string \<Rightarrow> (string list \<times> string list) option" where
  "dump_command engine dbName user password =
     (if engine = ''mysql'' \<or> engine = ''mariadb'' then
        Some (mysqlFamilyCmd ''mariadb-dump'' ''mysqldump''
          [''-u'', user, ''--single-transaction'', ''--routines'', ''--triggers'', dbName], [''MYSQL_PWD='' @ password])
      else if engine = ''postgres'' then
        Some ([''pg_dump'', ''-U'', user, ''-Fc'', dbName], [''PGPASSWORD='' @ password])
      else None)"

definition restore_command :: "string \<Rightarrow> string \<Rightarrow> string \<Rightarrow> string \<Rightarrow> (string list \<times> string list) option" where
  "restore_command engine dbName user password =
     (if engine = ''mysql'' \<or> engine = ''mariadb'' then
        Some (mysqlFamilyCmd ''mariadb'' ''mysql'' [''-u'', user, dbName], [''MYSQL_PWD='' @ password])
      else if engine = ''postgres'' then
        Some ([''pg_restore'', ''-U'', user, ''-d'', dbName, ''--clean'', ''--if-exists''], [''PGPASSWORD='' @ password])
      else None)"

definition exec_start :: "host \<Rightarrow> string \<Rightarrow> string list \<times> string list \<Rightarrow> string res prog" where
  "exec_start E cid ce = do {
     c \<leftarrow> request (\<lambda>h. ExecCreate (svc E) h cid (fst ce) (snd ce)) (\<lambda>r. EvExt (EvExecCreate cid (fst ce) (snd ce) r));
     (case c of
        Inl e \<Rightarrow> ret (Inl (Fmt ''exec create: %w'' [FE e]))
      | Inr x \<Rightarrow> do {
          a \<leftarrow> request (\<lambda>h. ExecAttach (svc E) h x) (\<lambda>r. EvExt (EvExecAttach x r));
          ret (case a of Some e \<Rightarrow> Inl (Fmt ''exec attach: %w'' [FE e]) | None \<Rightarrow> Inr x)
        })
   }"

definition exec_output :: "host \<Rightarrow> string \<Rightarrow> (stream \<times> string) prog" where
  "exec_output E x = request (\<lambda>h. ExecOutput (svc E) h x) (\<lambda>r. EvExt (EvExecOutput x (fst r) (snd r)))"

definition exec_inspect :: "host \<Rightarrow> string \<Rightarrow> int res prog" where
  "exec_inspect E x = request (\<lambda>h. ExecInspect (svc E) h x) (\<lambda>r. EvExt (EvExecInspect x r))"

text \<open>
  The stream of a dump: an error of the attached stream, a failed inspect and a non-zero exit
  code all end it with an error; only a dump that exited with code 0 ends cleanly.
\<close>

definition dump_stream :: "host \<Rightarrow> string \<Rightarrow> stream prog" where
  "dump_stream E x = do {
     o1 \<leftarrow> exec_output E x;
     (case snd (fst o1) of
        Some e \<Rightarrow> do { emit (EvExt (EvExecClose x)); ret (fst (fst o1), Some (Fmt ''read dump output: %w'' [FE e])) }
      | None \<Rightarrow> do {
          i \<leftarrow> exec_inspect E x;
          emit (EvExt (EvExecClose x));
          ret (fst (fst o1), case i of
             Inl e \<Rightarrow> Some (Fmt ''exec inspect: %w'' [FE e])
           | Inr code \<Rightarrow> if code \<noteq> 0 then Some (Fmt ''dump exited with code %d: %s'' [FD code, FS (TrimSpace (snd o1))]) else None)
        })
   }"

definition ExecDatabaseDump :: "host \<Rightarrow> string \<Rightarrow> string \<Rightarrow> string \<Rightarrow> string \<Rightarrow> string \<Rightarrow> stream res prog" where
  "ExecDatabaseDump E cid engine dbName user password = (case dump_command engine dbName user password of
     None \<Rightarrow> ret (Inl (Fmt ''unsupported engine for dump: %s'' [FS engine]))
   | Some ce \<Rightarrow> do {
       r \<leftarrow> exec_start E cid ce;
       (case r of Inl e \<Rightarrow> ret (Inl e) | Inr x \<Rightarrow> do { s \<leftarrow> dump_stream E x; ret (Inr s) })
     })"

text \<open>The error of the copy into the exec: the input's own error, or that of the connection.\<close>

definition copy_error :: "stream \<Rightarrow> int \<times> goerr option \<Rightarrow> goerr option" where
  "copy_error s r = (case snd s of Some e \<Rightarrow> Some e | None \<Rightarrow> snd r)"

definition ExecDatabaseRestore ::
  "host \<Rightarrow> string \<Rightarrow> string \<Rightarrow> string \<Rightarrow> string \<Rightarrow> string \<Rightarrow> stream \<Rightarrow> goerr option prog" where
  "ExecDatabaseRestore E cid engine dbName user password input = (case restore_command engine dbName user password of
     None \<Rightarrow> ret (Some (Fmt ''unsupported engine for restore: %s'' [FS engine]))
   | Some ce \<Rightarrow> do {
       r \<leftarrow> exec_start E cid ce;
       (case r of
          Inl e \<Rightarrow> ret (Some e)
        | Inr x \<Rightarrow> do {
            cp \<leftarrow> request (\<lambda>h. ExecInput (svc E) h x input) (\<lambda>r. EvExt (EvExecInput x input r));
            o1 \<leftarrow> exec_output E x;
            emit (EvExt (EvExecClose x));
            i \<leftarrow> exec_inspect E x;
            ret (case i of
               Inl e \<Rightarrow> Some (Fmt ''exec inspect: %w'' [FE e])
             | Inr code \<Rightarrow> if code \<noteq> 0 then Some (Fmt ''restore exited with code %d: %s'' [FD code, FS (snd o1)])
                 else (case copy_error input cp of
                    Some e \<Rightarrow> Some (Fmt ''restore input truncated after %d bytes: %w'' [FD (fst cp), FE e])
                  | None \<Rightarrow> None))
          })
     })"

section \<open>The pipeline to a destination\<close>

text \<open>
  What the compressor hands to the uploader: the compressed dump, or a stream that ends with
  an error. The bytes before an error are those compressed so far.
\<close>

definition compressed :: "host \<Rightarrow> stream \<Rightarrow> stream prog" where
  "compressed E dump = (case snd dump of
     Some e \<Rightarrow> ret (Gzip (svc E) (fst dump), Some (Fmt ''dump stream failed: %w'' [FE e]))
   | None \<Rightarrow> do {
       c \<leftarrow> observe (CompressErr (svc E));
       ret (Gzip (svc E) (fst dump), map_option (\<lambda>e. Fmt ''finalise compression: %w'' [FE e]) c)
     })"

text \<open>
  The staged file: the answer of \<open>WriteFile\<close> is the error of the step that failed (create,
  finalise, flush or close), with the text the source wraps it in.
\<close>

definition stageAndUpload :: "host \<Rightarrow> stream \<Rightarrow> dest \<Rightarrow> string \<Rightarrow> int res prog" where
  "stageAndUpload E dump d remotePath = do {
     t \<leftarrow> request (\<lambda>h. MkdirTemp (svc E) h ''lattice-snapshot-*'') (\<lambda>r. EvExt (EvMkdirTemp ''lattice-snapshot-*'' r));
     (case t of
        Inl e \<Rightarrow> ret (Inl (Fmt ''create temp dir: %w'' [FE e]))
      | Inr dir \<Rightarrow> do {
          z \<leftarrow> compressed E dump;
          w \<leftarrow> request (\<lambda>h. WriteFile (svc E) h (dir @ ''/dump.sql.gz'') z) (\<lambda>r. EvExt (EvWriteFile (dir @ ''/dump.sql.gz'') z r));
          r \<leftarrow> (case w of
             Some e \<Rightarrow> ret (Inl e)
           | None \<Rightarrow> (case snd z of
               Some e \<Rightarrow> ret (Inl e)
             | None \<Rightarrow> dest_Upload E d (dir @ ''/dump.sql.gz'') remotePath));
          emit (EvExt (EvRemoveAll dir));
          ret r
        })
   }"

definition streamSnapshot :: "host \<Rightarrow> stream res prog \<Rightarrow> dest \<Rightarrow> string \<Rightarrow> int res prog" where
  "streamSnapshot E dumper d remotePath = do {
     r \<leftarrow> dumper;
     (case r of
        Inl e \<Rightarrow> ret (Inl e)
      | Inr dump \<Rightarrow>
          if \<not> can_stream d then stageAndUpload E dump d remotePath
          else do { z \<leftarrow> compressed E dump; UploadStream E d z remotePath })
   }"

text \<open>
  \<open>maybeGunzip\<close>: a stream with fewer than two bytes is handed on when it ended cleanly; one
  that begins with the magic bytes is decompressed, any other is handed on as it is.
\<close>

definition gzip_magic :: "string \<Rightarrow> bool" where
  "gzip_magic b = (take 2 b = [CHR 0x1F, CHR 0x8B])"

definition maybeGunzip :: "host \<Rightarrow> stream \<Rightarrow> stream res" where
  "maybeGunzip E s =
     (if length (fst s) < 2 then
        (case snd s of None \<Rightarrow> Inr s | Some e \<Rightarrow> Inl (Fmt ''read snapshot header: %w'' [FE e]))
      else if \<not> gzip_magic (fst s) then Inr s
      else (case Gunzip (svc E) (fst s) of
          Inl e \<Rightarrow> Inl (Fmt ''open gzip stream: %w'' [FE e])
        | Inr u \<Rightarrow> Inr u))"

section \<open>A snapshot that is reported is complete\<close>

text \<open>
  Documented behaviour the pipeline relies on: the S3 upload manager fails when the body it
  reads fails, and compression is undone by decompression and begins with the gzip magic.
\<close>

definition uploader_law :: "host \<Rightarrow> bool" where
  "uploader_law E = (\<forall>h d k s. snd s \<noteq> None \<longrightarrow> isl (DestUploadStream (svc E) h d k s))"

definition gzip_law :: "host \<Rightarrow> bool" where
  "gzip_law E = (\<forall>b. Gunzip (svc E) (Gzip (svc E) b) = Inr (b, None) \<and> gzip_magic (Gzip (svc E) b))"

text \<open>A dump whose exec exited with code 0 and whose output was read to its end.\<close>

definition dump_complete :: "string \<Rightarrow> event list \<Rightarrow> bool" where
  "dump_complete b es = (\<exists>x err. EvExt (EvExecOutput x (b, None) err) \<in> set es \<and> EvExt (EvExecInspect x (Inr 0)) \<in> set es)"

text \<open>The stored object holds the compressed dump, whole.\<close>

definition stored :: "host \<Rightarrow> string \<Rightarrow> event list \<Rightarrow> bool" where
  "stored E b es = ((\<exists>d k n. EvExt (EvUploadStream d k (Gzip (svc E) b, None) (Inr n)) \<in> set es) \<or>
     (\<exists>f. EvExt (EvWriteFile f (Gzip (svc E) b, None) None) \<in> set es))"

lemma dump_complete_app [simp]: "dump_complete b fs \<Longrightarrow> dump_complete b (es @ fs)" "dump_complete b fs \<Longrightarrow> dump_complete b (fs @ es)"
  unfolding dump_complete_def by auto

lemma clean_stream: "snd p = None \<Longrightarrow> (fst p, None) = p"
  by (cases p) simp

lemma dump_stream_does:
  "does (dump_stream E x) (\<lambda>s es. snd s = None \<longrightarrow> dump_complete (fst s) es)"
  unfolding dump_stream_def exec_output_def exec_inspect_def
  by (intro does_intros) (auto simp: dump_complete_def clean_stream split: sum.splits if_splits)

lemma exec_start_extends: "extends (exec_start E cid ce)"
  unfolding exec_start_def by (auto intro!: emits_intros)

lemma ExecDatabaseDump_does:
  "does (ExecDatabaseDump E cid engine dbName user password)
     (\<lambda>r es. \<forall>s. r = Inr s \<longrightarrow> snd s = None \<longrightarrow> dump_complete (fst s) es)"
  unfolding ExecDatabaseDump_def
  by (auto intro!: does_intros does_bind_emits [OF exec_start_extends] does_bind [OF dump_stream_does])

text \<open>What the pipeline reports as stored was dumped completely and handed over whole.\<close>

definition reported_whole :: "host \<Rightarrow> int res \<Rightarrow> event list \<Rightarrow> bool" where
  "reported_whole E r es = (\<forall>n. r = Inr n \<longrightarrow> (\<exists>b. dump_complete b es \<and> stored E b es))"

lemma stored_upload: "stored E b (es @ EvExt (EvUploadStream d k (Gzip (svc E) b, None) (Inr n)) # fs)"
  unfolding stored_def by (intro disjI1 exI [of _ d] exI [of _ k] exI [of _ n]) simp

lemma stored_app: "stored E b fs \<Longrightarrow> stored E b (es @ fs)"
  unfolding stored_def by auto

lemma extends_Upload: "extends (dest_Upload E d l r)"
proof (cases d)
  case (DestSamba a b c e p)
  then show ?thesis unfolding dest_Upload_def smbclient_def Let_def by (auto intro!: emits_intros split: option.splits)
qed (simp_all add: dest_Upload_def emits_cloud [THEN emits_extends])

lemma compressed_does: "does (compressed E s) (\<lambda>z es. fst z = Gzip (svc E) (fst s) \<and> (snd z = None \<longrightarrow> snd s = None))"
  unfolding compressed_def by (intro does_intros) auto

lemma stage_does: "does (stageAndUpload E s d k) (\<lambda>r es. isl r \<or> snd s = None \<and> stored E (fst s) es)"
  unfolding stageAndUpload_def
  apply (intro does_intros does_bind [OF compressed_does])
   apply (auto intro!: does_intros does_bind_emits [OF extends_Upload] simp: stored_def)
  done

lemma stream_does:
  assumes "uploader_law E"
  shows "does (do { z \<leftarrow> compressed E s; UploadStream E d z k }) (\<lambda>r es. isl r \<or> snd s = None \<and> stored E (fst s) es)"
proof -
  have law: "z = (fst z, None)" if "DestUploadStream (svc E) h d k z = Inr n" for h d k z n
    using that assms unfolding uploader_law_def by (metis clean_stream isl_def sum.simps(4))
  show ?thesis
    unfolding UploadStream_def Let_def
    by (intro does_intros does_bind [OF compressed_does]) (auto simp: stored_upload dest!: law split: sum.splits)
qed

lemma streamSnapshot_does:
  assumes "uploader_law E"
  shows "does (streamSnapshot E (ExecDatabaseDump E cid engine dbName user password) d k) (reported_whole E)"
proof -
  have whole: "reported_whole E r (es @ fs)"
    if "\<forall>s. x = Inr s \<longrightarrow> snd s = None \<longrightarrow> dump_complete (fst s) es" "x = Inr s" "isl r \<or> snd s = None \<and> stored E (fst s) fs"
    for x s r es fs
    using that unfolding reported_whole_def by (auto intro!: exI [of _ "fst s"] simp: stored_app)
  show ?thesis
    unfolding streamSnapshot_def
  proof (rule does_bind [OF ExecDatabaseDump_does])
    fix x :: "stream res" and es assume x: "\<forall>s. x = Inr s \<longrightarrow> snd s = None \<longrightarrow> dump_complete (fst s) es"
    show "does (case x of Inl e \<Rightarrow> ret (Inl e) | Inr dump \<Rightarrow>
        if \<not> can_stream d then stageAndUpload E dump d k
        else do { z \<leftarrow> compressed E dump; UploadStream E d z k }) (\<lambda>r fs. reported_whole E r (es @ fs))"
    proof (cases x)
      case (Inl e)
      then show ?thesis by (simp add: does_ret reported_whole_def)
    next
      case (Inr s)
      show ?thesis unfolding Inr sum.case
        by (intro does_if does_mono [OF stage_does] does_mono [OF stream_does [OF assms]]) (rule whole [OF x Inr], assumption)+
    qed
  qed
qed

lemma maybeGunzip_Gzip:
  assumes "gzip_law E"
  shows "maybeGunzip E (Gzip (svc E) b, None) = Inr (b, None)"
proof -
  have m: "gzip_magic (Gzip (svc E) b)" using assms by (simp add: gzip_law_def)
  then have "\<not> length (Gzip (svc E) b) < 2" by (auto simp: gzip_magic_def dest: arg_cong [where f = length])
  with m assms show ?thesis by (simp add: maybeGunzip_def gzip_law_def)
qed


text \<open>A host whose compression only puts the magic bytes in front, and a dump of three bytes.\<close>

definition zip_services :: services where
  "zip_services = calm_services\<lparr>Gzip := (\<lambda>b. [CHR 0x1F, CHR 0x8B] @ b), Gunzip := (\<lambda>b. Inr (drop 2 b, None)),
     ExecOutput := (\<lambda>_ _. ((''SQL'', None), []))\<rparr>"

definition zip_host :: host where
  "zip_host = calm_host\<lparr>svc := zip_services\<rparr>"

lemma zip_laws: "uploader_law zip_host" "gzip_law zip_host"
  by (auto simp: uploader_law_def gzip_law_def zip_host_def zip_services_def calm_services_def gzip_magic_def)

lemma zip_snapshot:
  "result (streamSnapshot zip_host (ExecDatabaseDump zip_host ''c'' ''postgres'' ''app'' ''u'' ''p'') (DestS3 ''b'' []) ''k'') [] = Inr 5"
  by (simp add: streamSnapshot_def ExecDatabaseDump_def dump_command_def exec_start_def dump_stream_def exec_output_def
      exec_inspect_def compressed_def UploadStream_def can_stream_def zip_host_def zip_services_def calm_services_def
      run_simps Let_def)


section \<open>A restore that succeeds was given its whole input\<close>

definition restored_whole :: "stream \<Rightarrow> goerr option \<Rightarrow> event list \<Rightarrow> bool" where
  "restored_whole input r es = (r = None \<longrightarrow> snd input = None \<and>
     (\<exists>x n. EvExt (EvExecInput x input (n, None)) \<in> set es \<and> EvExt (EvExecInspect x (Inr 0)) \<in> set es))"

lemma restore_does:
  "does (ExecDatabaseRestore E cid engine dbName user password input) (restored_whole input)"
proof -
  have c: "copy_error input cp = None \<Longrightarrow> snd input = None \<and> (\<exists>n. cp = (n, None))" for cp
    by (cases cp) (auto simp: copy_error_def split: option.splits)
  show ?thesis
    unfolding ExecDatabaseRestore_def exec_output_def exec_inspect_def
    by (intro does_intros does_bind_emits [OF exec_start_extends])
      (auto simp: restored_whole_def dest!: c split: sum.splits option.splits if_splits, blast)
qed

text \<open>
  A restore that reports success was given its whole input. When it returns no error, the
  input stream ended cleanly, all of it was copied into the restore process, and that
  process exited with code 0.
\<close>

theorem restore_complete:
  "restored_whole input (result (ExecDatabaseRestore E cid engine dbName user password input) h)
     (events (ExecDatabaseRestore E cid engine dbName user password input) h)"
  by (rule does_events [OF restore_does])

end
