(* ===== verification/Scheduler.thy ===== *)
theory Scheduler
  imports Transitions
begin

text \<open>
  The snapshot scheduler (scheduler/scheduler.go): the cron matcher with its three layers
  \<open>termMatches\<close>, \<open>fieldMatches\<close> and \<open>cronMatches\<close>, the table of jobs, the minute check
  that fires them and the set of instances whose snapshot is still running. The matcher is
  compared with the meaning of an abstract syntax of cron expressions; the scheduler as a
  whole is a step relation in which updates, removals, minute checks and the ends of
  snapshots interleave.
\<close>

section \<open>Matching cron expressions\<close>

text \<open>The part of a local time that the matcher reads.\<close>

record civil =
  Minute :: int
  Hour :: int
  Day :: int
  Month :: int
  Weekday :: int

definition cron_step :: "string \<Rightarrow> (int \<times> string) res" where
  "cron_step term = (case Index term ''/'' of
     None \<Rightarrow> Inr (0, term)
   | Some i \<Rightarrow> (case Atoi (drop (i + 1) term) of
       None \<Rightarrow> Inl (Fmt ''invalid step %q'' [FS (drop (i + 1) term)])
     | Some s \<Rightarrow> if s \<le> 0 then Inl (Fmt ''invalid step %q'' [FS (drop (i + 1) term)])
                 else Inr (s, take i term)))"

text \<open>The range of values of a term; \<open>Inl\<close> inside the result is the exact number.\<close>

definition range_of :: "string \<Rightarrow> int \<Rightarrow> int \<Rightarrow> int \<Rightarrow> (int + int \<times> int) res" where
  "range_of rangeExpr step mn mx =
     (if rangeExpr = ''*'' then Inr (Inr (mn, mx))
      else case Index rangeExpr ''-'' of
        Some i \<Rightarrow> (case Atoi (take i rangeExpr) of
            None \<Rightarrow> Inl (Fmt ''invalid range start %q'' [FS (take i rangeExpr)])
          | Some lo \<Rightarrow> (case Atoi (drop (i + 1) rangeExpr) of
              None \<Rightarrow> Inl (Fmt ''invalid range end %q'' [FS (drop (i + 1) rangeExpr)])
            | Some hi \<Rightarrow> if lo > hi then Inl (Fmt ''invalid range: %d > %d'' [FD lo, FD hi])
                         else Inr (Inr (lo, hi))))
      | None \<Rightarrow> (case Atoi rangeExpr of
            None \<Rightarrow> Inl (Fmt ''invalid value %q'' [FS rangeExpr])
          | Some n \<Rightarrow> if step > 0 then Inr (Inr (n, mx)) else Inr (Inl n)))"

definition termMatches :: "string \<Rightarrow> int \<Rightarrow> int \<Rightarrow> int \<Rightarrow> bool res" where
  "termMatches term value mn mx = (case cron_step term of
     Inl e \<Rightarrow> Inl e
   | Inr (step, rangeExpr) \<Rightarrow> (case range_of rangeExpr step mn mx of
       Inl e \<Rightarrow> Inl e
     | Inr (Inl n) \<Rightarrow> Inr (value = n)
     | Inr (Inr (lo, hi)) \<Rightarrow>
         if step = 0 then Inr (value \<ge> lo \<and> value \<le> hi)
         else if value < lo \<or> value > hi then Inr False
         else Inr ((value - lo) mod step = 0)))"

text \<open>The first term that matches, or fails to parse, decides the field.\<close>

fun any_term :: "string list \<Rightarrow> int \<Rightarrow> int \<Rightarrow> int \<Rightarrow> bool res" where
  "any_term [] value mn mx = Inr False"
| "any_term (p # ps) value mn mx = (case termMatches (TrimSpace p) value mn mx of
     Inl e \<Rightarrow> Inl e
   | Inr True \<Rightarrow> Inr True
   | Inr False \<Rightarrow> any_term ps value mn mx)"

definition fieldMatches :: "string \<Rightarrow> int \<Rightarrow> int \<Rightarrow> int \<Rightarrow> bool res" where
  "fieldMatches field value mn mx = any_term (Split field (CHR '','')) value mn mx"

fun all_checks :: "(string \<times> int \<times> int \<times> int) list \<Rightarrow> bool" where
  "all_checks [] = True"
| "all_checks ((field, value, mn, mx) # cs) = (case fieldMatches field value mn mx of
     Inl e \<Rightarrow> False
   | Inr matched \<Rightarrow> matched \<and> all_checks cs)"

definition cronMatches :: "string \<Rightarrow> civil \<Rightarrow> bool" where
  "cronMatches expr t = (let fs = Fields expr in
     length fs = 5 \<and>
     all_checks [(fs ! 0, Minute t, 0, 59), (fs ! 1, Hour t, 0, 23), (fs ! 2, Day t, 1, 31),
       (fs ! 3, Month t, 1, 12), (fs ! 4, Weekday t, 0, 6)])"

section \<open>The table of jobs and the minute check\<close>

record Job =
  InstanceID :: int
  j_ContainerName :: string
  j_Engine :: string
  j_DatabaseName :: string
  j_Username :: string
  j_Password :: string
  Cron :: string
  RetentionCount :: int
  BackupDest :: "payload option"

record Scheduler =
  jobs :: "(int \<times> Job) list"
  inflight :: "int list"

definition New :: Scheduler where
  "New = \<lparr>jobs = [], inflight = []\<rparr>"

definition UpdateSchedule :: "Job \<Rightarrow> Scheduler \<Rightarrow> Scheduler" where
  "UpdateSchedule job s = s\<lparr>jobs := AList.update (InstanceID job) job (jobs s)\<rparr>"

definition RemoveSchedule :: "int \<Rightarrow> Scheduler \<Rightarrow> Scheduler" where
  "RemoveSchedule i s = s\<lparr>jobs := AList.delete i (jobs s)\<rparr>"

text \<open>
  \<open>checkAndFire\<close>: the jobs that are due, in the order in which the map is visited, and
  those of them whose instance has no snapshot in flight; each of these is marked and its
  callback started. \<open>snapshot_done\<close> is the deferred deletion when the callback returns.
\<close>

fun fire_all :: "Job list \<Rightarrow> Scheduler \<Rightarrow> Scheduler \<times> Job list" where
  "fire_all [] s = (s, [])"
| "fire_all (j # js) s =
     (if InstanceID j \<in> set (inflight s) then fire_all js s
      else let (s', fs) = fire_all js (s\<lparr>inflight := InstanceID j # inflight s\<rparr>) in (s', j # fs))"

definition due :: "nat list \<Rightarrow> civil \<Rightarrow> Scheduler \<Rightarrow> Job list" where
  "due order now s = filter (\<lambda>j. cronMatches (Cron j) now) (map snd (shuffle order (jobs s)))"

definition checkAndFire :: "nat list \<Rightarrow> civil \<Rightarrow> Scheduler \<Rightarrow> Scheduler \<times> Job list" where
  "checkAndFire order now s = fire_all (due order now s) s"

definition snapshot_done :: "int \<Rightarrow> Scheduler \<Rightarrow> Scheduler" where
  "snapshot_done i s = s\<lparr>inflight := filter (\<lambda>k. k \<noteq> i) (inflight s)\<rparr>"

text \<open>\<open>now.Truncate(time.Minute).Add(time.Minute)\<close>, in seconds.\<close>

definition nextMin :: "int \<Rightarrow> int" where
  "nextMin now = now - now mod 60 + 60"

text \<open>
  The scheduler among its goroutines: \<open>woke\<close> is the time at which the loop of \<open>Run\<close> last
  read the clock, \<open>active\<close> the callbacks that have not returned, \<open>fired\<close> the history of
  starts with the time each was decided at. \<open>local\<close> turns a time into the civil time of
  the worker's zone. A check happens at or after the minute the timer was set for, and the
  loop reads the clock again after it.
\<close>

record world =
  sched :: Scheduler
  woke :: int
  active :: "Job list"
  fired :: "(int \<times> Job) list"

inductive run_step :: "(int \<Rightarrow> civil) \<Rightarrow> world \<Rightarrow> world \<Rightarrow> bool" for local where
  update: "run_step local w (w\<lparr>sched := UpdateSchedule j (sched w)\<rparr>)"
| remove: "run_step local w (w\<lparr>sched := RemoveSchedule i (sched w)\<rparr>)"
| check: "nextMin (woke w) \<le> now \<Longrightarrow> now \<le> now' \<Longrightarrow>
    checkAndFire order (local now) (sched w) = (s', fs) \<Longrightarrow>
    run_step local w (w\<lparr>sched := s', woke := now', active := active w @ fs,
      fired := fired w @ map (Pair now) fs\<rparr>)"
| finish: "j \<in> set (active w) \<Longrightarrow>
    run_step local w (w\<lparr>sched := snapshot_done (InstanceID j) (sched w), active := remove1 j (active w)\<rparr>)"

inductive_cases run_stepE: "run_step local w w'"

definition start_world :: "world \<Rightarrow> bool" where
  "start_world w = (sched w = New \<and> active w = [] \<and> fired w = [])"

section \<open>Lemmas on single separators\<close>

lemma Index_single_absent [simp]: "d \<notin> set s \<Longrightarrow> Index s [d] = None"
  by (induction s) (auto simp: HasPrefix_single)

lemma Index_single [simp]: "d \<notin> set u \<Longrightarrow> Index (u @ d # t) [d] = Some (length u)"
  by (induction u) (auto simp: HasPrefix_single)

lemma Split_join:
  "ws \<noteq> [] \<Longrightarrow> \<forall>w\<in>set ws. d \<notin> set w \<Longrightarrow> Split (joinWith [d] ws) d = ws"
proof (induction "[d]" ws rule: joinWith.induct)
  case (3 x y zs)
  then show ?case by (simp add: Split_at)
qed (simp_all add: Split_no)

lemma fields_word:
  "list_all (\<lambda>c. \<not> is_space c) w \<Longrightarrow> fields_aux (w @ cs) acc = fields_aux cs (acc @ w)"
  by (induction w arbitrary: acc) auto

lemma Fields_join:
  "\<forall>w\<in>set ws. w \<noteq> [] \<and> list_all (\<lambda>c. \<not> is_space c) w \<Longrightarrow> Fields (joinWith '' '' ws) = ws"
  unfolding Fields_def
proof (induction "'' ''" ws rule: joinWith.induct)
  case (2 x)
  with fields_word [of x "[]" "[]"] show ?case by simp
next
  case (3 x y zs)
  with fields_word [of x "'' '' @ joinWith '' '' (y # zs)" "[]"] show ?case by (simp add: is_space_def)
qed simp

lemma TrimSpace_none: "list_all (\<lambda>c. \<not> is_space c) w \<Longrightarrow> TrimSpace w = w"
proof -
  have "dropWhile P xs = xs" if "list_all (\<lambda>c. \<not> P c) xs" for P and xs :: string
    using that by (cases xs) auto
  then show "list_all (\<lambda>c. \<not> is_space c) w \<Longrightarrow> TrimSpace w = w"
    by (simp add: TrimSpace_def list_all_rev)
qed

section \<open>The meaning of a cron expression\<close>

text \<open>
  The five forms of a term the source documents, and "N/S"; the values a term stands for
  within a field, as arithmetic.
\<close>

datatype cterm = Any | AnyStep nat | Exact nat | From nat nat | Span nat nat | SpanStep nat nat nat

fun denotes :: "cterm \<Rightarrow> int \<Rightarrow> int \<Rightarrow> int set" where
  "denotes Any mn mx = {mn..mx}"
| "denotes (AnyStep s) mn mx = {v. \<exists>k. v = mn + int k * int s} \<inter> {..mx}"
| "denotes (Exact n) mn mx = {int n}"
| "denotes (From n s) mn mx = {v. \<exists>k. v = int n + int k * int s} \<inter> {..mx}"
| "denotes (Span a b) mn mx = {int a..int b}"
| "denotes (SpanStep a b s) mn mx = {v. \<exists>k. v = int a + int k * int s} \<inter> {..int b}"

fun print_term :: "cterm \<Rightarrow> string" where
  "print_term Any = ''*''"
| "print_term (AnyStep s) = ''*/'' @ nat_digits s"
| "print_term (Exact n) = nat_digits n"
| "print_term (From n s) = nat_digits n @ ''/'' @ nat_digits s"
| "print_term (Span a b) = nat_digits a @ ''-'' @ nat_digits b"
| "print_term (SpanStep a b s) = nat_digits a @ ''-'' @ nat_digits b @ ''/'' @ nat_digits s"

fun term_ok :: "cterm \<Rightarrow> bool" where
  "term_ok Any = True"
| "term_ok (AnyStep s) = (0 < s \<and> s < 2 ^ 63)"
| "term_ok (Exact n) = (n < 2 ^ 63)"
| "term_ok (From n s) = (n < 2 ^ 63 \<and> 0 < s \<and> s < 2 ^ 63)"
| "term_ok (Span a b) = (a \<le> b \<and> b < 2 ^ 63)"
| "term_ok (SpanStep a b s) = (a \<le> b \<and> b < 2 ^ 63 \<and> 0 < s \<and> s < 2 ^ 63)"

definition print_field :: "cterm list \<Rightarrow> string" where
  "print_field ts = joinWith '','' (map print_term ts)"

definition print_cron :: "cterm list list \<Rightarrow> string" where
  "print_cron fs = joinWith '' '' (map print_field fs)"

definition field_ok :: "cterm list \<Rightarrow> bool" where
  "field_ok ts = (ts \<noteq> [] \<and> list_all term_ok ts)"

definition field_values :: "cterm list \<Rightarrow> int \<Rightarrow> int \<Rightarrow> int set" where
  "field_values ts mn mx = (\<Union>t\<in>set ts. denotes t mn mx)"

lemma Atoi_digits: "n < 2 ^ 63 \<Longrightarrow> Atoi (nat_digits n) = Some (int n)"
  using Atoi_Itoa [of "int n"] by (simp add: Itoa_def int64_range_def)

lemma digit_chars: "c \<in> set (nat_digits n) \<Longrightarrow> is_digit c"
  using nat_digits_props [of n] by (auto simp: list_all_iff)

lemma not_in_digits [simp]:
  "CHR ''/'' \<notin> set (nat_digits n)" "CHR ''-'' \<notin> set (nat_digits n)" "CHR '','' \<notin> set (nat_digits n)"
  "CHR ''*'' \<notin> set (nat_digits n)" "CHR '' '' \<notin> set (nat_digits n)"
  by (auto dest!: digit_chars simp: is_digit_def less_eq_char_def)

lemma digits_not_star [simp]: "nat_digits n \<noteq> ''*''" "nat_digits n @ CHR ''-'' # xs \<noteq> ''*''"
  using not_in_digits(4) [of n] nat_digits_props [of n] by (force simp: append_eq_Cons_conv)+

lemma digits_not_space: "c \<in> set (nat_digits n) \<Longrightarrow> \<not> is_space c"
  by (auto dest!: digit_chars simp: is_digit_def is_space_def less_eq_char_def)

lemma arithmetic_progression:
  assumes "0 < s"
  shows "(v \<ge> a \<and> (v - a) mod int s = 0) \<longleftrightarrow> (\<exists>k. v = a + int k * int s)"
proof
  assume v: "v \<ge> a \<and> (v - a) mod int s = 0"
  then have "v - a = (v - a) div int s * int s" by (metis add.right_neutral div_mult_mod_eq)
  moreover have "0 \<le> (v - a) div int s" using v assms by (simp add: pos_imp_zdiv_nonneg_iff)
  ultimately show "\<exists>k. v = a + int k * int s" by (intro exI [of _ "nat ((v - a) div int s)"]) simp
qed auto

lemma stepped:
  assumes "0 < s"
  shows "(if v < a \<or> b < v then Inr False else Inr ((v - a) mod int s = 0)) =
    Inr (v \<in> {v. \<exists>k. v = a + int k * int s} \<inter> {..b})"
  unfolding Int_iff mem_Collect_eq arithmetic_progression [OF assms, symmetric] by auto

lemma step_of_slash: "CHR ''/'' \<notin> set u \<Longrightarrow> 0 < s \<Longrightarrow> s < 2 ^ 63 \<Longrightarrow>
    cron_step (u @ CHR ''/'' # nat_digits s) = Inr (int s, u)"
  by (simp add: cron_step_def Atoi_digits)

lemma step_of_plain: "CHR ''/'' \<notin> set u \<Longrightarrow> cron_step u = Inr (0, u)"
  by (simp add: cron_step_def)

lemma range_of_span: "a \<le> b \<Longrightarrow> b < 2 ^ 63 \<Longrightarrow>
    range_of (nat_digits a @ CHR ''-'' # nat_digits b) s mn mx = Inr (Inr (int a, int b))"
  by (simp add: range_of_def Atoi_digits)

lemma range_of_number: "n < 2 ^ 63 \<Longrightarrow>
    range_of (nat_digits n) s mn mx = (if s > 0 then Inr (Inr (int n, mx)) else Inr (Inl (int n)))"
  by (simp add: range_of_def Atoi_digits)

lemma termMatches_print:
  assumes "term_ok t"
  shows "termMatches (print_term t) v mn mx = Inr (v \<in> denotes t mn mx)"
proof (cases t)
  case (AnyStep s)
  with assms step_of_slash [of "''*''" s] show ?thesis
    by (simp add: termMatches_def range_of_def stepped [unfolded Int_iff mem_Collect_eq])
next
  case (From n s)
  with assms step_of_slash [of "nat_digits n" s] show ?thesis
    by (simp add: termMatches_def range_of_number stepped [unfolded Int_iff mem_Collect_eq])
next
  case (SpanStep a b s)
  with assms step_of_slash [of "nat_digits a @ CHR ''-'' # nat_digits b" s] show ?thesis
    by (simp add: termMatches_def range_of_span stepped [unfolded Int_iff mem_Collect_eq])
qed (use assms in \<open>auto simp: termMatches_def step_of_plain range_of_span range_of_number\<close>,
     auto simp: range_of_def)

lemma print_term_chars: "c \<in> set (print_term t) \<Longrightarrow> \<not> is_space c \<and> c \<noteq> CHR '',''"
  by (cases t) (auto simp: digits_not_space, auto simp: is_space_def)

lemma print_term_nonempty: "print_term t \<noteq> []"
  by (cases t) (use nat_digits_props in auto)

lemma any_term_print:
  "list_all term_ok ts \<Longrightarrow> any_term (map print_term ts) v mn mx = Inr (v \<in> field_values ts mn mx)"
proof (induction ts)
  case (Cons t ts)
  moreover have "TrimSpace (print_term t) = print_term t"
    by (rule TrimSpace_none) (auto simp: list_all_iff dest: print_term_chars)
  ultimately show ?case by (auto simp: termMatches_print field_values_def split: bool.splits)
qed (simp add: field_values_def)

lemma fieldMatches_print:
  assumes "field_ok ts"
  shows "fieldMatches (print_field ts) v mn mx = Inr (v \<in> field_values ts mn mx)"
proof -
  have "Split (print_field ts) (CHR '','') = map print_term ts"
    unfolding print_field_def by (rule Split_join) (use assms print_term_chars in \<open>auto simp: field_ok_def\<close>)
  with assms show ?thesis by (simp add: fieldMatches_def any_term_print field_ok_def)
qed

lemma set_joinWith: "set (joinWith sep ws) \<subseteq> set sep \<union> (\<Union>w\<in>set ws. set w)"
  by (induction sep ws rule: joinWith.induct) auto

lemma print_field_word: "field_ok ts \<Longrightarrow> print_field ts \<noteq> [] \<and> list_all (\<lambda>c. \<not> is_space c) (print_field ts)"
proof (rule conjI)
  assume "field_ok ts"
  then obtain t us where "ts = t # us" by (cases ts) (auto simp: field_ok_def)
  then show "print_field ts \<noteq> []"
    using print_term_nonempty [of t] by (cases us) (auto simp: print_field_def)
  have "c \<in> set (print_field ts) \<Longrightarrow> c = CHR '','' \<or> (\<exists>t. c \<in> set (print_term t))" for c
    using set_joinWith [of "'',''" "map print_term ts"] by (auto simp: print_field_def)
  then show "list_all (\<lambda>c. \<not> is_space c) (print_field ts)"
    using print_term_chars by (auto simp: list_all_iff) (auto simp: is_space_def)
qed

text \<open>
  C20: The cron matcher accepts exactly the times a cron expression stands for. For every
  expression of five fields, each a list of well-formed terms ("*", "*/S", "N", "N/S",
  "A-B", "A-B/S" with numbers of 63 bits), printed the way the source documents, it matches
  a time exactly when each of the five parts of the time is one of the values of its field.
\<close>

theorem cron_matches_meaning:
  assumes "list_all field_ok [f0, f1, f2, f3, f4]"
  shows "cronMatches (print_cron [f0, f1, f2, f3, f4]) t \<longleftrightarrow>
    Minute t \<in> field_values f0 0 59 \<and> Hour t \<in> field_values f1 0 23 \<and>
    Day t \<in> field_values f2 1 31 \<and> Month t \<in> field_values f3 1 12 \<and>
    Weekday t \<in> field_values f4 0 6"
proof -
  have "Fields (print_cron [f0, f1, f2, f3, f4]) = map print_field [f0, f1, f2, f3, f4]"
    unfolding print_cron_def by (rule Fields_join) (use assms print_field_word in auto)
  with assms show ?thesis by (simp add: cronMatches_def Let_def fieldMatches_print)
qed

text \<open>Every quarter of an hour between nine and five on weekdays, at 14:30 on a Monday.\<close>

theorem cron_matches_meaning_witness:
  "print_cron [[AnyStep 15], [Span 9 17], [Any], [Any], [Span 1 5]] = ''*/15 9-17 * * 1-5'' \<and>
   cronMatches ''*/15 9-17 * * 1-5'' \<lparr>Minute = 30, Hour = 14, Day = 16, Month = 6, Weekday = 1\<rparr>"
proof -
  let ?fs = "[[AnyStep 15], [Span 9 17], [Any], [Any], [Span 1 5]]"
  have p: "print_cron ?fs = ''*/15 9-17 * * 1-5''"
    by code_simp
  have "\<exists>k. 30 = int k * 15" by (rule exI [of _ 2]) simp
  then have "cronMatches (print_cron ?fs) \<lparr>Minute = 30, Hour = 14, Day = 16, Month = 6, Weekday = 1\<rparr>"
    by (subst cron_matches_meaning) (simp_all add: field_ok_def field_values_def)
  with p show ?thesis by simp
qed

section \<open>The scheduler among its goroutines\<close>

abbreviation ids :: "Job list \<Rightarrow> int list" where
  "ids js \<equiv> map InstanceID js"

definition keyed :: "Scheduler \<Rightarrow> bool" where
  "keyed s = (distinct (map fst (jobs s)) \<and> (\<forall>(k, j)\<in>set (jobs s). InstanceID j = k))"

lemma keyed_New [simp]: "keyed New"
  by (simp add: keyed_def New_def)

lemma keyed_Update [simp]: "keyed s \<Longrightarrow> keyed (UpdateSchedule j s)"
  unfolding keyed_def UpdateSchedule_def
  using set_alist_update [of "InstanceID j" j "jobs s"] by (auto simp: distinct_update)

lemma keyed_Remove [simp]: "keyed s \<Longrightarrow> keyed (RemoveSchedule i s)"
  by (auto simp: keyed_def RemoveSchedule_def distinct_map_filter AList.delete_eq)

lemma fire_all_facts:
  "fire_all js s = (s', fs) \<Longrightarrow>
   jobs s' = jobs s \<and> set fs \<subseteq> set js \<and> distinct (ids fs) \<and>
   set (inflight s') = set (inflight s) \<union> set (ids fs) \<and> set (ids fs) \<inter> set (inflight s) = {} \<and>
   (distinct (ids js) \<longrightarrow> fs = filter (\<lambda>j. InstanceID j \<notin> set (inflight s)) js)"
proof (induction js arbitrary: s s' fs)
  case (Cons j js)
  show ?case
  proof (cases "InstanceID j \<in> set (inflight s)")
    case True
    with Cons.IH [of s s' fs] Cons.prems show ?thesis by auto
  next
    case False
    let ?s = "s\<lparr>inflight := InstanceID j # inflight s\<rparr>"
    obtain gs where gs: "fire_all js ?s = (s', gs)" "fs = j # gs"
      using Cons.prems False by (auto split: prod.splits)
    have "filter (\<lambda>i. InstanceID i \<noteq> InstanceID j \<and> InstanceID i \<notin> set (inflight s)) js =
        filter (\<lambda>i. InstanceID i \<notin> set (inflight s)) js" if "InstanceID j \<notin> set (ids js)"
      using that by (intro filter_cong) (auto simp: image_iff)
    with Cons.IH [OF gs(1)] gs(2) False show ?thesis by auto
  qed
qed simp

lemma due_facts:
  "keyed s \<Longrightarrow> distinct (ids (due order now s)) \<and>
   mset (due order now s) = filter_mset (\<lambda>j. cronMatches (Cron j) now) (mset (map snd (jobs s)))"
proof
  assume k: "keyed s"
  have "ids (map snd (shuffle order (jobs s))) = map fst (shuffle order (jobs s))"
    using k by (auto simp: keyed_def)
  moreover have "mset (map fst (shuffle order (jobs s))) = mset (map fst (jobs s))"
    by simp
  ultimately have "distinct (ids (map snd (shuffle order (jobs s))))"
    using k by (metis keyed_def mset_eq_imp_distinct_iff)
  then show "distinct (ids (due order now s))"
    unfolding due_def by (rule distinct_map_filter)
qed (simp add: due_def)

lemma due_matches: "j \<in> set (due order now s) \<Longrightarrow> cronMatches (Cron j) now"
  by (simp add: due_def)

lemma check_facts:
  assumes "checkAndFire order now s = (s', fs)"
  shows "jobs s' = jobs s" "distinct (ids fs)" "set (inflight s') = set (inflight s) \<union> set (ids fs)"
    "set (ids fs) \<inter> set (inflight s) = {}" "\<And>j. j \<in> set fs \<Longrightarrow> cronMatches (Cron j) now"
    "keyed s \<Longrightarrow> fs = filter (\<lambda>j. InstanceID j \<notin> set (inflight s)) (due order now s)"
  using fire_all_facts [OF assms [unfolded checkAndFire_def]] due_matches due_facts by (blast+)

lemma nextMin_facts: "now < nextMin now" "nextMin now \<le> now + 60" "nextMin now mod 60 = 0"
  using pos_mod_bound [of 60 now] pos_mod_sign [of 60 now] by (auto simp: nextMin_def mod_simps)

lemma nextMin_minute: "nextMin now \<le> later \<Longrightarrow> now div 60 < later div 60"
  unfolding nextMin_def by presburger

text \<open>The minute and the instance of a start.\<close>

definition slot :: "int \<times> Job \<Rightarrow> int \<times> int" where
  "slot f = (fst f div 60, InstanceID (snd f))"

definition sched_inv :: "(int \<Rightarrow> civil) \<Rightarrow> world \<Rightarrow> bool" where
  "sched_inv local w =
     (keyed (sched w) \<and> distinct (ids (active w)) \<and>
      set (inflight (sched w)) = set (ids (active w)) \<and>
      distinct (map slot (fired w)) \<and>
      (\<forall>(t, j)\<in>set (fired w). t \<le> woke w \<and> cronMatches (Cron j) (local t)))"

lemma sched_inv_check:
  assumes "sched_inv local w" "nextMin (woke w) \<le> now" "now \<le> now'"
    "checkAndFire order (local now) (sched w) = (s', fs)"
  shows "sched_inv local (w\<lparr>sched := s', woke := now', active := active w @ fs,
      fired := fired w @ map (Pair now) fs\<rparr>)"
proof -
  note f = check_facts [OF assms(4)]
  have old: "t div 60 < now div 60" if "(t, j) \<in> set (fired w)" for t j
  proof -
    have "t \<le> woke w" using that assms(1) by (auto simp: sched_inv_def)
    then have "t div 60 \<le> woke w div 60" by (rule zdiv_mono1) simp
    also have "\<dots> < now div 60" using assms(2) by (rule nextMin_minute)
    finally show ?thesis .
  qed
  have new: "distinct (map slot (map (Pair now) fs))"
    using f(2) by (auto simp: slot_def distinct_map inj_on_def)
  have "distinct (map slot (fired w @ map (Pair now) fs))"
    using assms(1) new old by (fastforce simp: sched_inv_def slot_def)
  moreover have "t \<le> now'" if "t \<le> woke w" for t
    using that assms(2,3) nextMin_facts(1) [of "woke w"] by simp
  moreover have "keyed s'" using assms(1) f(1) by (simp add: sched_inv_def keyed_def)
  moreover have "distinct (ids (active w @ fs))" using assms(1) f(2,4) by (auto simp: sched_inv_def)
  ultimately show ?thesis using assms(1,3) f(3,5) unfolding sched_inv_def by fastforce
qed

lemma sched_inv_finish:
  assumes "sched_inv local w" "j \<in> set (active w)"
  shows "sched_inv local (w\<lparr>sched := snapshot_done (InstanceID j) (sched w), active := remove1 j (active w)\<rparr>)"
proof -
  have d: "distinct (ids (active w))" using assms(1) by (simp add: sched_inv_def)
  have "ids (remove1 j js) = remove1 (InstanceID j) (ids js)" if "distinct (ids js)" "j \<in> set js" for js
    using that by (induction js) (auto simp: image_iff)
  from this [OF d assms(2)] have "ids (remove1 j (active w)) = remove1 (InstanceID j) (ids (active w))" .
  then show ?thesis
    using assms d by (auto simp: sched_inv_def snapshot_done_def keyed_def distinct_remove1)
qed

interpretation schedule: guarded_system start_world "run_step local" "sched_inv local"
proof
  show "start_world w \<Longrightarrow> sched_inv local w" for w
    by (simp add: start_world_def sched_inv_def) (simp add: New_def)
  show "sched_inv local w'" if "sched_inv local w" "run_step local w w'" for w w'
    using that(2)
  proof cases
    case (update j)
    with that(1) show ?thesis by (auto simp: sched_inv_def) (auto simp: UpdateSchedule_def)
  next
    case (remove i)
    with that(1) show ?thesis by (auto simp: sched_inv_def) (auto simp: RemoveSchedule_def)
  qed (use that(1) sched_inv_check sched_inv_finish in auto)
qed

text \<open>
  A scheduler with one job that runs every minute: the check at 00:01 starts it, the check
  at 00:02 finds it still running.
\<close>

definition demo_job :: Job where
  "demo_job = \<lparr>InstanceID = 7, j_ContainerName = ''lattice-db-7'', j_Engine = ''postgres'', j_DatabaseName = ''app'',
     j_Username = ''app'', j_Password = ''secret'', Cron = ''* * * * *'', RetentionCount = 3, BackupDest = None\<rparr>"

definition demo_local :: "int \<Rightarrow> civil" where
  "demo_local t = \<lparr>Minute = t div 60 mod 60, Hour = t div 3600 mod 24, Day = 1, Month = 1, Weekday = 4\<rparr>"

definition demo_world :: "nat \<Rightarrow> world" where
  "demo_world n = \<lparr>sched = \<lparr>jobs = (if n = 0 then [] else [(7, demo_job)]), inflight = (if n < 2 then [] else [7])\<rparr>,
     woke = (if n < 2 then 0 else 61), active = (if n < 2 then [] else [demo_job]),
     fired = (if n < 2 then [] else [(60, demo_job)])\<rparr>"

lemma demo_fires: "checkAndFire [] (demo_local 60) (sched (demo_world 1)) = (sched (demo_world 2), [demo_job])"
  by code_simp

lemma demo_run: "start_world (demo_world 0)" "(run_step demo_local)\<^sup>*\<^sup>* (demo_world 0) (demo_world 2)"
proof -
  show "start_world (demo_world 0)" by (simp add: start_world_def demo_world_def New_def)
  have "demo_world 1 = (demo_world 0)\<lparr>sched := UpdateSchedule demo_job (sched (demo_world 0))\<rparr>"
    by (simp add: demo_world_def UpdateSchedule_def demo_job_def)
  then have "run_step demo_local (demo_world 0) (demo_world 1)" by (metis run_step.update)
  moreover have "demo_world 2 = (demo_world 1)\<lparr>sched := sched (demo_world 2), woke := 61,
      active := active (demo_world 1) @ [demo_job], fired := fired (demo_world 1) @ map (Pair 60) [demo_job]\<rparr>"
    by (simp add: demo_world_def)
  moreover have "run_step demo_local (demo_world 1) ((demo_world 1)\<lparr>sched := sched (demo_world 2), woke := 61,
      active := active (demo_world 1) @ [demo_job], fired := fired (demo_world 1) @ map (Pair 60) [demo_job]\<rparr>)"
    by (rule run_step.check [where local = demo_local and now = 60 and order = "[]", OF _ _ demo_fires]) (simp_all add: demo_world_def nextMin_def)
  ultimately show "(run_step demo_local)\<^sup>*\<^sup>* (demo_world 0) (demo_world 2)" by simp
qed

text \<open>
  C21: However updates, removals, minute checks and ends of snapshots interleave, no two
  snapshots of the same instance are ever running at once, an instance is marked as in
  flight exactly while its snapshot runs, every snapshot was started at a time its cron
  expression matches, and no instance is started twice in the same minute.
\<close>

theorem scheduler_invariant:
  assumes "start_world w0" and "(run_step local)\<^sup>*\<^sup>* w0 w"
  shows "distinct (ids (active w)) \<and> set (inflight (sched w)) = set (ids (active w)) \<and>
    (\<forall>(t, j)\<in>set (fired w). cronMatches (Cron j) (local t)) \<and> distinct (map slot (fired w))"
  using schedule.reachable_inv [OF assms] by (auto simp: sched_inv_def)

theorem scheduler_invariant_witness:
  "ids (active (demo_world 2)) = [7] \<and> inflight (sched (demo_world 2)) = [7] \<and>
   cronMatches (Cron demo_job) (demo_local 60)"
  using scheduler_invariant [OF demo_run] by (auto simp: demo_world_def demo_job_def)

text \<open>
  In every reachable state a minute check starts exactly the jobs that are due and whose
  instance has no snapshot in flight, each of them once, whatever the order in which the
  map is visited; the table of jobs stays as it is.
\<close>

theorem check_fires_exactly:
  assumes "start_world w0" and "(run_step local)\<^sup>*\<^sup>* w0 w"
    and "checkAndFire order now (sched w) = (s', fs)"
  shows "mset fs = {#j \<in># mset (map snd (jobs (sched w))). cronMatches (Cron j) now \<and>
      InstanceID j \<notin> set (inflight (sched w))#} \<and> jobs s' = jobs (sched w)"
proof -
  have k: "keyed (sched w)" using schedule.reachable_inv [OF assms(1,2)] by (simp add: sched_inv_def)
  note f = check_facts [OF assms(3)]
  have "mset fs = filter_mset (\<lambda>j. InstanceID j \<notin> set (inflight (sched w))) (mset (due order now (sched w)))"
    using f(6) [OF k] by simp
  with due_facts [OF k, of order now] f(1) show ?thesis
    by (simp add: filter_filter_mset conj_commute)
qed

theorem check_fires_exactly_witness:
  "cronMatches (Cron demo_job) (demo_local 120) \<and> snd (checkAndFire [] (demo_local 120) (sched (demo_world 2))) = []"
proof
  show "cronMatches (Cron demo_job) (demo_local 120)" by code_simp
  obtain s' fs where c: "checkAndFire [] (demo_local 120) (sched (demo_world 2)) = (s', fs)" by fastforce
  have "mset fs = {#}"
    using check_fires_exactly [OF demo_run c] by (simp add: demo_world_def demo_job_def)
  with c show "snd (checkAndFire [] (demo_local 120) (sched (demo_world 2))) = []" by simp
qed

end
