(* ===== verification/Db_Commands.thy ===== *)
theory Db_Commands
  imports Database Snapshot Scheduler Container_Commands
begin

text \<open>
  The handlers of main.go for managed databases: db_create, db_start, db_stop, db_restart,
  db_remove, db_snapshot, db_restore, db_update_schedule, backup_dest_test,
  db_mirror_snapshot, db_delete_snapshot_file, and the scheduled snapshot. The serialisation
  of creates and removes appears as its events; its own model is in \<open>Db_Inflight\<close>.
\<close>

section \<open>Creating, starting, stopping and restarting\<close>

definition db_status :: "cmdctx \<Rightarrow> Envelope \<Rightarrow> string \<Rightarrow> string \<Rightarrow> payload \<Rightarrow> unit prog" where
  "db_status ctx env name action fs =
     sendDbReply ctx env ''db_status'' ([(''container_name'', JStr name), (''action'', JStr action)] @ fs)"

definition db_failed :: "cmdctx \<Rightarrow> Envelope \<Rightarrow> string \<Rightarrow> string \<Rightarrow> json \<Rightarrow> unit prog" where
  "db_failed ctx env name action m = db_status ctx env name action [(''status'', JStr ''failed''), (''message'', m)]"

definition named_database :: "cmdctx \<Rightarrow> Envelope \<Rightarrow> string \<Rightarrow> (string \<Rightarrow> unit prog) \<Rightarrow> unit prog" where
  "named_database ctx env action body =
     (let name = pstr (e_Payload env) ''container_name'' in
      if name = [] \<or> \<not> validContainerName name
      then sendDbReply ctx env ''db_status'' [(''action'', JStr action), (''status'', JStr ''error''),
             (''message'', JStr ''invalid or missing container_name'')]
      else body name)"

definition create_spec :: "Envelope \<Rightarrow> string \<Rightarrow> DatabaseSpec" where
  "create_spec env name = (let p = e_Payload env; v = pstr p ''volume_name'' in
     \<lparr>db_InstanceID = payloadInt p ''database_instance_id'', db_ContainerName = name,
      db_VolumeName = (if v = [] then name @ ''-data'' else v), db_Engine = pstr p ''engine'',
      db_EngineVersion = pstr p ''engine_version'', db_Port = go_trunc (pnum p ''port''),
      db_RootPassword = pstr p ''root_password'', db_DatabaseName = pstr p ''database_name'',
      db_Username = pstr p ''username'', db_Password = pstr p ''password'', db_CPULimit = pnum p ''cpu_limit'',
      db_MemoryLimit = normaliseMemoryLimit (go_trunc (pnum p ''memory_limit'')),
      db_AdoptVolume = pbool p ''adopt_existing_volume'',
      db_BinlogRetentionSeconds = go_trunc (pnum p ''binlog_retention_seconds'')\<rparr>)"

definition probe_port :: "host \<Rightarrow> int \<Rightarrow> goerr option prog" where
  "probe_port E port = (if port > 0 then request (\<lambda>h. ProbePort (svc E) h port) (\<lambda>r. EvExt (EvProbePort port r)) else ret None)"

text \<open>
  The result of a create as the handler reports it: a remove that cancelled the create while
  the runner itself goes on turns even a success into a failure.
\<close>

definition create_result :: "string \<Rightarrow> goerr option \<Rightarrow> goerr option \<Rightarrow> string res \<Rightarrow> string res" where
  "create_result name createErr rootErr r =
     (let cancelled = (createErr \<noteq> None \<and> rootErr = None);
          r1 = (case r of Inr cid \<Rightarrow> if cancelled then Inl (Fmt ''create cancelled by a remove of %s'' [FS name]) else Inr cid
                | Inl e \<Rightarrow> Inl e) in
      case r1 of
        Inl e \<Rightarrow> Inl (if cancelled then Fmt ''create cancelled by a remove of %s: %w'' [FS name, FE e] else e)
      | Inr cid \<Rightarrow> Inr cid)"

definition create_database :: "host \<Rightarrow> cmdctx \<Rightarrow> Envelope \<Rightarrow> string \<Rightarrow> unit prog" where
  "create_database E ctx env name = (let spec = create_spec env name in do {
     db_status ctx env name ''db_create'' [(''status'', JStr ''accepted''), (''phase'', JStr ''ack'')];
     p \<leftarrow> probe_port E (db_Port spec);
     (case p of
        Some e \<Rightarrow> do {
          sendLifecycleLog ctx name ''db_create'' (Fmt ''host port %d is not available: %v'' [FD (db_Port spec), FE e]);
          db_failed ctx env name ''db_create'' (JText (Fmt ''host port %d is not available: %v'' [FD (db_Port spec), FE e]))
        }
      | None \<Rightarrow> do {
          sendLifecycleLog ctx name ''db_create''
            (Fmt ''creating %s:%s database container...'' [FS (db_Engine spec), FS (db_EngineVersion spec)]);
          r \<leftarrow> CreateDatabaseContainer E spec;
          c \<leftarrow> observe (CreateCtxErr (svc E));
          g \<leftarrow> observe (CtxErr E);
          (case create_result name c g r of
             Inl e \<Rightarrow> do {
               sendLifecycleLog ctx name ''db_create'' (Fmt ''failed to create: %v'' [FE e]);
               db_failed ctx env name ''db_create'' (JText e)
             }
           | Inr cid \<Rightarrow> do {
               sendLifecycleLog ctx name ''db_create''
                 (Fmt ''database container created and started (id=%s)'' [FS (take 12 cid)]);
               db_status ctx env name ''db_create'' [(''status'', JStr ''success''), (''container_id'', JStr cid)]
             })
        })
   })"

definition handle_db_create :: "host \<Rightarrow> cmdctx \<Rightarrow> Envelope \<Rightarrow> unit prog" where
  "handle_db_create E ctx env = pooled ''db_create'' (named_database ctx env ''db_create'' (\<lambda>name. do {
     emit (EvExt (EvDbCreateBegin name));
     create_database E ctx env name;
     emit (EvExt (EvDbFinish name))
   }))"

text \<open>The lookup that the other commands begin with; an error is not taken for an absent container.\<close>

definition db_lookup ::
  "host \<Rightarrow> cmdctx \<Rightarrow> Envelope \<Rightarrow> string \<Rightarrow> string \<Rightarrow> unit prog \<Rightarrow> (string \<Rightarrow> unit prog) \<Rightarrow> unit prog" where
  "db_lookup E ctx env name action absent body = do {
     sendLifecycleLog ctx name action (Fmt ''looking up database container...'' []);
     r \<leftarrow> FindContainerByName E name;
     (case r of
        Inl e \<Rightarrow> do {
          sendLifecycleLog ctx name action (Fmt ''failed to look up container: %v'' [FE e]);
          db_failed ctx env name action (JText (Fmt ''failed to look up container: %v'' [FE e]))
        }
      | Inr cid \<Rightarrow> if cid = [] then absent else body cid)
   }"

definition db_simple ::
  "host \<Rightarrow> cmdctx \<Rightarrow> Envelope \<Rightarrow> string \<Rightarrow> (string \<Rightarrow> gotext) \<Rightarrow> (string \<Rightarrow> goerr option prog) \<Rightarrow> string \<Rightarrow> unit prog" where
  "db_simple E ctx env action busy req failed =
     pooled action (named_database ctx env action (\<lambda>name.
       db_lookup E ctx env name action
         (do { sendLifecycleLog ctx name action (Fmt ''container not found'' []);
               db_failed ctx env name action (JStr ''container not found'') })
         (\<lambda>cid. do {
           sendLifecycleLog ctx name action (busy cid);
           r \<leftarrow> req cid;
           (case r of
              Some e \<Rightarrow> do {
                sendLifecycleLog ctx name action (Fmt failed [FE e]);
                db_failed ctx env name action (JText e)
              }
            | None \<Rightarrow> db_status ctx env name action [(''status'', JStr ''success'')])
         })))"

definition handle_db_start :: "host \<Rightarrow> cmdctx \<Rightarrow> Envelope \<Rightarrow> unit prog" where
  "handle_db_start E ctx env = db_simple E ctx env ''db_start''
     (\<lambda>cid. Fmt ''starting database container (id=%s)...'' [FS (take 12 cid)]) (StartContainer E) ''failed to start: %v''"

definition handle_db_stop :: "host \<Rightarrow> cmdctx \<Rightarrow> Envelope \<Rightarrow> unit prog" where
  "handle_db_stop E ctx env = db_simple E ctx env ''db_stop''
     (\<lambda>cid. Fmt ''stopping database container (timeout=30s, id=%s)...'' [FS (take 12 cid)])
     (\<lambda>cid. StopContainer E cid 30) ''failed to stop: %v''"

definition handle_db_restart :: "host \<Rightarrow> cmdctx \<Rightarrow> Envelope \<Rightarrow> unit prog" where
  "handle_db_restart E ctx env = db_simple E ctx env ''db_restart''
     (\<lambda>cid. Fmt ''restarting database container (timeout=30s, id=%s)...'' [FS (take 12 cid)])
     (\<lambda>cid. RestartContainer E cid 30) ''failed to restart: %v''"

section \<open>Removing\<close>

definition purge_volume :: "host \<Rightarrow> cmdctx \<Rightarrow> Envelope \<Rightarrow> string \<Rightarrow> bool \<Rightarrow> string \<Rightarrow> unit prog" where
  "purge_volume E ctx env name removeVolume vol =
     (if \<not> removeVolume then do {
        sendLifecycleLog ctx name ''db_remove'' (Fmt ''database container removed (volume preserved)'' []);
        db_status ctx env name ''db_remove'' [(''status'', JStr ''success''), (''volume_removed'', JBool False)]
      }
      else do {
        sendLifecycleLog ctx name ''db_remove'' (Fmt ''removing data volume %s...'' [FS vol]);
        r \<leftarrow> RemoveVolume E vol True;
        (case r of
           Some e \<Rightarrow> do {
             sendLifecycleLog ctx name ''db_remove'' (Fmt ''failed to remove data volume: %v'' [FE e]);
             db_failed ctx env name ''db_remove''
               (JText (Fmt ''container removed but data volume %s could not be deleted: %v'' [FS vol, FE e]))
           }
         | None \<Rightarrow> do {
             sendLifecycleLog ctx name ''db_remove'' (Fmt ''database container and data volume removed'' []);
             db_status ctx env name ''db_remove'' [(''status'', JStr ''success''), (''volume_removed'', JBool True)]
           })
      })"

definition remove_database :: "host \<Rightarrow> cmdctx \<Rightarrow> Envelope \<Rightarrow> string \<Rightarrow> bool \<Rightarrow> string \<Rightarrow> unit prog" where
  "remove_database E ctx env name removeVolume vol =
     db_lookup E ctx env name ''db_remove''
       (do { sendLifecycleLog ctx name ''db_remove'' (Fmt ''container already absent, nothing to remove'' []);
             purge_volume E ctx env name removeVolume vol })
       (\<lambda>cid. do {
          sendLifecycleLog ctx name ''db_remove''
            (Fmt ''stopping database container before removal (timeout=10s, id=%s)...'' [FS (take 12 cid)]);
          s \<leftarrow> StopContainer E cid 10;
          (case s of
             Some e \<Rightarrow> sendLifecycleWarn ctx name ''db_remove'' (Fmt ''stop returned: %v (proceeding with remove)'' [FE e])
           | None \<Rightarrow> sendLifecycleLog ctx name ''db_remove'' (Fmt ''container stopped, removing...'' []));
          r \<leftarrow> RemoveContainer E cid True;
          (case r of
             Some e \<Rightarrow> do {
               sendLifecycleLog ctx name ''db_remove'' (Fmt ''failed to remove: %v'' [FE e]);
               db_failed ctx env name ''db_remove'' (JText e)
             }
           | None \<Rightarrow> purge_volume E ctx env name removeVolume vol)
        })"

definition handle_db_remove :: "host \<Rightarrow> cmdctx \<Rightarrow> Envelope \<Rightarrow> unit prog" where
  "handle_db_remove E ctx env =
     (let removeVolume = pbool (e_Payload env) ''remove_volume''; vol = pstr (e_Payload env) ''volume_name'' in
      pooled ''db_remove'' (named_database ctx env ''db_remove'' (\<lambda>name.
        if removeVolume \<and> (vol = [] \<or> \<not> validContainerName vol)
        then db_failed ctx env name ''db_remove'' (JStr ''volume purge requested but volume_name is missing or invalid'')
        else do {
          c \<leftarrow> request (\<lambda>h. CreateInFlight (svc E) h name) (\<lambda>b. EvExt (EvDbRemoveBegin name b));
          (if c then sendLifecycleLog ctx name ''db_remove''
             (Fmt ''cancelled the in-flight create; removing what it produced'' []) else ret ());
          remove_database E ctx env name removeVolume vol;
          emit (EvExt (EvDbFinish name))
        })))"

section \<open>Snapshots\<close>

text \<open>Replies of db_snapshot and db_restore; the id field is snapshot_id or restore_id.\<close>

definition snap_reply :: "cmdctx \<Rightarrow> Envelope \<Rightarrow> string \<Rightarrow> string \<Rightarrow> string \<Rightarrow> string \<Rightarrow> payload \<Rightarrow> unit prog" where
  "snap_reply ctx env t idField snapID name fs =
     sendDbReply ctx env t ([(idField, JStr snapID), (''container_name'', JStr name)] @ fs)"

definition snap_failed :: "cmdctx \<Rightarrow> Envelope \<Rightarrow> string \<Rightarrow> string \<Rightarrow> string \<Rightarrow> string \<Rightarrow> json \<Rightarrow> unit prog" where
  "snap_failed ctx env t idField snapID name m =
     snap_reply ctx env t idField snapID name [(''status'', JStr ''failed''), (''error_message'', m)]"

text \<open>The checks both begin with, and the status that announces the transfer.\<close>

definition snap_checked ::
  "cmdctx \<Rightarrow> Envelope \<Rightarrow> string \<Rightarrow> string \<Rightarrow> string \<Rightarrow> string \<Rightarrow> (string \<Rightarrow> unit prog) \<Rightarrow> unit prog" where
  "snap_checked ctx env t idField snapID busy body =
     (let p = e_Payload env; name = pstr p ''container_name'' in
      if name = [] \<or> \<not> validContainerName name
      then snap_failed ctx env t idField snapID name (JStr ''invalid or missing container_name'')
      else if pstr p ''engine'' = [] \<or> pstr p ''database_name'' = []
      then snap_failed ctx env t idField snapID name (JStr ''missing required fields (engine, database_name)'')
      else do { snap_reply ctx env t idField snapID name [(''status'', JStr busy)]; body name })"

definition take_snapshot :: "host \<Rightarrow> cmdctx \<Rightarrow> Envelope \<Rightarrow> string \<Rightarrow> string \<Rightarrow> string \<Rightarrow> unit prog" where
  "take_snapshot E ctx env snapID name cid =
     (let p = e_Payload env; failed = snap_failed ctx env ''db_snapshot_status'' ''snapshot_id'' snapID name;
          (destType, destConfig) = backupDestinationFrom p in do {
        d \<leftarrow> NewDestination E destType destConfig;
        (case d of
           Inl e \<Rightarrow> failed (JText (Fmt ''failed to create backup destination: %v'' [FE e]))
         | Inr dst \<Rightarrow> do {
             sendLifecycleLog ctx name ''db_snapshot''
               (Fmt ''streaming %s dump to backup destination...'' [FS (pstr p ''engine'')]);
             r \<leftarrow> streamSnapshot E (ExecDatabaseDump E cid (pstr p ''engine'') (pstr p ''database_name'')
                    (pstr p ''username'') (pstr p ''password'')) dst (payloadString p [''remote_path'', ''filename'']);
             (case r of
                Inl e \<Rightarrow> do {
                  sendLifecycleLog ctx name ''db_snapshot'' (Fmt ''snapshot failed: %v'' [FE e]);
                  failed (JText e)
                }
              | Inr sz \<Rightarrow> do {
                  sendLifecycleLog ctx name ''db_snapshot'' (Fmt ''snapshot completed (size=%d bytes)'' [FD sz]);
                  snap_reply ctx env ''db_snapshot_status'' ''snapshot_id'' snapID name
                    [(''status'', JStr ''completed''), (''size_bytes'', JNum (of_int sz))]
                })
           })
      })"

definition handle_db_snapshot :: "host \<Rightarrow> cmdctx \<Rightarrow> Envelope \<Rightarrow> unit prog" where
  "handle_db_snapshot E ctx env = (let snapID = payloadString (e_Payload env) [''snapshot_id''] in
     pooled ''db_snapshot'' (snap_checked ctx env ''db_snapshot_status'' ''snapshot_id'' snapID ''uploading'' (\<lambda>name.
       db_lookup E ctx env name ''db_snapshot''
         (do { sendLifecycleLog ctx name ''db_snapshot'' (Fmt ''container not found'' []);
               snap_failed ctx env ''db_snapshot_status'' ''snapshot_id'' snapID name (JStr ''container not found'') })
         (take_snapshot E ctx env snapID name))))"

section \<open>Restores\<close>

definition run_restore :: "host \<Rightarrow> cmdctx \<Rightarrow> Envelope \<Rightarrow> string \<Rightarrow> string \<Rightarrow> string \<Rightarrow> string \<Rightarrow> unit prog" where
  "run_restore E ctx env snapID name tmpFile cid =
     (let p = e_Payload env; failed = snap_failed ctx env ''db_restore_status'' ''restore_id'' snapID name in do {
        sendLifecycleLog ctx name ''db_restore'' (Fmt ''restoring %s database...'' [FS (pstr p ''engine'')]);
        f \<leftarrow> request (\<lambda>h. ReadFile (svc E) h tmpFile) (\<lambda>r. EvExt (EvReadFile tmpFile r));
        (case f of
           Inl e \<Rightarrow> failed (JText (Fmt ''failed to open restore file: %v'' [FE e]))
         | Inr b \<Rightarrow> (case maybeGunzip E (b, None) of
             Inl e \<Rightarrow> failed (JText e)
           | Inr input \<Rightarrow> do {
               r \<leftarrow> ExecDatabaseRestore E cid (pstr p ''engine'') (pstr p ''database_name'') (pstr p ''username'')
                      (pstr p ''password'') input;
               (case r of
                  Some e \<Rightarrow> do {
                    sendLifecycleLog ctx name ''db_restore'' (Fmt ''restore failed: %v'' [FE e]);
                    failed (JText (Fmt ''restore failed: %v'' [FE e]))
                  }
                | None \<Rightarrow> do {
                    sendLifecycleLog ctx name ''db_restore'' (Fmt ''database restore completed'' []);
                    snap_reply ctx env ''db_restore_status'' ''restore_id'' snapID name [(''status'', JStr ''completed'')]
                  })
             }))
      })"

definition fetch_and_restore :: "host \<Rightarrow> cmdctx \<Rightarrow> Envelope \<Rightarrow> string \<Rightarrow> string \<Rightarrow> unit prog" where
  "fetch_and_restore E ctx env snapID name =
     (let p = e_Payload env; failed = snap_failed ctx env ''db_restore_status'' ''restore_id'' snapID name;
          (destType, destConfig) = backupDestinationFrom p in do {
        sendLifecycleLog ctx name ''db_restore'' (Fmt ''downloading snapshot from backup destination...'' []);
        d \<leftarrow> NewDestination E destType destConfig;
        (case d of
           Inl e \<Rightarrow> failed (JText (Fmt ''failed to create backup destination: %v'' [FE e]))
         | Inr dst \<Rightarrow> do {
             t \<leftarrow> request (\<lambda>h. MkdirTemp (svc E) h ''lattice-restore-*'') (\<lambda>r. EvExt (EvMkdirTemp ''lattice-restore-*'' r));
             (case t of
                Inl e \<Rightarrow> failed (JText (Fmt ''failed to create temp dir: %v'' [FE e]))
              | Inr dir \<Rightarrow> do {
                  g \<leftarrow> dest_Download E dst (payloadString p [''remote_path'', ''filename'']) (dir @ ''/restore.sql'');
                  (case g of
                     Some e \<Rightarrow> do {
                       sendLifecycleLog ctx name ''db_restore'' (Fmt ''download failed: %v'' [FE e]);
                       failed (JText (Fmt ''download failed: %v'' [FE e]))
                     }
                   | None \<Rightarrow> db_lookup E ctx env name ''db_restore''
                       (do { sendLifecycleLog ctx name ''db_restore'' (Fmt ''container not found'' []);
                             failed (JStr ''container not found'') })
                       (run_restore E ctx env snapID name (dir @ ''/restore.sql'')));
                  emit (EvExt (EvRemoveAll dir))
                })
           })
      })"

definition handle_db_restore :: "host \<Rightarrow> cmdctx \<Rightarrow> Envelope \<Rightarrow> unit prog" where
  "handle_db_restore E ctx env = (let snapID = payloadString (e_Payload env) [''restore_id'', ''snapshot_id''] in
     pooled ''db_restore'' (snap_checked ctx env ''db_restore_status'' ''restore_id'' snapID ''downloading''
       (fetch_and_restore E ctx env snapID)))"

section \<open>Schedules and destinations\<close>

definition schedule_job :: "payload \<Rightarrow> Job" where
  "schedule_job p = \<lparr>InstanceID = go_trunc (pnum p ''instance_id''), j_ContainerName = pstr p ''container_name'',
     j_Engine = pstr p ''engine'', j_DatabaseName = pstr p ''database_name'', j_Username = pstr p ''username'',
     j_Password = pstr p ''password'', Cron = pstr p ''cron'', RetentionCount = go_trunc (pnum p ''retention_count''),
     BackupDest = (case pobj p ''backup_destination'' of Some m \<Rightarrow> Some m | None \<Rightarrow> pobj p ''backup_dest'')\<rparr>"

text \<open>db_update_schedule changes the scheduler's table, so it returns the new one.\<close>

definition handle_db_update_schedule :: "cmdctx \<Rightarrow> Envelope \<Rightarrow> Scheduler \<Rightarrow> unit prog \<times> Scheduler" where
  "handle_db_update_schedule ctx env s =
     (let p = e_Payload env; inst = go_trunc (pnum p ''instance_id'') in
      if \<not> pbool p ''enabled''
      then (pooled ''db_update_schedule'' (sendDbReply ctx env ''db_schedule_status''
              [(''instance_id'', JNum (of_int inst)), (''status'', JStr ''removed'')]),
            RemoveSchedule inst s)
      else (pooled ''db_update_schedule'' (sendDbReply ctx env ''db_schedule_status''
              [(''instance_id'', JNum (of_int inst)), (''status'', JStr ''updated''), (''cron'', JStr (pstr p ''cron''))]),
            UpdateSchedule (schedule_job p) s))"

definition test_reply :: "cmdctx \<Rightarrow> Envelope \<Rightarrow> string \<Rightarrow> json \<Rightarrow> unit prog" where
  "test_reply ctx env st m = wsSendReliable ctx (msg ''backup_dest_test_result''
     [(''command_id'', JStr (e_CommandID env)), (''status'', JStr st), (''message'', m)])"

definition handle_backup_dest_test :: "host \<Rightarrow> cmdctx \<Rightarrow> Envelope \<Rightarrow> unit prog" where
  "handle_backup_dest_test E ctx env = pooled ''backup_dest_test'' (do {
     d \<leftarrow> NewDestination E (pstr (e_Payload env) ''dest_type'') (pobj (e_Payload env) ''dest_config'');
     (case d of
        Inl e \<Rightarrow> test_reply ctx env ''failed'' (JText (Fmt ''failed to create destination: %v'' [FE e]))
      | Inr dst \<Rightarrow> do {
          r \<leftarrow> dest_Test E dst;
          (case r of
             Some e \<Rightarrow> test_reply ctx env ''failed'' (JText (Fmt ''connection test failed: %v'' [FE e]))
           | None \<Rightarrow> test_reply ctx env ''success'' (JStr ''connection test passed''))
        })
   })"

definition mirror_reply :: "cmdctx \<Rightarrow> Envelope \<Rightarrow> string \<Rightarrow> payload \<Rightarrow> unit prog" where
  "mirror_reply ctx env file fs = sendDbReply ctx env ''db_mirror_status'' ([(''filename'', JStr file)] @ fs)"

definition mirror_failed :: "cmdctx \<Rightarrow> Envelope \<Rightarrow> string \<Rightarrow> json \<Rightarrow> unit prog" where
  "mirror_failed ctx env file m = mirror_reply ctx env file [(''status'', JStr ''failed''), (''error_message'', m)]"

definition mirror_copy :: "host \<Rightarrow> cmdctx \<Rightarrow> Envelope \<Rightarrow> string \<Rightarrow> dest \<Rightarrow> dest \<Rightarrow> unit prog" where
  "mirror_copy E ctx env file source target = do {
     t \<leftarrow> request (\<lambda>h. MkdirTemp (svc E) h ''lattice-mirror-*'') (\<lambda>r. EvExt (EvMkdirTemp ''lattice-mirror-*'' r));
     (case t of
        Inl e \<Rightarrow> mirror_failed ctx env file (JText (Fmt ''failed to create temp dir: %v'' [FE e]))
      | Inr dir \<Rightarrow> do {
          g \<leftarrow> dest_Download E source file (dir @ ''/snapshot.bin'');
          (case g of
             Some e \<Rightarrow> mirror_failed ctx env file
               (JText (Fmt ''failed to read %s from the primary destination: %v'' [FS file, FE e]))
           | None \<Rightarrow> do {
               u \<leftarrow> dest_Upload E target (dir @ ''/snapshot.bin'') file;
               (case u of
                  Inl e \<Rightarrow> mirror_failed ctx env file (JText (Fmt ''failed to write %s to the mirror: %v'' [FS file, FE e]))
                | Inr sz \<Rightarrow> mirror_reply ctx env file
                    [(''status'', JStr ''completed''), (''size_bytes'', JNum (of_int sz))])
             });
          emit (EvExt (EvRemoveAll dir))
        })
   }"

definition dest_of :: "host \<Rightarrow> payload \<Rightarrow> dest res prog" where
  "dest_of E raw = NewDestination E (pstr raw ''type'') (pobj raw ''config'')"

definition handle_db_mirror_snapshot :: "host \<Rightarrow> cmdctx \<Rightarrow> Envelope \<Rightarrow> unit prog" where
  "handle_db_mirror_snapshot E ctx env =
     (let p = e_Payload env; file = payloadString p [''filename'', ''remote_path''] in
      pooled ''db_mirror_snapshot'' (case (pobj p ''source_destination'', pobj p ''target_destination'') of
        (Some src, Some tgt) \<Rightarrow>
          if file = [] then mirror_failed ctx env file (JStr ''missing filename, source_destination or target_destination'')
          else do {
            s \<leftarrow> dest_of E src;
            (case s of
               Inl e \<Rightarrow> mirror_failed ctx env file (JText (Fmt ''source destination unusable: %v'' [FE e]))
             | Inr source \<Rightarrow> do {
                 t \<leftarrow> dest_of E tgt;
                 (case t of
                    Inl e \<Rightarrow> mirror_failed ctx env file (JText (Fmt ''target destination unusable: %v'' [FE e]))
                  | Inr target \<Rightarrow> mirror_copy E ctx env file source target)
               })
          }
      | _ \<Rightarrow> mirror_failed ctx env file (JStr ''missing filename, source_destination or target_destination'')))"

definition delete_reply :: "cmdctx \<Rightarrow> Envelope \<Rightarrow> string \<Rightarrow> payload \<Rightarrow> unit prog" where
  "delete_reply ctx env snapID fs = sendDbReply ctx env ''db_delete_snapshot_result'' ([(''snapshot_id'', JStr snapID)] @ fs)"

definition handle_db_delete_snapshot_file :: "host \<Rightarrow> cmdctx \<Rightarrow> Envelope \<Rightarrow> unit prog" where
  "handle_db_delete_snapshot_file E ctx env =
     (let p = e_Payload env; (destType, destConfig) = backupDestinationFrom p;
          path = payloadString p [''remote_path'', ''filename'']; snapID = payloadString p [''snapshot_id''];
          failed = (\<lambda>m. delete_reply ctx env snapID [(''status'', JStr ''failed''), (''message'', m)]) in
      pooled ''db_delete_snapshot_file'' (
        if path = [] then failed (JStr ''missing remote_path/filename'')
        else do {
          d \<leftarrow> NewDestination E destType destConfig;
          (case d of
             Inl e \<Rightarrow> failed (JText (Fmt ''failed to create destination: %v'' [FE e]))
           | Inr dst \<Rightarrow> do {
               r \<leftarrow> dest_Delete E dst path;
               (case r of
                  Some e \<Rightarrow> failed (JText (Fmt ''delete failed: %v'' [FE e]))
                | None \<Rightarrow> delete_reply ctx env snapID [(''status'', JStr ''success'')])
             })
        }))"

section \<open>The scheduled snapshot\<close>

definition sched_reply :: "cmdctx \<Rightarrow> Job \<Rightarrow> string \<Rightarrow> payload \<Rightarrow> unit prog" where
  "sched_reply ctx job file fs = sendDbReply ctx (scheduledEnv (InstanceID job)) ''db_snapshot_status''
     ([(''filename'', JStr file), (''container_name'', JStr (j_ContainerName job)),
       (''instance_id'', JNum (of_int (InstanceID job))), (''scheduled'', JBool True)] @ fs)"

definition sched_failed :: "cmdctx \<Rightarrow> Job \<Rightarrow> string \<Rightarrow> json \<Rightarrow> unit prog" where
  "sched_failed ctx job file m = sched_reply ctx job file [(''status'', JStr ''failed''), (''error_message'', m)]"

definition failPreflight :: "cmdctx \<Rightarrow> Job \<Rightarrow> string \<Rightarrow> string \<Rightarrow> unit prog" where
  "failPreflight ctx job file reason = do {
     sendLifecycleLog ctx (j_ContainerName job) ''db_snapshot'' (Fmt ''scheduled snapshot could not start: %s'' [FS reason]);
     sched_failed ctx job file (JStr reason)
   }"

definition sched_run :: "host \<Rightarrow> cmdctx \<Rightarrow> Job \<Rightarrow> string \<Rightarrow> string \<Rightarrow> payload \<Rightarrow> unit prog" where
  "sched_run E ctx job file destType destConfig = (let name = j_ContainerName job in do {
     sendLifecycleLog ctx name ''db_snapshot'' (Fmt ''scheduled snapshot triggered (instance=%d)'' [FD (InstanceID job)]);
     sched_reply ctx job file [(''status'', JStr ''uploading'')];
     r \<leftarrow> FindContainerByName E name;
     (case r of
        Inl e \<Rightarrow> do {
          sendLifecycleLog ctx name ''db_snapshot'' (Fmt ''scheduled snapshot failed: container not found'' []);
          sched_failed ctx job file (JStr ''container not found'')
        }
      | Inr cid \<Rightarrow> if cid = [] then do {
          sendLifecycleLog ctx name ''db_snapshot'' (Fmt ''scheduled snapshot failed: container not found'' []);
          sched_failed ctx job file (JStr ''container not found'')
        } else do {
          d \<leftarrow> NewDestination E destType (Some destConfig);
          (case d of
             Inl e \<Rightarrow> do {
               sendLifecycleLog ctx name ''db_snapshot'' (Fmt ''scheduled snapshot failed: %v'' [FE e]);
               sched_failed ctx job file (JText (Fmt ''failed to create backup destination: %v'' [FE e]))
             }
           | Inr dst \<Rightarrow> do {
               sendLifecycleLog ctx name ''db_snapshot''
                 (Fmt ''streaming %s dump to backup destination (scheduled)...'' [FS (j_Engine job)]);
               s \<leftarrow> streamSnapshot E (ExecDatabaseDump E cid (j_Engine job) (j_DatabaseName job) (j_Username job)
                      (j_Password job)) dst file;
               (case s of
                  Inl e \<Rightarrow> do {
                    sendLifecycleLog ctx name ''db_snapshot'' (Fmt ''scheduled snapshot failed: %v'' [FE e]);
                    sched_failed ctx job file (JText e)
                  }
                | Inr sz \<Rightarrow> do {
                    sendLifecycleLog ctx name ''db_snapshot'' (Fmt ''scheduled snapshot completed (size=%d bytes)'' [FD sz]);
                    sched_reply ctx job file [(''status'', JStr ''completed''), (''size_bytes'', JNum (of_int sz)),
                      (''remote_path'', JStr file)]
                  })
             })
        })
   })"

definition handleScheduledSnapshot :: "host \<Rightarrow> cmdctx \<Rightarrow> Job \<Rightarrow> unit prog" where
  "handleScheduledSnapshot E ctx job = do {
     now \<leftarrow> observe (\<lambda>h. TimestampUTC (svc E) h ''20060102T150405Z'');
     (let file = j_ContainerName job @ ''_'' @ j_DatabaseName job @ ''_'' @ now @ ''.sql'' in
      case BackupDest job of
        None \<Rightarrow> failPreflight ctx job file ''no backup destination configured for this schedule''
      | Some bd \<Rightarrow>
          if pstr bd ''type'' = [] then failPreflight ctx job file ''backup destination has no type''
          else (case pobj bd ''config'' of
              None \<Rightarrow> failPreflight ctx job file ''backup destination has no config''
            | Some cfg \<Rightarrow> sched_run E ctx job file (pstr bd ''type'') cfg))
   }"

section \<open>Every command is settled by its last reply\<close>

text \<open>
  A reply is a message sent reliably; it settles the command when its phase is completed or
  failed. The observer counts: no settling reply yet, exactly one and no reply after it, or
  more.
\<close>

definition reliable :: "event \<Rightarrow> bool" where
  "reliable e = (case e of EvSend r m \<Rightarrow> r | _ \<Rightarrow> False)"

definition settling :: "event \<Rightarrow> bool" where
  "settling e = (case e of EvSend r m \<Rightarrow> r \<and> map_of (om_Payload m) ''phase'' \<in> {Some (JStr ''completed''), Some (JStr ''failed'')}
     | _ \<Rightarrow> False)"

fun settled :: "event list \<Rightarrow> bool" where
  "settled [] = False"
| "settled (e # es) = (if settling e then list_all (\<lambda>x. \<not> reliable x) es else settled es)"

definition set_nxt :: "nat \<Rightarrow> event \<Rightarrow> nat" where
  "set_nxt n e = (if n = 0 then (if settling e then 1 else 0) else if reliable e then 2 else n)"

lemma set_nxt_simps [simp]:
  "set_nxt 0 e = (if settling e then Suc 0 else 0)" "set_nxt (Suc 0) e = (if reliable e then 2 else Suc 0)" "set_nxt 2 e = 2"
  by (simp_all add: set_nxt_def)

lemma settled_twice [simp]: "foldl set_nxt 2 es = 2"
  by (induction es) simp_all

lemma settled_after: "foldl set_nxt (Suc 0) es = Suc 0 \<longleftrightarrow> list_all (\<lambda>x. \<not> reliable x) es"
  by (induction es) auto

lemma settled_foldl: "foldl set_nxt 0 es = Suc 0 \<longleftrightarrow> settled es"
  by (induction es) (auto simp: settled_after)

abbreviation settles :: "nat \<Rightarrow> 'a prog \<Rightarrow> nat \<Rightarrow> bool" where
  "settles a m b \<equiv> track (\<lambda>_ _. True) set_nxt a m (\<lambda>_ t. t = b)"

lemma settles_events: "settles 0 m 1 \<Longrightarrow> settled (events m h)"
  by (drule track_events [of _ _ _ _ _ h]) (simp add: settled_foldl)

definition silent :: "event \<Rightarrow> bool" where
  "silent e = (\<not> reliable e)"

lemma silent_settling: "silent e \<Longrightarrow> \<not> settling e"
  by (cases e) (auto simp: silent_def reliable_def settling_def)

lemma silent_step: "silent e \<Longrightarrow> set_nxt n e = n"
  using silent_settling [of e] by (auto simp: set_nxt_def silent_def)

lemma settles_silent: "emits silent m \<Longrightarrow> settles n m n"
  by (erule track_emits) (auto simp: silent_step)

lemma silent_bind: "emits silent m \<Longrightarrow> (\<And>x. settles a (f x) b) \<Longrightarrow> settles a (State_Monad.bind m f) b"
  by (rule track_bind [OF settles_silent]) auto

lemma silent_simps [simp]:
  "silent (EvExt x)" "silent (EvList n l)" "silent (EvPull i au q)" "silent (EvPullRead q)" "silent (EvSend False m)"
  "silent (EvVolInspect v q)" "silent (EvVolCreate v d q)" "silent (EvCreate n cf hc nc cr)" "silent (EvStart c q)"
  "silent (EvStop c t q)" "silent (EvRemove c f q)" "silent (EvRestart c t q)" "silent (EvVolRemove v f q)"
  by (simp_all add: silent_def reliable_def)

lemma silent_calls:
  "emits silent (sendLifecycleLog ctx n ev m)" "emits silent (sendLifecycleWarn ctx n ev m)" "emits silent (FindContainerByName E n)"
  "emits silent (NewDestination E ty cfg)" "emits silent (dest_Upload E d l r)" "emits silent (dest_Download E d r l)"
  "emits silent (dest_Delete E d r)" "emits silent (CreateDatabaseContainer E s)" "emits silent (probe_port E p)"
  "emits silent (ExecDatabaseRestore E c en dn us pw inp)" "emits silent (StopContainer E c t)" "emits silent (StartContainer E c)"
  "emits silent (RestartContainer E c t)" "emits silent (RemoveContainer E c f)" "emits silent (RemoveVolume E v f)"
proof -
  have smb: "emits silent (smbclient E a b c' d' e')" for a b c' d' e'
    unfolding smbclient_def Let_def by (auto intro!: emits_intros)
  show "emits silent (sendLifecycleLog ctx n ev m)" "emits silent (sendLifecycleWarn ctx n ev m)"
    by (auto simp: sendLifecycleLog_def sendLifecycleWarn_def wsSend_def intro!: emits_intros)
  show "emits silent (FindContainerByName E n)" by (auto simp: client_ops intro!: emits_intros)
  show "emits silent (NewDestination E ty cfg)"
    unfolding NewDestination_def newGDriveDestination_def Let_def by (intro emits_intros) simp_all
  have plain: "plain_request e \<Longrightarrow> silent e" for e by (auto simp: plain_request_def split: event.splits)
  show "emits silent (dest_Upload E d l r)" "emits silent (dest_Download E d r l)" "emits silent (dest_Delete E d r)"
    by (cases d; auto simp: dest_Upload_def dest_Download_def dest_Delete_def
        intro!: emits_intros smb emits_cloud [THEN emits_mono, OF plain] split: option.splits)+
  show "emits silent (probe_port E p)" unfolding probe_port_def by (auto intro!: emits_intros)
  show "emits silent (CreateDatabaseContainer E s)"
    unfolding CreateDatabaseContainer_def PullImage_def CreateVolume_def create_container_def start_database_def
      cleanupOnError_def StartContainer_def RemoveContainer_def
    by (intro emits_intros) simp_all
  show "emits silent (ExecDatabaseRestore E c en dn us pw inp)"
    unfolding ExecDatabaseRestore_def exec_start_def exec_output_def exec_inspect_def by (intro emits_intros) simp_all
qed (auto simp: client_ops intro!: emits_intros)

lemma silent_snapshot: "emits silent (streamSnapshot E (ExecDatabaseDump E c en dn us pw) d k)"
  unfolding streamSnapshot_def ExecDatabaseDump_def exec_start_def dump_stream_def exec_output_def exec_inspect_def
    stageAndUpload_def compressed_def UploadStream_def Let_def
  by (intro emits_intros silent_calls) simp_all

lemmas silent_binds = silent_calls [THEN silent_bind] silent_snapshot [THEN silent_bind]

lemma reply_settles:
  "map_of p ''phase'' = None \<Longrightarrow> phase_of (map_of p ''status'') \<in> {''completed'', ''failed''} \<Longrightarrow>
   settles 0 (sendDbReply ctx env t p) 1"
  unfolding sendDbReply_def wsSendReliable_def
  by (rule track_emit) (auto simp: settling_def db_reply_lookup reply_default_def)

lemma reply_announces:
  "map_of p ''phase'' \<in> {None, Some (JStr ''ack'')} \<Longrightarrow> phase_of (map_of p ''status'') = ''ack'' \<Longrightarrow>
   settles 0 (sendDbReply ctx env t p) 0"
  unfolding sendDbReply_def wsSendReliable_def
  by (rule track_emit) (auto simp: settling_def db_reply_lookup reply_default_def)

lemma settles_bind: "settles a m b \<Longrightarrow> (\<And>x. settles b (f x) c) \<Longrightarrow> settles a (State_Monad.bind m f) c"
  by (erule track_bind) simp

lemma settles_then_event: "settles a m b \<Longrightarrow> settles a (State_Monad.bind m (\<lambda>_. emit (EvExt e))) b"
  by (erule settles_bind) (rule settles_silent, auto intro: emits_intros)

lemma settles_pooled: "settles 0 m 1 \<Longrightarrow> settles 0 (pooled t m) 1"
  unfolding pooled_def by (intro silent_bind settles_then_event) (auto intro: emits_intros)

lemma settles_request: "(\<And>h. settles a (f (ask h)) b) \<Longrightarrow>
  settles a (State_Monad.bind (request ask (\<lambda>r. EvExt (ev r))) f) b"
  by (rule track_bind_request) (simp_all add: silent_step)

lemma settles_event: "settles a (f ()) b \<Longrightarrow> settles a (State_Monad.bind (emit (EvExt e)) f) b"
  by (rule track_bind_emit) (simp_all add: silent_step)

lemmas reply_forms = db_failed_def db_status_def snap_failed_def snap_reply_def mirror_failed_def mirror_reply_def
  delete_reply_def sched_failed_def sched_reply_def

lemmas settle_rules = reply_announces [THEN settles_bind] reply_settles silent_binds settles_request settles_event
  settles_then_event settles_pooled track_intros

text \<open>
  Start, stop and restart share one shape: any of them is settled when its request sends no
  message of its own.
\<close>

locale db_action =
  fixes E :: host and act :: string and busy :: "string \<Rightarrow> gotext" and req :: "string \<Rightarrow> goerr option prog" and failed :: string
  assumes request_silent: "emits silent (req c)"
begin

lemma simple_settles: "settles 0 (db_simple E ctx env act busy req failed) 1"
  unfolding db_simple_def named_database_def db_lookup_def reply_forms Let_def
  by (intro settle_rules silent_bind [OF request_silent]) (simp_all add: phase_of_def)

end

interpretation act_start: db_action E "''db_start''"
  "\<lambda>cid. Fmt ''starting database container (id=%s)...'' [FS (take 12 cid)]" "StartContainer E" "''failed to start: %v''"
  by unfold_locales (rule silent_calls)

interpretation act_stop: db_action E "''db_stop''"
  "\<lambda>cid. Fmt ''stopping database container (timeout=30s, id=%s)...'' [FS (take 12 cid)]"
  "\<lambda>cid. StopContainer E cid 30" "''failed to stop: %v''"
  by unfold_locales (rule silent_calls)

interpretation act_restart: db_action E "''db_restart''"
  "\<lambda>cid. Fmt ''restarting database container (timeout=30s, id=%s)...'' [FS (take 12 cid)]"
  "\<lambda>cid. RestartContainer E cid 30" "''failed to restart: %v''"
  by unfold_locales (rule silent_calls)

lemma simple_commands_settle:
  "settles 0 (handle_db_start E ctx env) 1" "settles 0 (handle_db_stop E ctx env) 1" "settles 0 (handle_db_restart E ctx env) 1"
  unfolding handle_db_start_def handle_db_stop_def handle_db_restart_def
  by (rule act_start.simple_settles act_stop.simple_settles act_restart.simple_settles)+

lemma create_settles: "settles 0 (handle_db_create E ctx env) 1"
  unfolding handle_db_create_def named_database_def create_database_def reply_forms Let_def
  by (intro settle_rules) (simp_all add: phase_of_def)

lemma remove_settles: "settles 0 (handle_db_remove E ctx env) 1"
  unfolding handle_db_remove_def named_database_def remove_database_def purge_volume_def db_lookup_def reply_forms Let_def
  by (intro settle_rules) (simp_all add: phase_of_def)

lemma snapshot_settles: "settles 0 (handle_db_snapshot E ctx env) 1"
  unfolding handle_db_snapshot_def snap_checked_def take_snapshot_def db_lookup_def reply_forms Let_def
  by (intro settle_rules) (simp_all add: phase_of_def)

lemma restore_settles: "settles 0 (handle_db_restore E ctx env) 1"
  unfolding handle_db_restore_def snap_checked_def fetch_and_restore_def run_restore_def db_lookup_def reply_forms Let_def
  by (intro settle_rules) (simp_all add: phase_of_def)

lemma mirror_settles: "settles 0 (handle_db_mirror_snapshot E ctx env) 1"
  unfolding handle_db_mirror_snapshot_def mirror_copy_def dest_of_def reply_forms Let_def
  by (intro settle_rules) (simp_all add: phase_of_def)

lemma delete_settles: "settles 0 (handle_db_delete_snapshot_file E ctx env) 1"
  unfolding handle_db_delete_snapshot_file_def reply_forms Let_def
  by (intro settle_rules) (simp_all add: phase_of_def)

lemma scheduled_settles: "settles 0 (handleScheduledSnapshot E ctx job) 1"
  unfolding handleScheduledSnapshot_def failPreflight_def sched_run_def reply_forms Let_def
  by (intro settle_rules) (simp_all add: phase_of_def)

lemmas commands_settle = create_settles simple_commands_settle remove_settles snapshot_settles restore_settles
  mirror_settles delete_settles scheduled_settles

text \<open>
  C26: whatever the daemon, the destination and the file system answer, each database command
  and each scheduled snapshot is settled by its last reply: exactly one of its replies has the
  phase completed or failed, and no reply follows it. Updating a schedule is not among them;
  its reply is only ever an acknowledgement.
\<close>

theorem db_commands_settle:
  "list_all (\<lambda>m. settled (events m h))
     [handle_db_create E ctx env, handle_db_start E ctx env, handle_db_stop E ctx env, handle_db_restart E ctx env,
      handle_db_remove E ctx env, handle_db_snapshot E ctx env, handle_db_restore E ctx env,
      handle_db_mirror_snapshot E ctx env, handle_db_delete_snapshot_file E ctx env, handleScheduledSnapshot E ctx job]"
  by (simp add: commands_settle [THEN settles_events])

section \<open>When a data volume is deleted\<close>

text \<open>
  The monitor of db_remove: whether the name is held against creates, the container that the
  listing shows under the name, and whether the name is clear, that is, the listing shows none
  or the one it showed has been removed.
\<close>

record pmon =
  pm_held :: bool
  pm_found :: string
  pm_clear :: bool

definition pm_init :: pmon where
  "pm_init = \<lparr>pm_held = False, pm_found = [], pm_clear = False\<rparr>"

definition listed_id :: "string \<Rightarrow> container list \<Rightarrow> string" where
  "listed_id name cs = (case find (\<lambda>c. name \<in> set (names_of c)) cs of Some c \<Rightarrow> ct_ID c | None \<Rightarrow> [])"

definition pm_nxt :: "string \<Rightarrow> pmon \<Rightarrow> event \<Rightarrow> pmon" where
  "pm_nxt name s e = (case e of
     EvExt (EvDbRemoveBegin n b) \<Rightarrow> s\<lparr>pm_held := (n = name)\<rparr>
   | EvExt (EvDbFinish n) \<Rightarrow> s\<lparr>pm_held := False\<rparr>
   | EvList n (Inr cs) \<Rightarrow> s\<lparr>pm_found := listed_id name cs, pm_clear := (listed_id name cs = [])\<rparr>
   | EvRemove c f None \<Rightarrow> s\<lparr>pm_clear := (pm_clear s \<or> c = pm_found s)\<rparr>
   | _ \<Rightarrow> s)"

definition pm_ok :: "payload \<Rightarrow> pmon \<Rightarrow> event \<Rightarrow> bool" where
  "pm_ok p s e = (case e of
     EvVolRemove v f r \<Rightarrow> pbool p ''remove_volume'' \<and> v = pstr p ''volume_name'' \<and> validContainerName v \<and> pm_held s \<and> pm_clear s
   | EvStop c t r \<Rightarrow> pm_held s \<and> c = pm_found s \<and> c \<noteq> []
   | EvRemove c f r \<Rightarrow> pm_held s \<and> c = pm_found s \<and> c \<noteq> []
   | _ \<Rightarrow> acts_on e = None)"

abbreviation purges :: "payload \<Rightarrow> pmon \<Rightarrow> 'a prog \<Rightarrow> ('a \<Rightarrow> pmon \<Rightarrow> bool) \<Rightarrow> bool" where
  "purges p \<equiv> track (pm_ok p) (pm_nxt (pstr p ''container_name''))"

lemma pm_send [simp]: "pm_nxt n s (EvSend b m) = s" "pm_ok p s (EvSend b m)" "pm_ok p s (EvExt x)"
  by (simp_all add: pm_nxt_def pm_ok_def acts_on_def)

lemma purges_quiet:
  "purges p s (sendLifecycleLog ctx n ev m) (\<lambda>_ t. t = s)" "purges p s (sendLifecycleWarn ctx n ev m) (\<lambda>_ t. t = s)"
  "purges p s (sendDbReply ctx env ty q) (\<lambda>_ t. t = s)"
  unfolding sendLifecycleLog_def sendLifecycleWarn_def sendDbReply_def wsSend_def wsSendReliable_def
  by (intro track_intros; simp)+

lemma purges_find:
  "purges p s (FindContainerByName E (pstr p ''container_name'')) (\<lambda>r t. pm_held t = pm_held s \<and>
     (case r of Inr i \<Rightarrow> pm_found t = i \<and> pm_clear t = (i = []) | Inl e \<Rightarrow> True))"
  unfolding client_ops
  by (auto intro!: track_intros simp: pm_nxt_def pm_ok_def acts_on_def listed_id_def)

lemma purges_quiets:
  "(\<And>x. purges p s (f x) Q) \<Longrightarrow> purges p s (State_Monad.bind (sendLifecycleLog ctx n ev m) f) Q"
  "(\<And>x. purges p s (f x) Q) \<Longrightarrow> purges p s (State_Monad.bind (sendLifecycleWarn ctx n ev m) f) Q"
  "(\<And>x. purges p s (f x) Q) \<Longrightarrow> purges p s (State_Monad.bind (sendDbReply ctx env ty q) f) Q"
  by (rule track_bind [OF purges_quiet(1)] track_bind [OF purges_quiet(2)] track_bind [OF purges_quiet(3)]; simp)+

lemma purges_remove: "purges (e_Payload env) pm_init (handle_db_remove E ctx env) (\<lambda>_ _. True)"
  unfolding handle_db_remove_def pooled_def named_database_def remove_database_def purge_volume_def db_lookup_def
    reply_forms Let_def StopContainer_def RemoveContainer_def RemoveVolume_def
  by (intro track_intros purges_quiets purges_quiet [THEN track_mono] track_bind [OF purges_find])
    (auto simp: pm_nxt_def pm_ok_def pm_init_def)

text \<open>
  C27: db_remove never deletes data it was not asked to delete. A volume is deleted only when
  the command asks for it, only the volume it names and only under a valid name, and only
  while the name is held against creates and no container is left under it; the container
  that is stopped and removed is the one listed under the name, and no other container is touched.
\<close>

theorem db_volume_purge_guarded:
  "accepted (pm_ok (e_Payload env)) (pm_nxt (pstr (e_Payload env) ''container_name'')) pm_init
     (events (handle_db_remove E ctx env) h)"
  using track_events [OF purges_remove] by blast

end
