(* ===== verification/Backup_Chain.thy ===== *)
theory Backup_Chain
  imports Db_Commands
begin

text \<open>
  The chain from a snapshot to its restore across the components: the dump in the container, the
  compression, the staged file, the upload to Google Drive, and later the download, the decompression and
  the input of the restore. What the theories Drive, Snapshot and Db_Commands show of their parts is put together
  here, with the documented behaviour of local files.
\<close>

section \<open>Local files\<close>

text \<open>
  The content of a local file, as far as it is known from the requests: what the last clean write has put
  there. Any other change of the file, a removal of a directory and a run of a program leave it unknown.
\<close>

definition file_step :: "string \<Rightarrow> string option \<Rightarrow> event \<Rightarrow> string option" where
  "file_step p s e = (case e of
     EvExt x \<Rightarrow> (case x of
       EvWriteFile q z r \<Rightarrow> if q = p then (if snd z = None \<and> r = None then Some (fst z) else None) else s
     | EvCreateFile q r \<Rightarrow> if q = p then None else s
     | EvRemoveFile q \<Rightarrow> if q = p then None else s
     | EvRemoveAll d \<Rightarrow> None
     | EvRun a v r \<Rightarrow> None
     | _ \<Rightarrow> s)
   | _ \<Rightarrow> s)"

abbreviation file_at :: "string \<Rightarrow> event list \<Rightarrow> string option" where
  "file_at p \<equiv> foldl (file_step p) None"

text \<open>Documented behaviour of files: one that can be opened holds what was written to it.\<close>

definition file_law :: "host \<Rightarrow> bool" where
  "file_law E = (\<forall>h p b b'. file_at p h = Some b \<longrightarrow> ReadFile (svc E) h p = Inr b' \<longrightarrow> b' = b)"

section \<open>Events that do not take part\<close>

text \<open>Events that change neither a local file nor the drive, and hand nothing to a restore.\<close>

definition bystander :: "event \<Rightarrow> bool" where
  "bystander e = (case e of
     EvExt x \<Rightarrow> (case x of
       EvWriteFile q z r \<Rightarrow> False | EvCreateFile q r \<Rightarrow> False | EvRemoveFile q \<Rightarrow> False | EvRemoveAll d \<Rightarrow> False
     | EvRun a v r \<Rightarrow> False | EvExecInput i s r \<Rightarrow> False
     | EvCloud c \<Rightarrow> (case c of EvDriveCreate n ps b r \<Rightarrow> False | EvDriveUpdate i b r \<Rightarrow> False | EvDriveDelete i r \<Rightarrow> False | _ \<Rightarrow> True)
     | _ \<Rightarrow> True)
   | _ \<Rightarrow> True)"

lemma bystander_file: "bystander e \<Longrightarrow> file_step p s e = s"
  by (auto simp: bystander_def file_step_def split: event.splits ext.splits)

lemma bystander_drive: "bystander e \<Longrightarrow> drive_step d e = d"
  by (auto simp: bystander_def drive_step_def split: event.splits ext.splits cloud.splits)

lemma bystander_simps [simp]:
  "bystander (EvSend b m)" "bystander (EvList n l)" "bystander (EvExt (EvAcquire t))" "bystander (EvExt EvRelease)"
  "bystander (EvExt (EvGDrive q))" "bystander (EvExt (EvMkdirTemp t d))" "bystander (EvExt (EvReadFile p rf))"
  "bystander (EvExt (EvExecCreate c a v x))" "bystander (EvExt (EvExecAttach c q))" "bystander (EvExt (EvExecOutput i st o2))"
  "bystander (EvExt (EvExecInspect i xi))" "bystander (EvExt (EvExecClose i))" "\<not> bystander (EvExt (EvExecInput i s r))"
  by (simp_all add: bystander_def)

text \<open>What the database was given since the history \<open>h0\<close>: nothing but \<open>x\<close>, ending cleanly.\<close>

definition given :: "string \<Rightarrow> event \<Rightarrow> bool" where
  "given x e = (case e of EvExt (EvExecInput i s r) \<Rightarrow> s = (x, None) | _ \<Rightarrow> True)"

definition feeds :: "string \<Rightarrow> event list \<Rightarrow> event list \<Rightarrow> bool" where
  "feeds x h0 h = (\<exists>es. h = h0 @ es \<and> list_all (given x) es)"

lemma given_simps [simp]: "given x (EvExt (EvExecInput i s r)) \<longleftrightarrow> s = (x, None)"
  by (simp add: given_def)

lemma bystander_given: "bystander e \<Longrightarrow> given x e"
  by (auto simp: bystander_def given_def split: event.splits ext.splits)

lemma plain_given: "plain_request e \<Longrightarrow> given x e"
  by (auto simp: plain_request_def given_def split: event.splits ext.splits)

lemma feeds_self: "feeds x h h"
  by (simp add: feeds_def)

lemma feeds_app: "feeds x h0 h \<Longrightarrow> list_all (given x) es \<Longrightarrow> feeds x h0 (h @ es)"
  by (auto simp: feeds_def)

lemma feeds_snoc: "feeds x h0 h \<Longrightarrow> given x e \<Longrightarrow> feeds x h0 (h @ [e])"
  by (rule feeds_app) auto

definition steady :: "(event list \<Rightarrow> bool) \<Rightarrow> bool" where
  "steady K = (\<forall>h e. bystander e \<longrightarrow> K h \<longrightarrow> K (h @ [e]))"

lemma steadyD: "steady K \<Longrightarrow> K h \<Longrightarrow> bystander e \<Longrightarrow> K (h @ [e])"
  by (simp add: steady_def)

lemma steady_app: "steady K \<Longrightarrow> K h \<Longrightarrow> list_all bystander es \<Longrightarrow> K (h @ es)"
  by (induction es rule: rev_induct) (auto simp: steady_def simp flip: append_assoc)

lemma steady_feeds: "steady (feeds x h0)"
  unfolding steady_def by (auto intro!: feeds_snoc bystander_given)

lemma steady_files: "steady (\<lambda>h. feeds x h0 h \<and> file_at p h = z)"
  unfolding steady_def by (auto intro!: feeds_snoc bystander_given simp: bystander_file)

lemma steady_drive: "steady (\<lambda>h. feeds x h0 h \<and> drive_files d0 h = d)"
  unfolding steady_def by (auto intro!: feeds_snoc bystander_given simp: bystander_drive)

lemma wp_steady: "emits bystander m \<Longrightarrow> steady K \<Longrightarrow> K h \<Longrightarrow> wp m (\<lambda>_. K) h"
  by (rule wp_emitsI) (auto intro: steady_app)

lemma wp_steady_bind:
  "emits bystander m \<Longrightarrow> steady K \<Longrightarrow> K h \<Longrightarrow> (\<And>y h'. K h' \<Longrightarrow> wp (f y) Q h') \<Longrightarrow> wp (State_Monad.bind m f) Q h"
  unfolding wp_bind by (rule wp_mono [OF wp_steady])

lemma bystander_calls:
  "emits bystander (sendLifecycleLog ctx n ev m)" "emits bystander (snap_reply ctx env t i sid n fs)"
  "emits bystander (snap_failed ctx env t i sid n j)" "emits bystander (db_failed ctx env n a j)" "emits bystander (FindContainerByName E n)"
  "emits bystander (NewDestination E ty cfg)" "emits bystander (ExecDatabaseDump E c en dn us pw)"
proof -
  show "emits bystander (FindContainerByName E n)" by (auto simp: client_ops intro!: emits_intros)
  show "emits bystander (NewDestination E ty cfg)"
    unfolding NewDestination_def newGDriveDestination_def Let_def by (intro emits_intros) simp_all
  show "emits bystander (ExecDatabaseDump E c en dn us pw)"
    unfolding ExecDatabaseDump_def exec_start_def dump_stream_def exec_output_def exec_inspect_def by (intro emits_intros) simp_all
qed (auto simp: sendLifecycleLog_def wsSend_def snap_reply_def snap_failed_def sendDbReply_def wsSendReliable_def
    db_failed_def db_status_def intro!: emits_intros)

section \<open>The restore\<close>

lemma restore_given:
  "emits (given x) (ExecDatabaseRestore E c en dn us pw (x, None))"
  unfolding ExecDatabaseRestore_def exec_start_def exec_output_def exec_inspect_def
  by (intro emits_intros) (simp_all add: bystander_given)

lemma wp_given: "emits (given x) m \<Longrightarrow> feeds x h0 h \<Longrightarrow> wp m (\<lambda>_. feeds x h0) h"
  by (rule wp_emitsI) (auto intro: feeds_app)

lemma wp_given_bind:
  "emits (given x) m \<Longrightarrow> feeds x h0 h \<Longrightarrow> (\<And>y h'. feeds x h0 h' \<Longrightarrow> wp (f y) Q h') \<Longrightarrow> wp (State_Monad.bind m f) Q h"
  unfolding wp_bind by (rule wp_mono [OF wp_given])

lemmas given_calls = bystander_calls [THEN emits_mono, OF bystander_given]

lemma run_restore_feeds:
  assumes "file_law E" "maybeGunzip E (z, None) = Inr (x, None)" "feeds x h0 h \<and> file_at tmp h = Some z"
  shows "wp (run_restore E ctx env sid name tmp cid) (\<lambda>_. feeds x h0) h"
  unfolding run_restore_def Let_def
proof (rule wp_steady_bind [OF bystander_calls(1) steady_files assms(3)])
  fix h' assume h': "feeds x h0 h' \<and> file_at tmp h' = Some z"
  let ?k = "\<lambda>f. case f of Inl e \<Rightarrow> snap_failed ctx env ''db_restore_status'' ''restore_id'' sid name (JText (Fmt ''failed to open restore file: %v'' [FE e]))
    | Inr b \<Rightarrow> (case maybeGunzip E (b, None) of Inl e \<Rightarrow> snap_failed ctx env ''db_restore_status'' ''restore_id'' sid name (JText e)
      | Inr input \<Rightarrow> do {
          r \<leftarrow> ExecDatabaseRestore E cid (pstr (e_Payload env) ''engine'') (pstr (e_Payload env) ''database_name'')
            (pstr (e_Payload env) ''username'') (pstr (e_Payload env) ''password'') input;
          (case r of
             Some e \<Rightarrow> do {
               sendLifecycleLog ctx name ''db_restore'' (Fmt ''restore failed: %v'' [FE e]);
               snap_failed ctx env ''db_restore_status'' ''restore_id'' sid name (JText (Fmt ''restore failed: %v'' [FE e]))
             }
           | None \<Rightarrow> do {
               sendLifecycleLog ctx name ''db_restore'' (Fmt ''database restore completed'' []);
               snap_reply ctx env ''db_restore_status'' ''restore_id'' sid name [(''status'', JStr ''completed'')]
             })
        })"
  have "b = z" if "ReadFile (svc E) h' tmp = Inr b" for b
    using assms(1) h' that unfolding file_law_def by blast
  moreover have "feeds x h0 (h' @ [EvExt (EvReadFile tmp r)])" for r
    using h' by (simp add: feeds_snoc bystander_given)
  moreover have "emits (given x) (?k (Inl e))" "emits (given x) (?k (Inr z))" for e
    by (auto simp: assms(2) intro!: emits_intros given_calls restore_given split: option.split)
  ultimately show "wp (State_Monad.bind (request (\<lambda>h. ReadFile (svc E) h tmp) (\<lambda>r. EvExt (EvReadFile tmp r))) ?k) (\<lambda>_. feeds x h0) h'"
    unfolding wp_bind wp_request by (cases "ReadFile (svc E) h' tmp") (auto intro!: wp_given)
qed

lemma db_lookup_feeds:
  assumes "feeds x h0 h \<and> file_at tmp h = Some z" "emits (given x) absent"
    and "\<And>cid h'. feeds x h0 h' \<and> file_at tmp h' = Some z \<Longrightarrow> wp (body cid) (\<lambda>_. feeds x h0) h'"
  shows "wp (db_lookup E ctx env name action absent body) (\<lambda>_. feeds x h0) h"
  unfolding db_lookup_def
proof (rule wp_steady_bind [OF bystander_calls(1) steady_files assms(1)],
    erule wp_steady_bind [OF bystander_calls(5) steady_files])
  fix r h' assume h': "feeds x h0 h' \<and> file_at tmp h' = Some z"
  show "wp (case r of Inl e \<Rightarrow> do {
          sendLifecycleLog ctx name action (Fmt ''failed to look up container: %v'' [FE e]);
          db_failed ctx env name action (JText (Fmt ''failed to look up container: %v'' [FE e]))
        } | Inr cid \<Rightarrow> if cid = [] then absent else body cid) (\<lambda>_. feeds x h0) h'"
    using h' assms(2,3) by (cases r) (auto intro!: wp_given emits_intros given_calls)
qed

text \<open>The download: when it succeeds, the local file holds what the drive holds.\<close>

lemma Download_feeds:
  assumes "drive_law E d0 f" "feeds x h0 h" "sole f n z (drive_files d0 h)"
  shows "wp (drive_Download E f n l) (\<lambda>r h'. feeds x h0 h' \<and> (r = None \<longrightarrow> file_at l h' = Some z)) h"
proof -
  have "wp (drive_Download E f n l) (\<lambda>_. feeds x h0) h"
    by (rule wp_given [OF emits_cloud(6) [THEN emits_mono, OF plain_given] assms(2)])
  from wp_conj [OF this Download_sole [OF assms(1,3)]] show ?thesis
    by (rule wp_mono) (auto simp: file_step_def)
qed

definition drive_payload :: "payload \<Rightarrow> string \<Rightarrow> string \<Rightarrow> bool" where
  "drive_payload p f n = ((\<exists>cfg. backupDestinationFrom p = (''google_drive'', Some cfg) \<and> pstr cfg ''folder_id'' = f) \<and>
     payloadString p [''remote_path'', ''filename''] = n)"

lemma NewDestination_drive:
  assumes "steady K" "K h"
  shows "wp (NewDestination E ''google_drive'' (Some c)) (\<lambda>r h'. K h' \<and> (\<forall>d. r = Inr d \<longrightarrow> d = DestGDrive (pstr c ''folder_id''))) h"
  using assms unfolding NewDestination_def newGDriveDestination_def Let_def
  by (auto simp: wp_simps steadyD split: option.splits)

lemma fetch_feeds:
  assumes "drive_law E d0 f" "file_law E" "maybeGunzip E (z, None) = Inr (x, None)" "drive_payload (e_Payload env) f n"
    and "feeds x h0 h \<and> drive_files d0 h = d" "sole f n z d"
  shows "wp (fetch_and_restore E ctx env sid name) (\<lambda>_. feeds x h0) h"
proof -
  obtain cfg where p: "backupDestinationFrom (e_Payload env) = (''google_drive'', Some cfg)" "pstr cfg ''folder_id'' = f"
      "payloadString (e_Payload env) [''remote_path'', ''filename''] = n"
    using assms(4) unfolding drive_payload_def by blast
  let ?failed = "snap_failed ctx env ''db_restore_status'' ''restore_id'' sid name"
  let ?got = "\<lambda>dir g. case g of
     Some e \<Rightarrow> do {
       sendLifecycleLog ctx name ''db_restore'' (Fmt ''download failed: %v'' [FE e]);
       ?failed (JText (Fmt ''download failed: %v'' [FE e]))
     }
   | None \<Rightarrow> db_lookup E ctx env name ''db_restore''
       (do { sendLifecycleLog ctx name ''db_restore'' (Fmt ''container not found'' []); ?failed (JStr ''container not found'') })
       (run_restore E ctx env sid name (dir @ ''/restore.sql''))"
  have got: "wp (?got dir g) (\<lambda>_. feeds x h0) h'"
    if "feeds x h0 h' \<and> (g = None \<longrightarrow> file_at (dir @ ''/restore.sql'') h' = Some z)" for dir g h'
  proof (cases g)
    case None
    show ?thesis unfolding None option.case
      by (rule db_lookup_feeds [where z = z and tmp = "dir @ ''/restore.sql''"])
        (use that None assms(2,3) in \<open>auto intro!: emits_intros given_calls run_restore_feeds [where z = z]\<close>)
  next
    case (Some e)
    with that show ?thesis by (auto intro!: wp_given emits_intros given_calls)
  qed
  have dl: "wp (do { g \<leftarrow> drive_Download E f n (dir @ ''/restore.sql''); ?got dir g; emit (EvExt (EvRemoveAll dir)) }) (\<lambda>_. feeds x h0) h'"
    if "feeds x h0 h' \<and> drive_files d0 h' = d" for dir h'
    unfolding wp_bind
  proof (rule wp_mono [OF Download_feeds [OF assms(1), of x h0 h' n z]])
    show "feeds x h0 h'" "sole f n z (drive_files d0 h')" using that assms(6) by simp_all
    fix g :: "goerr option" and h'' assume "feeds x h0 h'' \<and> (g = None \<longrightarrow> file_at (dir @ ''/restore.sql'') h'' = Some z)"
    then show "wp (?got dir g) (\<lambda>_. wp (emit (EvExt (EvRemoveAll dir))) (\<lambda>_. feeds x h0)) h''"
      by (rule wp_mono [OF got]) (simp add: wp_emit feeds_snoc given_def)
  qed
  let ?fetch = "\<lambda>r. case r of Inl e \<Rightarrow> ?failed (JText (Fmt ''failed to create temp dir: %v'' [FE e]))
    | Inr dir \<Rightarrow> do { g \<leftarrow> drive_Download E f n (dir @ ''/restore.sql''); ?got dir g; emit (EvExt (EvRemoveAll dir)) }"
  have fetch: "wp (?fetch r) (\<lambda>_. feeds x h0) h'" if "feeds x h0 h' \<and> drive_files d0 h' = d" for r h'
    using that dl by (cases r) (auto intro!: wp_given given_calls)
  show ?thesis
    unfolding fetch_and_restore_def Let_def p(1,3) prod.case
  proof (rule wp_steady_bind [OF bystander_calls(1) steady_drive assms(5)], unfold wp_bind [of "NewDestination E s c" for s c],
      erule wp_mono [OF NewDestination_drive [OF steady_drive]])
    fix r :: "dest res" and h' assume r: "(feeds x h0 h' \<and> drive_files d0 h' = d) \<and> (\<forall>t. r = Inr t \<longrightarrow> t = DestGDrive (pstr cfg ''folder_id''))"
    let ?mk = "request (\<lambda>h. MkdirTemp (svc E) h ''lattice-restore-*'') (\<lambda>r. EvExt (EvMkdirTemp ''lattice-restore-*'' r))"
    have "wp (State_Monad.bind ?mk ?fetch) (\<lambda>_. feeds x h0) h'"
      by (rule wp_steady_bind [OF _ steady_drive [of x h0 d0 d]]) (use r fetch in \<open>auto intro: emits_intros\<close>)
    then show "wp (case r of Inl e \<Rightarrow> ?failed (JText (Fmt ''failed to create backup destination: %v'' [FE e]))
       | Inr dst \<Rightarrow> State_Monad.bind ?mk (\<lambda>t. case t of
           Inl e \<Rightarrow> ?failed (JText (Fmt ''failed to create temp dir: %v'' [FE e]))
         | Inr dir \<Rightarrow> do { g \<leftarrow> dest_Download E dst n (dir @ ''/restore.sql''); ?got dir g; emit (EvExt (EvRemoveAll dir)) }))
       (\<lambda>_. feeds x h0) h'"
      using r by (cases r) (auto simp: p(2) dest_Download_def intro!: wp_given given_calls)
  qed
qed

lemma restore_feeds:
  assumes "drive_law E d0 f" "file_law E" "maybeGunzip E (z, None) = Inr (x, None)" "drive_payload (e_Payload env) f n" "sole f n z (drive_files d0 h)"
  shows "list_all (given x) (events (handle_db_restore E ctx env) h)"
proof -
  let ?d = "drive_files d0 h"
  let ?sid = "payloadString (e_Payload env) [''restore_id'', ''snapshot_id'']"
  let ?K = "\<lambda>h'. feeds x h h' \<and> drive_files d0 h' = ?d"
  have body: "wp (snap_checked ctx env ''db_restore_status'' ''restore_id'' ?sid ''downloading'' (fetch_and_restore E ctx env ?sid))
      (\<lambda>_. feeds x h) h'" if "?K h'" for h'
  proof -
    have "wp (do { snap_reply ctx env ''db_restore_status'' ''restore_id'' ?sid nm fs; fetch_and_restore E ctx env ?sid nm }) (\<lambda>_. feeds x h) h'" for nm fs
      by (rule wp_steady_bind [OF bystander_calls(2) steady_drive that]) (rule fetch_feeds [OF assms(1-4) _ assms(5)])
    then show ?thesis using that unfolding snap_checked_def Let_def by (auto intro!: wp_given given_calls)
  qed
  have "wp (handle_db_restore E ctx env) (\<lambda>_. feeds x h) h"
    unfolding handle_db_restore_def pooled_def Let_def
  proof (rule wp_steady_bind [OF _ steady_drive [of x h d0 ?d]])
    show "emits bystander (emit (EvExt (EvAcquire ''db_restore'')))" by (rule emits_emit) simp
    show "?K h" by (simp add: feeds_self)
    fix u h' assume k: "?K h'"
    show "wp (do { snap_checked ctx env ''db_restore_status'' ''restore_id'' ?sid ''downloading'' (fetch_and_restore E ctx env ?sid);
        emit (EvExt EvRelease) }) (\<lambda>_. feeds x h) h'"
      unfolding wp_bind by (rule wp_mono [OF body [OF k]]) (simp add: wp_emit feeds_snoc bystander_given)
  qed
  then show ?thesis unfolding wp_result feeds_def events_def by auto
qed

section \<open>The snapshot\<close>

lemma wp_funs:
  "wp (State_Monad.bind m f) Q = wp m (\<lambda>x. wp (f x) Q)" "wp (request ask ev) R = (\<lambda>h. R (ask h) (h @ [ev (ask h)]))"
  "wp (ret y) S = S y" "wp (emit e) T = (\<lambda>h. T () (h @ [e]))"
  by (simp_all add: wp_simps fun_eq_iff)

lemma wp_compressed:
  assumes "\<And>c. (c = None \<Longrightarrow> snd s = None) \<Longrightarrow> Q (Gzip (svc E) (fst s), c) h"
  shows "wp (compressed E s) Q h"
  using assms unfolding compressed_def by (auto simp: wp_simps split: option.splits)

definition staged :: "host \<Rightarrow> drive \<Rightarrow> string \<Rightarrow> string \<Rightarrow> stream \<Rightarrow> event list \<Rightarrow> int res \<Rightarrow> event list \<Rightarrow> bool" where
  "staged E d0 f n s h r h' = (\<exists>es. h' = h @ es \<and> (\<forall>sz. r = Inr sz \<longrightarrow> deletes_done es \<longrightarrow>
     snd s = None \<and> sole f n (Gzip (svc E) (fst s)) (drive_files d0 h')))"

lemma staged_Inl [simp]: "staged E d0 f n s h (Inl e) (h @ es)"
  by (simp add: staged_def)

lemma stage_sole:
  assumes "drive_law E d0 f" "file_law E" "distinct (map fst (drive_files d0 h))"
  shows "wp (stageAndUpload E s (DestGDrive f) n) (staged E d0 f n s h) h"
proof (cases "MkdirTemp (svc E) h ''lattice-snapshot-*''")
  case (Inl e)
  then show ?thesis by (simp add: stageAndUpload_def wp_simps)
next
  case (Inr dir)
  define l where "l = dir @ ''/dump.sql.gz''"
  define h1 where "h1 = h @ [EvExt (EvMkdirTemp ''lattice-snapshot-*'' (Inr dir))]"
  let ?tail = "\<lambda>w z. do {
     r \<leftarrow> (case w of Some e \<Rightarrow> ret (Inl e) | None \<Rightarrow> (case snd z of Some e \<Rightarrow> ret (Inl e) | None \<Rightarrow> drive_Upload E f l n));
     emit (EvExt (EvRemoveAll dir)); ret r }"
  have unf: "wp (stageAndUpload E s (DestGDrive f) n) Q h = wp (compressed E s) (\<lambda>z h2.
      wp (?tail (WriteFile (svc E) h2 l z) z) Q (h2 @ [EvExt (EvWriteFile l z (WriteFile (svc E) h2 l z))])) h1" for Q
    by (simp add: stageAndUpload_def wp_funs Inr dest_Upload_def h1_def l_def cong: option.case_cong)
  have tail: "wp (?tail w (Gzip (svc E) (fst s), c)) (staged E d0 f n s h) (h1 @ [EvExt (EvWriteFile l (Gzip (svc E) (fst s), c) w)])"
    if c: "c = None \<Longrightarrow> snd s = None" for w c
  proof (cases "w = None \<and> c = None")
    case False
    have "staged E d0 f n s h (Inl e) (h1 @ [a, b])" for e a b by (simp add: h1_def)
    with False show ?thesis by (cases w; cases c) (auto simp: wp_funs)
  next
    case True
    define h2 where "h2 = h1 @ [EvExt (EvWriteFile l (Gzip (svc E) (fst s), None) None)]"
    have h2: "drive_files d0 h2 = drive_files d0 h" "file_at l h2 = Some (Gzip (svc E) (fst s))"
      by (simp_all add: h2_def h1_def drive_step_def file_step_def)
    have "wp (drive_Upload E f l n) (\<lambda>r h'. staged E d0 f n s h r (h' @ [EvExt (EvRemoveAll dir)])) h2"
    proof (rule wp_mono [OF Upload_sole [OF assms(1)]])
      show "distinct (map fst (drive_files d0 h2))" using assms(3) h2(1) by simp
      fix r h' assume "uploaded E d0 f n l h2 r h'"
      then obtain es where es: "h' = h2 @ es" "\<forall>z. r = Inr z \<longrightarrow> deletes_done es \<longrightarrow>
          (\<exists>b. ReadFile (svc E) h2 l = Inr b \<and> EvExt (EvReadFile l (Inr b)) \<in> set es \<and> sole f n b (drive_files d0 h'))"
        unfolding uploaded_def by (elim exE conjE)
      let ?gs = "[EvExt (EvMkdirTemp ''lattice-snapshot-*'' (Inr dir)), EvExt (EvWriteFile l (Gzip (svc E) (fst s), None) None)] @ es @ [EvExt (EvRemoveAll dir)]"
      have "sole f n (Gzip (svc E) (fst s)) (drive_files d0 (h' @ [EvExt (EvRemoveAll dir)]))" if r: "r = Inr sz" and g: "deletes_done ?gs" for sz
      proof -
        have "deletes_done es" using g by (simp add: deletes_done_def)
        then obtain b where b: "ReadFile (svc E) h2 l = Inr b" "sole f n b (drive_files d0 h')" using es(2) r by blast
        moreover have "b = Gzip (svc E) (fst s)" using assms(2) h2(2) b(1) unfolding file_law_def by blast
        ultimately show ?thesis by (simp add: drive_step_def)
      qed
      moreover have "h' @ [EvExt (EvRemoveAll dir)] = h @ ?gs" by (simp add: es(1) h2_def h1_def)
      ultimately show "staged E d0 f n s h r (h' @ [EvExt (EvRemoveAll dir)])" using c True unfolding staged_def by metis
    qed
    then show ?thesis using True by (simp add: wp_funs h2_def)
  qed
  show ?thesis unfolding unf by (rule wp_compressed) (rule tail)
qed

abbreviation drive_snapshot :: "host \<Rightarrow> string \<Rightarrow> string \<Rightarrow> string \<Rightarrow> string \<Rightarrow> string \<Rightarrow> string \<Rightarrow> string \<Rightarrow> int res prog" where
  "drive_snapshot E cid engine dbName user password f name \<equiv>
     streamSnapshot E (ExecDatabaseDump E cid engine dbName user password) (DestGDrive f) name"

lemma snapshot_sole:
  assumes "drive_law E d0 f" "file_law E" "distinct (map fst (drive_files d0 h))"
    and "result (drive_snapshot E cid en dn us pw f n) h = Inr sz"
    and "deletes_done (events (drive_snapshot E cid en dn us pw f n) h)"
  shows "\<exists>x. dump_complete x (events (drive_snapshot E cid en dn us pw f n) h) \<and>
    sole f n (Gzip (svc E) x) (drive_files d0 (final_hist (drive_snapshot E cid en dn us pw f n) h))"
proof -
  let ?D = "ExecDatabaseDump E cid en dn us pw"
  let ?S = "drive_snapshot E cid en dn us pw f n"
  have "does ?D (\<lambda>r es. (\<forall>s. r = Inr s \<longrightarrow> snd s = None \<longrightarrow> dump_complete (fst s) es) \<and> list_all bystander es)"
    using does_conj [OF ExecDatabaseDump_does bystander_calls(7) [unfolded does_emits]] .
  then obtain es1 where es1: "final_hist ?D h = h @ es1" "list_all bystander es1"
      "\<And>s. result ?D h = Inr s \<Longrightarrow> snd s = None \<Longrightarrow> dump_complete (fst s) es1"
    unfolding does_def by blast
  have d1: "drive_files d0 (h @ es1) = drive_files d0 h"
    using es1(2) by (induction es1 rule: rev_induct) (auto simp: bystander_drive)
  have S: "result ?S h = (case result ?D h of Inl e \<Rightarrow> Inl e | Inr s \<Rightarrow> result (stageAndUpload E s (DestGDrive f) n) (h @ es1))"
      "final_hist ?S h = (case result ?D h of Inl e \<Rightarrow> h @ es1 | Inr s \<Rightarrow> final_hist (stageAndUpload E s (DestGDrive f) n) (h @ es1))"
    using es1(1) by (auto simp: streamSnapshot_def result_def final_hist_def can_stream_def split: prod.splits sum.splits)
  then obtain s where s: "result ?D h = Inr s" using assms(4) by (cases "result ?D h") auto
  have r: "result (stageAndUpload E s (DestGDrive f) n) (h @ es1) = Inr sz" using S(1) s assms(4) by simp
  have fh: "final_hist ?S h = final_hist (stageAndUpload E s (DestGDrive f) n) (h @ es1)" using S(2) s by simp
  have "wp (stageAndUpload E s (DestGDrive f) n) (staged E d0 f n s (h @ es1)) (h @ es1)"
    by (rule stage_sole [OF assms(1,2)]) (simp only: d1 assms(3))
  then obtain es2 where es2: "final_hist ?S h = (h @ es1) @ es2"
      "deletes_done es2 \<Longrightarrow> snd s = None \<and> sole f n (Gzip (svc E) (fst s)) (drive_files d0 (final_hist ?S h))"
    using r unfolding fh wp_result staged_def by auto
  then have e: "events ?S h = es1 @ es2" by (simp add: events_def)
  with assms(5) es2(2) es1(3) [OF s] show ?thesis unfolding e by (intro exI [of _ "fst s"]) auto
qed

section \<open>A restore that is reported\<close>

definition reports_restored :: "event \<Rightarrow> bool" where
  "reports_restored e = (case e of
     EvSend True m \<Rightarrow> om_Type m = ''db_restore_status'' \<and> map_of (om_Payload m) ''status'' = Some (JStr ''completed'')
   | _ \<Rightarrow> False)"

definition fed :: "event list \<Rightarrow> bool" where
  "fed es = ((\<exists>e\<in>set es. reports_restored e) \<longrightarrow> (\<exists>i s k. EvExt (EvExecInput i s (k, None)) \<in> set es))"

lemma fed_append: "fed es \<Longrightarrow> fed fs \<Longrightarrow> fed (es @ fs)"
  by (auto simp: fed_def)

lemma does_fed_bind: "does m (\<lambda>_. fed) \<Longrightarrow> (\<And>x. does (f x) (\<lambda>_. fed)) \<Longrightarrow> does (State_Monad.bind m f) (\<lambda>_. fed)"
  by (erule does_bind) (metis (no_types, lifting) does_mono fed_append)

definition no_report :: "event \<Rightarrow> bool" where
  "no_report e = (\<not> reports_restored e)"

lemma does_fed: "emits no_report m \<Longrightarrow> does m (\<lambda>_. fed)"
  by (erule does_emitsI) (auto simp: fed_def no_report_def list_all_iff)

lemma no_report_simps [simp]:
  "no_report (EvExt x)" "no_report (EvList n l)" "no_report (EvSend False m)"
  by (simp_all add: no_report_def reports_restored_def)

lemma reply_reports:
  "map_of fs ''status'' \<noteq> Some (JStr ''completed'') \<Longrightarrow> map_of fs ''status'' \<noteq> None \<Longrightarrow> idField \<noteq> ''status'' \<Longrightarrow>
   emits no_report (snap_reply ctx env t idField sid name fs)"
  unfolding snap_reply_def sendDbReply_def wsSendReliable_def
  by (intro emits_intros)
    (auto simp: no_report_def reports_restored_def db_reply_lookup split: option.splits)

lemma no_report_calls:
  "emits no_report (sendLifecycleLog ctx n ev m)" "emits no_report (FindContainerByName E n)" "emits no_report (NewDestination E ty cfg)"
  "emits no_report (db_failed ctx env n a j)" "emits no_report (snap_failed ctx env t ''restore_id'' sid n j)" "emits no_report (dest_Download E d r l)"
proof -
  show "emits no_report (FindContainerByName E n)" by (auto simp: client_ops intro!: emits_intros)
  show "emits no_report (NewDestination E ty cfg)"
    unfolding NewDestination_def newGDriveDestination_def Let_def by (intro emits_intros) simp_all
  show "emits no_report (db_failed ctx env n a j)"
    unfolding db_failed_def db_status_def sendDbReply_def wsSendReliable_def
    by (intro emits_intros) (auto simp: no_report_def reports_restored_def)
  show "emits no_report (snap_failed ctx env t ''restore_id'' sid n j)"
    unfolding snap_failed_def by (rule reply_reports) simp_all
  have plain: "plain_request e \<Longrightarrow> no_report e" for e by (auto simp: plain_request_def split: event.splits)
  show "emits no_report (dest_Download E d r l)"
    by (cases d; auto simp: dest_Download_def smbclient_def Let_def
        intro!: emits_intros emits_cloud [THEN emits_mono, OF plain] split: option.splits)
qed (auto simp: sendLifecycleLog_def wsSend_def intro!: emits_intros)

lemmas fed_calls = no_report_calls [THEN does_fed]

lemma run_restore_fed: "does (run_restore E ctx env sid name tmp cid) (\<lambda>_. fed)"
proof -
  have told: "does (do { sendLifecycleLog ctx name ''db_restore'' g; snap_reply ctx env t ''restore_id'' sid name fs })
      (\<lambda>r fs. fed (es @ fs))" if "\<exists>i s k. EvExt (EvExecInput i s (k, None)) \<in> set es" for es g t fs
    unfolding snap_reply_def sendDbReply_def wsSendReliable_def sendLifecycleLog_def wsSend_def
    by (intro does_intros) (use that in \<open>auto simp: fed_def\<close>)
  have failed: "does (do { sendLifecycleLog ctx name ''db_restore'' g; snap_failed ctx env ''db_restore_status'' ''restore_id'' sid name j })
      (\<lambda>r fs. fed (es @ fs))" if "fed es" for es g j
    by (rule does_mono [OF does_fed_bind [OF fed_calls(1) fed_calls(5)]]) (use that in \<open>auto intro: fed_append\<close>)
  have exec: "does (ExecDatabaseRestore E c en dn us pw input) (\<lambda>r es. restored_whole input r es \<and> fed es)" for c en dn us pw input
  proof (rule does_conj [OF restore_does does_fed])
    show "emits no_report (ExecDatabaseRestore E c en dn us pw input)"
      unfolding ExecDatabaseRestore_def exec_start_def exec_output_def exec_inspect_def by (intro emits_intros) simp_all
  qed
  have body: "does (do { r \<leftarrow> ExecDatabaseRestore E c en dn us pw input;
       (case r of
          Some e \<Rightarrow> do { sendLifecycleLog ctx name ''db_restore'' (Fmt ''restore failed: %v'' [FE e]);
            snap_failed ctx env ''db_restore_status'' ''restore_id'' sid name (JText (Fmt ''restore failed: %v'' [FE e])) }
        | None \<Rightarrow> do { sendLifecycleLog ctx name ''db_restore'' (Fmt ''database restore completed'' []);
            snap_reply ctx env ''db_restore_status'' ''restore_id'' sid name [(''status'', JStr ''completed'')] }) }) (\<lambda>_. fed)"
    for c en dn us pw input
    by (rule does_bind [OF exec]) (auto simp: restored_whole_def intro!: told failed split: option.split)
  show ?thesis
    unfolding run_restore_def Let_def
    by (intro does_fed_bind [OF fed_calls(1)] does_fed_bind [OF does_fed] does_case_sum body fed_calls) (auto intro: emits_intros)
qed

lemma handle_restore_fed: "does (handle_db_restore E ctx env) (\<lambda>_. fed)"
proof -
  have lookup: "does (db_lookup E ctx env name a absent body) (\<lambda>_. fed)"
    if "does absent (\<lambda>_. fed)" "\<And>cid. does (body cid) (\<lambda>_. fed)" for name a absent body
    unfolding db_lookup_def
    by (intro does_fed_bind [OF fed_calls(1)] does_fed_bind [OF fed_calls(2)] does_case_sum does_if that fed_calls)
  have fetch: "does (fetch_and_restore E ctx env sid name) (\<lambda>_. fed)" for sid name
    unfolding fetch_and_restore_def Let_def
    by (intro does_case_prod does_fed_bind [OF fed_calls(1)] does_fed_bind [OF fed_calls(3)] does_fed_bind [OF fed_calls(6)]
        does_fed_bind [OF does_fed] does_case_sum does_case_option does_fed_bind lookup run_restore_fed fed_calls does_fed emits_intros) simp_all
  show ?thesis
    unfolding handle_db_restore_def pooled_def snap_checked_def Let_def
    by (intro does_fed_bind does_if fetch fed_calls does_fed emits_emit reply_reports) simp_all
qed

section \<open>A drive that keeps its files, for the witness\<close>

definition chain_host :: "drive \<Rightarrow> string \<Rightarrow> host" where
  "chain_host d0 f = (let c = cloud (svc (page_host d0 f)) in
     calm_host\<lparr>ContainerList := (\<lambda>_ _. Inr [\<lparr>ct_ID = ''0123456789ab'', ct_Names = [''/db''], ct_Labels = [], ct_Ports = [],
         ct_State = ''running'', ct_Status = [], ct_Networks = [], ct_Image = ''img'', ct_Created = 0\<rparr>]),
       svc := calm_services\<lparr>cloud := c, Gzip := (\<lambda>b. [CHR 0x1F, CHR 0x8B] @ b), Gunzip := (\<lambda>b. Inr (drop 2 b, None)),
         ExecOutput := (\<lambda>_ _. ((''SQL'', None), [])),
         ReadFile := (\<lambda>h p. case file_at p h of Some b \<Rightarrow> Inr b | None \<Rightarrow> Inl (Fmt ''no such file'' []))\<rparr>\<rparr>)"

lemma chain_cloud: "cloud (svc (chain_host d0 f)) = cloud (svc (page_host d0 f))"
  by (simp add: chain_host_def Let_def)

lemma chain_laws: "drive_law (chain_host d0 f) d0 f" "gzip_law (chain_host d0 f)" "file_law (chain_host d0 f)"
proof -
  show "drive_law (chain_host d0 f) d0 f" using page_host_law [of d0 f] by (simp add: drive_law_def pages_law_def chain_cloud)
  show "gzip_law (chain_host d0 f)" by (simp add: gzip_law_def chain_host_def gzip_magic_def Let_def)
  show "file_law (chain_host d0 f)" by (simp add: file_law_def chain_host_def Let_def)
qed

lemma chain_snapshot:
  "result (drive_snapshot (chain_host twice ''dir'') ''0123456789ab'' ''postgres'' ''app'' ''u'' ''p'' ''dir'' ''db.gz'') [] = Inr 0"
  "deletes_done (events (drive_snapshot (chain_host twice ''dir'') ''0123456789ab'' ''postgres'' ''app'' ''u'' ''p'' ''dir'' ''db.gz'') [])"
  by (simp_all add: streamSnapshot_def ExecDatabaseDump_def dump_command_def exec_start_def dump_stream_def exec_output_def
      exec_inspect_def compressed_def stageAndUpload_def can_stream_def dest_Upload_def chain_host_def drive_run deletes_done_def file_step_def drive_step_def)

definition chain_env :: Envelope where
  "chain_env = \<lparr>e_Type = ''db_restore'', e_CommandID = ''c1'', e_RequestID = [], e_TraceID = [], e_Payload =
     [(''container_name'', JStr ''db''), (''engine'', JStr ''postgres''), (''database_name'', JStr ''app''),
      (''filename'', JStr ''db.gz''), (''backup_destination'', JObj [(''type'', JStr ''google_drive''),
        (''config'', JObj [(''client_id'', JStr ''i''), (''client_secret'', JStr ''s''), (''refresh_token'', JStr ''r''), (''folder_id'', JStr ''dir'')])])]\<rparr>"

lemma chain_payload: "drive_payload (e_Payload chain_env) ''dir'' ''db.gz''"
  by (simp add: drive_payload_def chain_env_def backupDestinationFrom_def payloadNested_def pobj_def pstr_def)

end
