(* ===== verification/Host_Commands.thy ===== *)
theory Host_Commands
  imports Container_Commands
begin

text \<open>
  The commands on the worker itself (main.go): reboot_os with its cooldown and upgrade_runner,
  which downloads a script, checks its hash and runs it. Programs are run through the host's
  \<open>RunCommand\<close>, and SHA-256 is its \<open>Sha256Hex\<close>. The reports to Monitor are not modelled.
\<close>

section \<open>Rebooting\<close>

text \<open>
  The critical section of reboot_os on \<open>lastRebootTime\<close> (in seconds; \<open>None\<close> is the zero time,
  which is longer ago than any cooldown).
\<close>

definition reboot_admit :: "int \<Rightarrow> int option \<Rightarrow> bool \<times> int option" where
  "reboot_admit now lastRebootTime = (case lastRebootTime of
     Some t \<Rightarrow> if now - t < 5 * 60 then (False, Some t) else (True, Some now)
   | None \<Rightarrow> (True, Some now))"

definition reboot_body :: "host \<Rightarrow> cmdctx \<Rightarrow> bool \<Rightarrow> unit prog" where
  "reboot_body E ctx ok =
     (if \<not> ok then action_status ctx ''reboot_os'' ''failed''
        (JStr ''reboot rejected: minimum 5 minutes between reboot commands'')
      else do {
        action_status ctx ''reboot_os'' ''accepted'' (JStr ''system will reboot momentarily'');
        emit (EvSleep 1000);
        request (\<lambda>h. RunCommand (svc E) h [''sudo'', ''reboot''] []) (\<lambda>r. EvExt (EvRun [''sudo'', ''reboot''] [] r));
        ret ()
      })"

definition handle_reboot_os :: "host \<Rightarrow> cmdctx \<Rightarrow> int \<Rightarrow> int option \<Rightarrow> unit prog \<times> int option" where
  "handle_reboot_os E ctx now lastRebootTime =
     (let (ok, l) = reboot_admit now lastRebootTime in (reboot_body E ctx ok, l))"

text \<open>The commands of a run, at the times their critical sections are entered: which reboot.\<close>

fun reboot_times :: "int option \<Rightarrow> int list \<Rightarrow> int list" where
  "reboot_times l [] = []"
| "reboot_times l (t # ts) = (let (ok, l') = reboot_admit t l in (if ok then [t] else []) @ reboot_times l' ts)"

section \<open>Upgrading\<close>

text \<open>\<open>strings.Replace(s, old, new, 1)\<close>.\<close>

definition Replace1 :: "string \<Rightarrow> string \<Rightarrow> string \<Rightarrow> string" where
  "Replace1 s old new = (case Index s old of None \<Rightarrow> s | Some i \<Rightarrow> take i s @ new @ drop (i + length old) s)"

definition outputTail :: "string \<Rightarrow> nat \<Rightarrow> string" where
  "outputTail b n = (if length b > n then drop (length b - n) b else b)"

definition upgrade_base :: "string \<Rightarrow> string" where
  "upgrade_base url =
     TrimSuffix (TrimSuffix (Replace1 (Replace1 url ''ws://'' ''http://'') ''wss://'' ''https://'') ''/ws/worker'') ''/ws''"

text \<open>An error with the output of the program that failed, when it printed something.\<close>

definition with_output :: "string \<Rightarrow> goerr \<Rightarrow> string \<Rightarrow> gotext" where
  "with_output what e out = (if out \<noteq> [] then Fmt (what @ '': %v'' @ [CHR 0x0A] @ ''%s'') [FE e, FS out]
     else Fmt (what @ '': %v'') [FE e])"

definition upgrade_failed :: "cmdctx \<Rightarrow> json \<Rightarrow> unit prog" where
  "upgrade_failed ctx m = action_status ctx ''upgrade_runner'' ''failed'' m"

definition run_program :: "host \<Rightarrow> string list \<Rightarrow> (goerr option \<times> string) prog" where
  "run_program E argv = request (\<lambda>h. RunCommand (svc E) h argv []) (\<lambda>r. EvExt (EvRun argv [] r))"

definition run_verified :: "host \<Rightarrow> cmdctx \<Rightarrow> string \<Rightarrow> unit prog" where
  "run_verified E ctx tmpFile = do {
     request (\<lambda>h. Chmod (svc E) h tmpFile) (\<lambda>r. EvExt (EvChmod tmpFile r));
     r \<leftarrow> run_program E [''bash'', tmpFile];
     (case fst r of
        Some e \<Rightarrow> upgrade_failed ctx (JText (with_output ''upgrade failed'' e (outputTail (snd r) 1000)))
      | None \<Rightarrow> action_status ctx ''upgrade_runner'' ''success'' (JStr ''upgrade completed, runner will restart via systemd''))
   }"

definition fetch_and_verify :: "host \<Rightarrow> cmdctx \<Rightarrow> string \<Rightarrow> string \<Rightarrow> string \<Rightarrow> unit prog" where
  "fetch_and_verify E ctx expectedHash upgradeURL tmpFile = do {
     d \<leftarrow> run_program E [''curl'', ''-fsSL'', ''-o'', tmpFile, upgradeURL];
     (case fst d of
        Some e \<Rightarrow> upgrade_failed ctx (JText (with_output ''upgrade download failed'' e (outputTail (snd d) 1000)))
      | None \<Rightarrow> do {
          f \<leftarrow> request (\<lambda>h. ReadFile (svc E) h tmpFile) (\<lambda>r. EvExt (EvReadFile tmpFile r));
          (case f of
             Inl e \<Rightarrow> upgrade_failed ctx (JStr ''failed to read downloaded upgrade script'')
           | Inr script \<Rightarrow>
               if Sha256Hex (svc E) script \<noteq> expectedHash
               then upgrade_failed ctx (JStr ''upgrade aborted: script integrity check failed (hash mismatch)'')
               else run_verified E ctx tmpFile)
        })
   }"

definition handle_upgrade_runner :: "host \<Rightarrow> cmdctx \<Rightarrow> string \<Rightarrow> Envelope \<Rightarrow> unit prog" where
  "handle_upgrade_runner E ctx orchestratorURL env = do {
     action_status ctx ''upgrade_runner'' ''accepted'' (JStr ''starting runner upgrade'');
     (let expectedHash = pstr (e_Payload env) ''expected_hash'' in
      if expectedHash = []
      then upgrade_failed ctx (JStr ''upgrade aborted: no expected_hash provided; refusing to run an unverified upgrade script'')
      else do {
        now \<leftarrow> observe (UnixNano E);
        t \<leftarrow> request (\<lambda>h. MkdirTemp (svc E) h ''lattice-upgrade-*'') (\<lambda>r. EvExt (EvMkdirTemp ''lattice-upgrade-*'' r));
        (case t of
           Inl e \<Rightarrow> upgrade_failed ctx (JText (Fmt ''failed to create temp dir: %v'' [FE e]))
         | Inr dir \<Rightarrow> do {
             fetch_and_verify E ctx expectedHash
               (upgrade_base orchestratorURL @ ''/install/runner?t='' @ Itoa (now div 1000000000)) (dir @ ''/upgrade.sh'');
             emit (EvExt (EvRemoveAll dir))
           })
      })
   }"

section \<open>Reboots keep their distance\<close>

lemma reboot_times_after: "x \<in> set (reboot_times l ts) \<Longrightarrow> x \<in> set ts"
  by (induction l ts rule: reboot_times.induct) (auto simp: Let_def split: prod.splits if_splits)

lemma reboot_times_gap:
  "sorted ts \<Longrightarrow> (case l of Some t \<Rightarrow> \<forall>x\<in>set ts. t \<le> x | None \<Rightarrow> True) \<Longrightarrow>
   sorted_wrt (\<lambda>a b. b - a \<ge> 300) (reboot_times l ts) \<and>
   (case l of Some t \<Rightarrow> \<forall>x\<in>set (reboot_times l ts). x - t \<ge> 300 | None \<Rightarrow> True)"
proof (induction l ts rule: reboot_times.induct)
  case (2 l t ts)
  obtain ok l' where a: "reboot_admit t l = (ok, l')" by fastforce
  have "case l' of Some u \<Rightarrow> \<forall>x\<in>set ts. u \<le> x | None \<Rightarrow> True"
    using a 2(2,3) by (auto simp: reboot_admit_def split: option.splits if_splits)
  with 2 a have "sorted_wrt (\<lambda>a b. b - a \<ge> 300) (reboot_times l' ts) \<and>
     (case l' of Some t \<Rightarrow> \<forall>x\<in>set (reboot_times l' ts). x - t \<ge> 300 | None \<Rightarrow> True)" by simp
  then show ?case using a 2(2,3) reboot_times_after [of _ l' ts]
    by (fastforce simp: reboot_admit_def Let_def split: option.splits if_splits)
qed (simp split: option.splits)

text \<open>
  Whatever the commands, two accepted reboots are at least five minutes apart on a clock that
  does not run backwards.
\<close>

lemma reboots_keep_distance: "sorted ts \<Longrightarrow> sorted_wrt (\<lambda>a b. b - a \<ge> 300) (reboot_times None ts)"
  using reboot_times_gap [of ts None] by simp

section \<open>Only a verified script is run\<close>

text \<open>
  The monitor of an upgrade: the contents last read of each file. A program may be run only
  if a hash was given, and \<open>bash\<close> only on a file whose contents, as read, have that hash.
\<close>

definition up_nxt :: "(string \<times> string) list \<Rightarrow> event \<Rightarrow> (string \<times> string) list" where
  "up_nxt s e = (case e of
     EvExt (EvReadFile f (Inr b)) \<Rightarrow> (f, b) # s
   | EvExt (EvRun (c # args) env r) \<Rightarrow> if c = ''curl'' then [] else s
   | _ \<Rightarrow> s)"

definition up_ok :: "host \<Rightarrow> string \<Rightarrow> (string \<times> string) list \<Rightarrow> event \<Rightarrow> bool" where
  "up_ok E expected s e = (case e of
     EvExt (EvRun argv env r) \<Rightarrow> expected \<noteq> [] \<and>
       (hd argv = ''curl'' \<or> (\<exists>f b. argv = [''bash'', f] \<and> map_of s f = Some b \<and> Sha256Hex (svc E) b = expected))
   | EvExt (EvChmod f r) \<Rightarrow> expected \<noteq> []
   | _ \<Rightarrow> True)"

abbreviation upgrades :: "host \<Rightarrow> string \<Rightarrow> (string \<times> string) list \<Rightarrow> 'a prog \<Rightarrow> ('a \<Rightarrow> (string \<times> string) list \<Rightarrow> bool) \<Rightarrow> bool" where
  "upgrades E expected \<equiv> track (up_ok E expected) up_nxt"

lemma up_send [simp]: "up_nxt s (EvSend b m) = s" "up_ok E x s (EvSend b m)"
  by (simp_all add: up_nxt_def up_ok_def)

lemma upgrades_status: "Q () s \<Longrightarrow> upgrades E x s (action_status ctx a st m) Q"
  unfolding action_status_def worker_status_def wsSend_def by (intro track_intros) simp_all

lemma upgrades_then: "(\<And>u. upgrades E x s (f u) Q) \<Longrightarrow> upgrades E x s (State_Monad.bind (action_status ctx a st m) f) Q"
  by (rule track_bind [OF upgrades_status [where Q = "\<lambda>_ t. t = s"]]) simp_all

lemma upgrades_run: "upgrades E (pstr (e_Payload env) ''expected_hash'') [] (handle_upgrade_runner E ctx url env) (\<lambda>_ _. True)"
  unfolding handle_upgrade_runner_def fetch_and_verify_def run_verified_def run_program_def upgrade_failed_def Let_def
  by (intro upgrades_then track_intros upgrades_status) (auto simp: up_nxt_def up_ok_def)

section \<open>Properties\<close>

text \<open>
  C29: an upgrade runs nothing that was not verified. No program is started unless the command
  carries an expected hash, and the downloaded script is run only after its contents have been
  read back, since the download, with exactly that SHA-256; whatever the server, the file
  system and the script do.
\<close>

theorem upgrade_runs_verified:
  "accepted (up_ok E (pstr (e_Payload env) ''expected_hash'')) up_nxt []
     (events (handle_upgrade_runner E ctx url env) h)"
  using track_events [OF upgrades_run] by blast

end
