(* ===== verification/Exec_Sessions.thy ===== *)
theory Exec_Sessions
  imports Container_Commands Transitions
begin

text \<open>
  Interactive sessions in a container (main.go, exec_start, exec_input, exec_resize,
  exec_close, and the cleanup of old sessions). Input and output travel as base64 text
  (\<open>base64.StdEncoding\<close>). The table of sessions and the goroutines that read the output of
  an exec are the step relation \<open>xstep\<close>; a reader is either about to look at its context or
  blocked in a read.
\<close>

section \<open>Base64\<close>

definition b64_alphabet :: string where
  "b64_alphabet = ''ABCDEFGHIJKLMNOPQRSTUVWXYZabcdefghijklmnopqrstuvwxyz0123456789+/''"

definition b64_char :: "nat \<Rightarrow> char" where
  "b64_char v = b64_alphabet ! (v mod 64)"

fun EncodeToString :: "string \<Rightarrow> string" where
  "EncodeToString [] = []"
| "EncodeToString [x] = (let a = of_char x in [b64_char (a div 4), b64_char (a mod 4 * 16), CHR ''='', CHR ''=''])"
| "EncodeToString [x, y] = (let a = of_char x; b = of_char y in
     [b64_char (a div 4), b64_char (a mod 4 * 16 + b div 16), b64_char (b mod 16 * 4), CHR ''=''])"
| "EncodeToString (x # y # z # r) = (let a = of_char x; b = of_char y; c = of_char z in
     [b64_char (a div 4), b64_char (a mod 4 * 16 + b div 16), b64_char (b mod 16 * 4 + c div 64), b64_char (c mod 64)] @
     EncodeToString r)"

fun b64_index :: "string \<Rightarrow> char \<Rightarrow> nat option" where
  "b64_index [] c = None"
| "b64_index (x # xs) c = (if x = c then Some 0 else map_option Suc (b64_index xs c))"

definition b64_val :: "char \<Rightarrow> nat option" where
  "b64_val c = b64_index b64_alphabet c"

text \<open>The decoder skips line breaks and wants full groups of four, the last one padded.\<close>

fun decode_groups :: "string \<Rightarrow> string option" where
  "decode_groups [] = Some []"
| "decode_groups (p # q # r # s # rest) =
     (case (b64_val p, b64_val q) of
        (Some a, Some b) \<Rightarrow>
          if r = CHR ''='' then (if s = CHR ''='' \<and> rest = [] then Some [char_of (a * 4 + b div 16)] else None)
          else (case b64_val r of
              None \<Rightarrow> None
            | Some c \<Rightarrow>
                if s = CHR ''='' then (if rest = [] then Some [char_of (a * 4 + b div 16), char_of (b mod 16 * 16 + c div 4)] else None)
                else (case b64_val s of
                    None \<Rightarrow> None
                  | Some d \<Rightarrow> map_option (\<lambda>t. char_of (a * 4 + b div 16) # char_of (b mod 16 * 16 + c div 4) #
                      char_of (c mod 4 * 64 + d) # t) (decode_groups rest)))
      | _ \<Rightarrow> None)"
| "decode_groups _ = None"

definition DecodeString :: "string \<Rightarrow> string option" where
  "DecodeString s = decode_groups (filter (\<lambda>c. c \<noteq> CHR 0x0A \<and> c \<noteq> CHR 0x0D) s)"

section \<open>The handlers\<close>

definition exec_output_msg :: "cmdctx \<Rightarrow> string \<Rightarrow> string \<times> json \<Rightarrow> unit prog" where
  "exec_output_msg ctx cmdID kv = wsSendReliable ctx (msg ''exec_output'' [(''command_id'', JStr cmdID), kv])"

definition exec_cmd :: "payload \<Rightarrow> string list" where
  "exec_cmd p = (if pstr p ''cmd'' \<noteq> [] then [pstr p ''cmd''] else [''/bin/sh''])"

definition ContainerExecCreate :: "host \<Rightarrow> string \<Rightarrow> string list \<Rightarrow> string res prog" where
  "ContainerExecCreate E cid cmd = do {
     r \<leftarrow> request (\<lambda>h. ExecCreate (svc E) h cid cmd []) (\<lambda>r. EvExt (EvExecCreate cid cmd [] r));
     ret (case r of Inl e \<Rightarrow> Inl (Fmt ''exec create: %w'' [FE e]) | Inr x \<Rightarrow> Inr x)
   }"

definition ContainerExecAttach :: "host \<Rightarrow> string \<Rightarrow> goerr option prog" where
  "ContainerExecAttach E x = request (\<lambda>h. ExecAttach (svc E) h x) (\<lambda>r. EvExt (EvExecAttach x r))"

definition ContainerExecResize :: "host \<Rightarrow> string \<Rightarrow> nat \<Rightarrow> nat \<Rightarrow> goerr option prog" where
  "ContainerExecResize E x height width =
     request (\<lambda>h. ExecResize (svc E) h x height width) (\<lambda>r. EvExt (EvExecResize x height width r))"

text \<open>exec_start up to the session it registers: the exec it is attached to, if any.\<close>

definition exec_open :: "host \<Rightarrow> cmdctx \<Rightarrow> Envelope \<Rightarrow> string option prog" where
  "exec_open E ctx env =
     (let name = pstr (e_Payload env) ''container_name''; cmdID = e_CommandID env in
      if name = [] \<or> cmdID = [] then ret None
      else if \<not> validContainerName name then ret None
      else do {
        r \<leftarrow> FindContainerByName E name;
        (case r of
           Inl e \<Rightarrow> do { exec_output_msg ctx cmdID (''error'', JStr ''container not found''); ret None }
         | Inr cid \<Rightarrow> if cid = [] then do { exec_output_msg ctx cmdID (''error'', JStr ''container not found''); ret None }
             else do {
               c \<leftarrow> ContainerExecCreate E cid (exec_cmd (e_Payload env));
               (case c of
                  Inl e \<Rightarrow> do { exec_output_msg ctx cmdID (''error'', JText (Fmt ''exec create failed: %v'' [FE e])); ret None }
                | Inr x \<Rightarrow> do {
                    a \<leftarrow> ContainerExecAttach E x;
                    (case a of
                       Some e \<Rightarrow> do { exec_output_msg ctx cmdID (''error'', JText (Fmt ''exec attach failed: %v'' [FE e])); ret None }
                     | None \<Rightarrow> ret (Some x))
                  })
             })
      })"

text \<open>
  A session in the table: its exec, the number of its reader (whose context \<open>cancel\<close>
  cancels), and the time it was created.
\<close>

record execSession =
  xs_execID :: string
  xs_reader :: nat
  xs_createdAt :: int

type_synonym exectable = "(string \<times> execSession) list"

definition exec_input :: "host \<Rightarrow> Envelope \<Rightarrow> exectable \<Rightarrow> unit prog" where
  "exec_input E env tb =
     (let cmdID = e_CommandID env; dataB64 = pstr (e_Payload env) ''data'' in
      if cmdID = [] \<or> dataB64 = [] then ret ()
      else case map_of tb cmdID of
        None \<Rightarrow> ret ()
      | Some s \<Rightarrow> (case DecodeString dataB64 of
          None \<Rightarrow> ret ()
        | Some d \<Rightarrow> do {
            request (\<lambda>h. ExecInput (svc E) h (xs_execID s) (d, None)) (\<lambda>r. EvExt (EvExecInput (xs_execID s) (d, None) r));
            ret ()
          }))"

definition exec_resize :: "host \<Rightarrow> Envelope \<Rightarrow> exectable \<Rightarrow> unit prog" where
  "exec_resize E env tb =
     (let p = e_Payload env in
      if e_CommandID env = [] then ret ()
      else case map_of tb (e_CommandID env) of
        None \<Rightarrow> ret ()
      | Some s \<Rightarrow> do {
          ContainerExecResize E (xs_execID s) (nat (go_trunc (pnum p ''height''))) (nat (go_trunc (pnum p ''width'')));
          ret ()
        })"

text \<open>The reader whose context exec_close cancels.\<close>

definition exec_close :: "Envelope \<Rightarrow> exectable \<Rightarrow> nat option" where
  "exec_close env tb = (if e_CommandID env = [] then None else map_option xs_reader (map_of tb (e_CommandID env)))"

definition old_session :: "int \<Rightarrow> execSession \<Rightarrow> bool" where
  "old_session now s = (now - xs_createdAt s > 30 * 60)"

text \<open>What a read of the exec's output makes the reader send, and whether it goes on.\<close>

definition reader_round :: "cmdctx \<Rightarrow> string \<Rightarrow> string \<times> goerr option \<Rightarrow> unit prog \<times> bool" where
  "reader_round ctx cmdID r =
     (if fst r \<noteq> [] then exec_output_msg ctx cmdID (''data'', JStr (EncodeToString (fst r))) else ret (), snd r = None)"

text \<open>The deferred end of a reader: the connection is closed, the entry deleted, the end announced.\<close>

definition reader_end :: "cmdctx \<Rightarrow> string \<Rightarrow> string \<Rightarrow> unit prog" where
  "reader_end ctx cmdID x = do { emit (EvExt (EvExecClose x)); exec_output_msg ctx cmdID (''closed'', JBool True) }"

section \<open>Sessions and their readers\<close>

text \<open>
  A reader: its number, the command it belongs to, its exec, whether its context is cancelled
  and whether it is blocked in a read. \<open>outbox\<close> is what the readers have done, by reader, and
  \<open>got\<close> the bytes each of them has read. The label of a step is the reader whose read
  returned.
\<close>

record reader =
  rd_id :: nat
  rd_cmd :: string
  rd_exec :: string
  rd_ctx :: cmdctx
  rd_cancelled :: bool
  rd_reading :: bool

record xworld =
  tb :: exectable
  readers :: "reader list"
  nextr :: nat
  outbox :: "(nat \<times> event) list"
  got :: "nat \<Rightarrow> string"

definition cancel_reader :: "nat \<Rightarrow> reader list \<Rightarrow> reader list" where
  "cancel_reader k rs = map (\<lambda>r. if rd_id r = k then r\<lparr>rd_cancelled := True\<rparr> else r) rs"

definition does_by :: "nat \<Rightarrow> unit prog \<Rightarrow> (nat \<times> event) list" where
  "does_by k p = map (Pair k) (events p [])"

definition end_reader :: "reader \<Rightarrow> reader list \<Rightarrow> xworld \<Rightarrow> xworld" where
  "end_reader r rest w = w\<lparr>readers := rest, tb := AList.delete (rd_cmd r) (tb w),
     outbox := outbox w @ does_by (rd_id r) (reader_end (rd_ctx r) (rd_cmd r) (rd_exec r))\<rparr>"

inductive xstep :: "nat option \<Rightarrow> xworld \<Rightarrow> xworld \<Rightarrow> bool" where
  start: "result (exec_open E ctx env) h = Some x \<Longrightarrow>
    xstep None w (w\<lparr>tb := AList.update (e_CommandID env) \<lparr>xs_execID = x, xs_reader = nextr w, xs_createdAt = now\<rparr> (tb w),
      readers := readers w @ [\<lparr>rd_id = nextr w, rd_cmd = e_CommandID env, rd_exec = x, rd_ctx = ctx, rd_cancelled = False,
        rd_reading = False\<rparr>],
      nextr := Suc (nextr w)\<rparr>)"
| look: "readers w = rs @ r # ss \<Longrightarrow> \<not> rd_reading r \<Longrightarrow> \<not> rd_cancelled r \<Longrightarrow>
    xstep None w (w\<lparr>readers := rs @ r\<lparr>rd_reading := True\<rparr> # ss\<rparr>)"
| stop: "readers w = rs @ r # ss \<Longrightarrow> \<not> rd_reading r \<Longrightarrow> rd_cancelled r \<Longrightarrow>
    xstep None w (end_reader r (rs @ ss) w)"
| read_more: "readers w = rs @ r # ss \<Longrightarrow> rd_reading r \<Longrightarrow> reader_round (rd_ctx r) (rd_cmd r) (d, e) = (p, True) \<Longrightarrow>
    xstep (Some (rd_id r)) w (w\<lparr>outbox := outbox w @ does_by (rd_id r) p,
      got := (got w)(rd_id r := got w (rd_id r) @ d), readers := rs @ r\<lparr>rd_reading := False\<rparr> # ss\<rparr>)"
| read_last: "readers w = rs @ r # ss \<Longrightarrow> rd_reading r \<Longrightarrow> reader_round (rd_ctx r) (rd_cmd r) (d, e) = (p, False) \<Longrightarrow>
    xstep (Some (rd_id r)) w (end_reader r (rs @ ss) (w\<lparr>outbox := outbox w @ does_by (rd_id r) p,
      got := (got w)(rd_id r := got w (rd_id r) @ d)\<rparr>))"
| close_session: "exec_close env (tb w) = Some k \<Longrightarrow> xstep None w (w\<lparr>readers := cancel_reader k (readers w)\<rparr>)"
| clean_up: "xstep None w (w\<lparr>readers := fold (\<lambda>(c, s). cancel_reader (xs_reader s)) (filter (\<lambda>(c, s). old_session now s) (tb w)) (readers w),
    tb := filter (\<lambda>(c, s). \<not> old_session now s) (tb w)\<rparr>)"

inductive_cases xstepE: "xstep l w w'"

definition xstart :: "xworld \<Rightarrow> bool" where
  "xstart w = (tb w = [] \<and> readers w = [] \<and> nextr w = 0 \<and> outbox w = [] \<and> got w = (\<lambda>_. []))"

section \<open>What the orchestrator hears is what the exec printed\<close>

definition boxed :: "nat \<Rightarrow> (nat \<times> event) list \<Rightarrow> event list" where
  "boxed k l = map snd (filter (\<lambda>p. fst p = k) l)"

definition data_of :: "event \<Rightarrow> string" where
  "data_of e = (case e of
     EvSend True m \<Rightarrow> (case map_of (om_Payload m) ''data'' of
       Some (JStr s) \<Rightarrow> (case DecodeString s of Some d \<Rightarrow> d | None \<Rightarrow> []) | _ \<Rightarrow> [])
   | _ \<Rightarrow> [])"

definition says_closed :: "event \<Rightarrow> bool" where
  "says_closed e = (case e of EvSend True m \<Rightarrow> map_of (om_Payload m) ''closed'' = Some (JBool True) | _ \<Rightarrow> False)"

lemma b64_index_nth: "distinct xs \<Longrightarrow> i < length xs \<Longrightarrow> b64_index xs (xs ! i) = Some i"
  by (induction xs arbitrary: i) (auto simp: nth_Cons split: nat.splits)

lemma b64_val_char [simp]: "b64_val (b64_char v) = Some (v mod 64)"
proof -
  have d: "distinct b64_alphabet" and l: "length b64_alphabet = 64" by code_simp+
  show ?thesis unfolding b64_val_def b64_char_def by (rule b64_index_nth [OF d]) (simp add: l)
qed

lemma b64_char_set: "b64_char v \<in> set b64_alphabet"
proof -
  have "length b64_alphabet = 64" by code_simp
  then show ?thesis unfolding b64_char_def by simp
qed

lemma b64_char_plain [simp]: "b64_char v \<noteq> CHR ''=''" "b64_char v \<noteq> CHR 0x0A" "b64_char v \<noteq> CHR 0x0D"
proof -
  have "CHR ''='' \<notin> set b64_alphabet" "CHR 0x0A \<notin> set b64_alphabet" "CHR 0x0D \<notin> set b64_alphabet" by code_simp+
  then show "b64_char v \<noteq> CHR ''=''" "b64_char v \<noteq> CHR 0x0A" "b64_char v \<noteq> CHR 0x0D"
    using b64_char_set [of v] by metis+
qed

lemma b64_no_breaks [simp]: "filter (\<lambda>c. c \<noteq> CHR 0x0A \<and> c \<noteq> CHR 0x0D) (EncodeToString s) = EncodeToString s"
  by (induction s rule: EncodeToString.induct) (simp_all add: Let_def)

text \<open>The four values of a group, from the three bytes and back.\<close>

lemma group_values:
  fixes a b c :: nat
  assumes "a < 256" "b < 256" "c < 256"
  shows "a div 4 mod 64 = a div 4" "b div 16 mod 16 = b div 16" "c div 64 mod 4 = c div 64" "(a mod 4 * 16 + b div 16) mod 64 = a mod 4 * 16 + b div 16"
    "(b mod 16 * 4 + c div 64) mod 64 = b mod 16 * 4 + c div 64"
    "(a mod 4 * 16 + b div 16) div 16 = a mod 4" "(a mod 4 * 16 + b div 16) mod 16 = b div 16"
    "(b mod 16 * 4 + c div 64) div 4 = b mod 16" "(b mod 16 * 4 + c div 64) mod 4 = c div 64"
proof -
  have l: "a div 4 < 64" "b div 16 < 16" "c div 64 < 4" "a mod 4 < 4" "b mod 16 < 16" using assms by simp_all
  show "a div 4 mod 64 = a div 4" "b div 16 mod 16 = b div 16" "c div 64 mod 4 = c div 64" using l by simp_all
  show "(a mod 4 * 16 + b div 16) mod 64 = a mod 4 * 16 + b div 16" using l by (intro mod_less) linarith
  show "(b mod 16 * 4 + c div 64) mod 64 = b mod 16 * 4 + c div 64" using l by (intro mod_less) linarith
  show "(a mod 4 * 16 + b div 16) div 16 = a mod 4" "(a mod 4 * 16 + b div 16) mod 16 = b div 16"
    "(b mod 16 * 4 + c div 64) div 4 = b mod 16" "(b mod 16 * 4 + c div 64) mod 4 = c div 64"
    using l by simp_all
qed

lemmas char_groups = group_values [OF nat_of_char_less_256 nat_of_char_less_256 nat_of_char_less_256]

lemma decode_encode: "decode_groups (EncodeToString s) = Some s"
  by (induction s rule: EncodeToString.induct)
    (simp_all add: Let_def char_groups)

lemma DecodeString_encode [simp]: "DecodeString (EncodeToString s) = Some s"
  by (simp add: DecodeString_def decode_encode)

text \<open>Events of a reader: what a round and the end contribute.\<close>

lemma round_events:
  assumes "reader_round ctx c (d, e) = (p, b)"
  shows "concat (map data_of (events p [])) = d" "filter says_closed (events p []) = []" "b \<longleftrightarrow> e = None"
  using assms
  by (auto simp: reader_round_def exec_output_msg_def wsSendReliable_def run_simps data_of_def says_closed_def split: if_splits)

lemma end_events:
  "concat (map data_of (events (reader_end ctx c x) [])) = []" "length (filter says_closed (events (reader_end ctx c x) [])) = 1"
  "events (reader_end ctx c x) [] \<noteq> []" "says_closed (last (events (reader_end ctx c x) []))"
  by (simp_all add: reader_end_def exec_output_msg_def wsSendReliable_def run_simps data_of_def says_closed_def)

lemma boxed_by [simp]: "boxed k (l @ l') = boxed k l @ boxed k l'" "boxed k (does_by j p) = (if j = k then events p [] else [])"
  by (auto simp: boxed_def does_by_def filter_empty_conv comp_def)

text \<open>
  The invariant: readers have different numbers; what a reader sent decodes to what it read,
  and its one closing message is its last and is there exactly when the reader has ended;
  every entry of the table is that of a live reader of its command, with its exec.
\<close>

definition live :: "xworld \<Rightarrow> nat set" where
  "live w = rd_id ` set (readers w)"

definition heard :: "xworld \<Rightarrow> nat \<Rightarrow> bool" where
  "heard w k = (concat (map data_of (boxed k (outbox w))) = got w k \<and>
     length (filter says_closed (boxed k (outbox w))) = (if k \<in> live w then 0 else 1) \<and>
     (k \<in> live w \<or> boxed k (outbox w) \<noteq> [] \<and> says_closed (last (boxed k (outbox w)))))"

definition entry_ok :: "reader list \<Rightarrow> string \<times> execSession \<Rightarrow> bool" where
  "entry_ok rs cs = (\<exists>r\<in>set rs. rd_id r = xs_reader (snd cs) \<and> rd_cmd r = fst cs \<and> rd_exec r = xs_execID (snd cs))"

definition xinv :: "xworld \<Rightarrow> bool" where
  "xinv w = (distinct (map rd_id (readers w)) \<and> live w \<subseteq> {..<nextr w} \<and> fst ` set (outbox w) \<subseteq> {..<nextr w} \<and>
     (\<forall>k\<ge>nextr w. got w k = []) \<and> (\<forall>k<nextr w. heard w k) \<and> (\<forall>cs\<in>set (tb w). entry_ok (readers w) cs))"

lemma boxed_fresh: "fst ` set l \<subseteq> {..<n} \<Longrightarrow> boxed n l = []"
  by (auto simp: boxed_def filter_empty_conv)

lemma does_by_fst: "fst ` set (does_by k p) \<subseteq> {k}"
  by (auto simp: does_by_def)

lemma cancel_keeps: "map rd_id (cancel_reader k rs) = map rd_id rs"
  "entry_ok (cancel_reader k rs) cs = entry_ok rs cs"
proof -
  show "map rd_id (cancel_reader k rs) = map rd_id rs" by (simp add: cancel_reader_def)
  show "entry_ok (cancel_reader k rs) cs = entry_ok rs cs"
    unfolding entry_ok_def cancel_reader_def set_map bex_simps by (intro bex_cong refl) simp
qed

lemma cancels_keep:
  "map rd_id (fold (\<lambda>(c, s). cancel_reader (xs_reader s)) xs rs) = map rd_id rs"
  "entry_ok (fold (\<lambda>(c, s). cancel_reader (xs_reader s)) xs rs) cs = entry_ok rs cs"
  by (induction xs arbitrary: rs) (auto simp: cancel_keeps case_prod_beta)

lemma live_map: "live w = set (map rd_id (readers w))"
  by (simp add: live_def)

text \<open>A change of the readers that keeps who they are.\<close>

lemma xinv_same:
  assumes "xinv w" "map rd_id rs = map rd_id (readers w)" "\<And>cs. entry_ok rs cs = entry_ok (readers w) cs" "set t \<subseteq> set (tb w)"
  shows "xinv (w\<lparr>readers := rs, tb := t\<rparr>)"
proof -
  have "live (w\<lparr>readers := rs, tb := t\<rparr>) = live w" unfolding live_map by (simp add: assms(2))
  with assms show ?thesis by (auto simp: xinv_def heard_def)
qed

lemma xinv_start:
  assumes i: "xinv w"
  shows "xinv (w\<lparr>tb := AList.update c \<lparr>xs_execID = x, xs_reader = nextr w, xs_createdAt = now\<rparr> (tb w),
      readers := readers w @ [\<lparr>rd_id = nextr w, rd_cmd = c, rd_exec = x, rd_ctx = ctx, rd_cancelled = False,
        rd_reading = False\<rparr>], nextr := Suc (nextr w)\<rparr>)" (is "xinv ?w")
proof -
  have l: "live ?w = insert (nextr w) (live w)" and n: "nextr w \<notin> live w"
    using i by (auto simp: live_def xinv_def)
  have h: "heard ?w k" if "k < Suc (nextr w)" for k
  proof (cases "k = nextr w")
    case True
    with i boxed_fresh [of "outbox w" "nextr w"] show ?thesis by (simp add: heard_def l xinv_def)
  next
    case False
    with that i have "heard w k" by (simp add: xinv_def)
    with False show ?thesis by (simp add: heard_def l)
  qed
  have e: "entry_ok (readers ?w) cs" if "cs \<in> set (tb ?w)" for cs
  proof (cases "cs = (c, \<lparr>xs_execID = x, xs_reader = nextr w, xs_createdAt = now\<rparr>)")
    case False
    with that set_alist_update [of c _ "tb w"] have "cs \<in> set (tb w)" by auto
    with i show ?thesis by (auto simp: xinv_def entry_ok_def)
  qed (simp add: entry_ok_def)
  from i l n h e show ?thesis by (auto simp: xinv_def live_def less_Suc_eq)
qed

lemma xinv_read:
  assumes i: "xinv w" and r: "readers w = rs @ r # ss" and p: "reader_round (rd_ctx r) (rd_cmd r) (d, e) = (p, b)"
  shows "xinv (w\<lparr>outbox := outbox w @ does_by (rd_id r) p, got := (got w)(rd_id r := got w (rd_id r) @ d)\<rparr>)" (is "xinv ?w")
proof -
  have k: "rd_id r \<in> live w" "rd_id r < nextr w" using i r by (auto simp: live_def xinv_def)
  have "heard ?w j" if "j < nextr w" for j
  proof -
    have "heard w j" using that i by (simp add: xinv_def)
    with k(1) round_events [OF p] show ?thesis by (auto simp: heard_def boxed_by live_def)
  qed
  with i k does_by_fst [of "rd_id r" p] show ?thesis by (auto simp: xinv_def live_def)
qed

lemma xinv_end:
  assumes i: "xinv w" and r: "readers w = rs @ r # ss"
  shows "xinv (end_reader r (rs @ ss) w)" (is "xinv ?w")
proof -
  have d: "distinct (map rd_id (rs @ r # ss))" using i r by (simp add: xinv_def)
  then have l: "live w = insert (rd_id r) (live ?w)" "rd_id r \<notin> live ?w"
    using r by (auto simp: live_def end_reader_def)
  have k: "rd_id r < nextr w" using i l(1) by (auto simp: xinv_def)
  have h: "heard ?w j" if "j < nextr w" for j
  proof -
    have "heard w j" using that i by (simp add: xinv_def)
    with l end_events show ?thesis by (auto simp: heard_def end_reader_def boxed_by)
  qed
  have e: "entry_ok (readers ?w) cs" if "cs \<in> set (tb ?w)" for cs
    using that i r by (fastforce simp: xinv_def entry_ok_def end_reader_def AList.delete_eq)
  from i r d l h e k does_by_fst show ?thesis by (fastforce simp: xinv_def live_def end_reader_def)
qed

interpretation sessions: guarded_system xstart "\<lambda>w w'. \<exists>l. xstep l w w'" xinv
proof
  show "xstart w \<Longrightarrow> xinv w" for w by (simp add: xstart_def xinv_def live_def)
  show "xinv w'" if i: "xinv w" and "\<exists>l. xstep l w w'" for w w'
  proof -
    from that(2) obtain l where "xstep l w w'" ..
    then show ?thesis
    proof cases
      case start
      then show ?thesis using xinv_start [OF i] by simp
    next
      case (look rs r ss)
      then show ?thesis using xinv_same [OF i, of "rs @ r\<lparr>rd_reading := True\<rparr> # ss" "tb w"] by (simp add: entry_ok_def)
    next
      case (stop rs r ss)
      then show ?thesis using xinv_end [OF i] by simp
    next
      case (read_more rs r ss d e p)
      then show ?thesis using xinv_same [OF xinv_read [OF i], of rs r ss d e p True "rs @ r\<lparr>rd_reading := False\<rparr> # ss" "tb w"]
        by (simp add: entry_ok_def)
    next
      case (read_last rs r ss d e p)
      then show ?thesis using xinv_end [OF xinv_read [OF i]] by simp
    next
      case (close_session env k)
      then show ?thesis using xinv_same [OF i, of "cancel_reader k (readers w)" "tb w"] by (simp add: cancel_keeps)
    next
      case (clean_up now)
      then show ?thesis by (simp add: xinv_same [OF i] cancels_keep)
    qed
  qed
qed

section \<open>Properties\<close>

text \<open>
  C30: an interactive session is reported faithfully. In every reachable state, for every
  session ever started: what the orchestrator decodes from its data messages is exactly what
  was read of the exec, in order; its end is announced exactly once, after all its output, and
  exactly when the reader has ended. Every entry of the table belongs to a live reader of that
  command, so input and resizes never reach the exec of another session.
\<close>

theorem exec_output_faithful:
  assumes "xstart w0" and "(\<lambda>w w'. \<exists>l. xstep l w w')\<^sup>*\<^sup>* w0 w" and "k < nextr w"
  shows "concat (map data_of (boxed k (outbox w))) = got w k \<and>
    length (filter says_closed (boxed k (outbox w))) = (if k \<in> live w then 0 else 1) \<and>
    (k \<notin> live w \<longrightarrow> says_closed (last (boxed k (outbox w)))) \<and>
    (\<forall>c s. map_of (tb w) c = Some s \<longrightarrow>
       (\<exists>r\<in>set (readers w). rd_id r = xs_reader s \<and> rd_cmd r = c \<and> rd_exec r = xs_execID s))"
  using sessions.reachable_inv [OF assms(1,2)] assms(3)
  by (fastforce simp: xinv_def heard_def entry_ok_def dest: map_of_SomeD)

text \<open>A session whose shell prints its prompt.\<close>

definition demo_ctx :: cmdctx where
  "demo_ctx = \<lparr>cx_Command = Some ''c1'', cx_RequestID = [], cx_TraceID = [], cx_JobID = []\<rparr>"

definition demo_env :: "string \<Rightarrow> Envelope" where
  "demo_env t = \<lparr>e_Type = t, e_CommandID = ''c1'', e_RequestID = [], e_TraceID = [],
     e_Payload = [(''container_name'', JStr ''web'')]\<rparr>"

definition web_host :: host where
  "web_host = calm_host\<lparr>ContainerList := \<lambda>_ _. Inr [\<lparr>ct_ID = ''web'', ct_Names = [''/web''], ct_Labels = [], ct_Ports = [],
     ct_State = ''running'', ct_Status = [], ct_Networks = [], ct_Image = ''img'', ct_Created = 0\<rparr>]\<rparr>"

definition demo_reader :: "bool \<Rightarrow> reader" where
  "demo_reader b = \<lparr>rd_id = 0, rd_cmd = ''c1'', rd_exec = ''exec-web'', rd_ctx = demo_ctx, rd_cancelled = False, rd_reading = b\<rparr>"

definition demo_w0 :: xworld where
  "demo_w0 = \<lparr>tb = [], readers = [], nextr = 0, outbox = [], got = \<lambda>_. []\<rparr>"

definition demo_w1 :: xworld where
  "demo_w1 = \<lparr>tb = [(''c1'', \<lparr>xs_execID = ''exec-web'', xs_reader = 0, xs_createdAt = 0\<rparr>)], readers = [demo_reader True],
     nextr = 1, outbox = [], got = \<lambda>_. []\<rparr>"

definition demo_w2 :: xworld where
  "demo_w2 = demo_w1\<lparr>outbox := does_by 0 (fst (reader_round demo_ctx ''c1'' (''$ '', None))),
     got := (\<lambda>_. [])(0 := ''$ ''), readers := [demo_reader False]\<rparr>"

lemma web_name: "validContainerName ''web''" "TrimPrefix ''/web'' ''/'' = ''web''"
  by code_simp+

lemma demo_opened: "result (exec_open web_host demo_ctx (demo_env ''exec_start'')) [] = Some ''exec-web''"
  by (simp add: exec_open_def demo_env_def pstr_def web_host_def client_ops ContainerExecCreate_def ContainerExecAttach_def
      exec_cmd_def run_simps names_of_def calm_host_def calm_services_def Let_def web_name)

lemma exec_demo_run: "xstart demo_w0" "(\<lambda>w w'. \<exists>l. xstep l w w')\<^sup>*\<^sup>* demo_w0 demo_w1" "\<exists>l. xstep l demo_w1 demo_w2"
proof -
  show "xstart demo_w0" by (simp add: xstart_def demo_w0_def)
  let ?w = "demo_w1\<lparr>readers := [demo_reader False]\<rparr>"
  have "xstep None demo_w0 ?w"
    using xstep.start [OF demo_opened, of demo_w0 0]
    by (simp add: demo_w0_def demo_w1_def demo_reader_def demo_env_def)
  moreover have "xstep None ?w demo_w1"
    using xstep.look [of ?w "[]" "demo_reader False" "[]"] by (simp add: demo_w1_def demo_reader_def)
  ultimately show "(\<lambda>w w'. \<exists>l. xstep l w w')\<^sup>*\<^sup>* demo_w0 demo_w1"
    by (intro rtranclp.rtrancl_into_rtrancl [OF r_into_rtranclp, of _ demo_w0 ?w]) blast+
  have "xstep (Some 0) demo_w1 demo_w2"
    using xstep.read_more [of demo_w1 "[]" "demo_reader True" "[]" "''$ ''" None "fst (reader_round demo_ctx ''c1'' (''$ '', None))"]
    by (simp add: demo_w2_def demo_w1_def demo_reader_def reader_round_def)
  then show "\<exists>l. xstep l demo_w1 demo_w2" ..
qed

theorem exec_output_faithful_witness:
  "concat (map data_of (boxed 0 (outbox demo_w2))) = ''$ '' \<and> filter says_closed (boxed 0 (outbox demo_w2)) = []"
proof -
  have "(\<lambda>w w'. \<exists>l. xstep l w w')\<^sup>*\<^sup>* demo_w0 demo_w2" using exec_demo_run(2,3) by (rule rtranclp.rtrancl_into_rtrancl)
  from exec_output_faithful [OF exec_demo_run(1) this, of 0] show ?thesis
    by (simp add: demo_w2_def demo_w1_def live_def demo_reader_def)
qed

section \<open>A blocked read outlives its session\<close>

lemma cancel_reading: "r \<in> set rs \<Longrightarrow> \<exists>r'\<in>set (cancel_reader k rs). rd_id r' = rd_id r \<and> rd_reading r' = rd_reading r"
  by (rule bexI [of _ "if rd_id r = k then r\<lparr>rd_cancelled := True\<rparr> else r"]) (auto simp: cancel_reader_def)

definition blocked :: "nat \<Rightarrow> xworld \<Rightarrow> bool" where
  "blocked k w = (\<exists>r\<in>set (readers w). rd_id r = k \<and> rd_reading r)"

lemma blocked_cancel: "r \<in> set rs \<Longrightarrow> rd_reading r \<Longrightarrow>
  \<exists>r'\<in>set (fold (\<lambda>(c, s). cancel_reader (xs_reader s)) xs rs). rd_id r' = rd_id r \<and> rd_reading r'"
proof (induction xs arbitrary: r rs)
  case (Cons x xs)
  from cancel_reading [OF Cons.prems(1), of "xs_reader (snd x)"] Cons.prems(2)
  obtain r' where "r' \<in> set (cancel_reader (xs_reader (snd x)) rs)" "rd_id r' = rd_id r" "rd_reading r'" by auto
  with Cons.IH [of r' "cancel_reader (xs_reader (snd x)) rs"] show ?case by (auto simp: case_prod_beta)
qed auto

lemma blocked_step:
  assumes "blocked k w" "xstep l w w'" "l \<noteq> Some k" "distinct (map rd_id (readers w))"
  shows "blocked k w' \<and> boxed k (outbox w') = boxed k (outbox w)"
  using assms(2)
proof cases
  case (close_session env j)
  with assms(1) cancel_reading [of _ "readers w" j] show ?thesis by (fastforce simp: blocked_def)
next
  case (clean_up now)
  with assms(1) blocked_cancel [of _ "readers w"] show ?thesis by (fastforce simp: blocked_def)
qed (use assms in \<open>auto simp: blocked_def end_reader_def boxed_by\<close>)

lemma blocked_run:
  assumes "(\<lambda>w w'. \<exists>l. l \<noteq> Some k \<and> xstep l w w')\<^sup>*\<^sup>* w w'" "blocked k w" "xinv w"
  shows "blocked k w' \<and> boxed k (outbox w') = boxed k (outbox w) \<and> xinv w'"
  using assms
proof (induction rule: rtranclp_induct)
  case (step u v)
  then obtain l where l: "l \<noteq> Some k" "xstep l u v" by blast
  with step have "xinv v" using sessions.step_inv [of u v] by blast
  with step l blocked_step [of k u l v] show ?case by (auto simp: xinv_def)
qed simp

text \<open>
  C31: closing a session does not end it. In every reachable state, as long as the read of a
  session's output does not return, nothing ends the session, neither exec_close nor the
  cleanup of old sessions: its reader stays blocked, its connection to the shell stays open
  and nothing more is reported of it, the end included.
\<close>

theorem exec_close_waits_for_output:
  assumes "xstart w0" and "(\<lambda>w w'. \<exists>l. xstep l w w')\<^sup>*\<^sup>* w0 w" and "blocked k w"
    and "(\<lambda>w w'. \<exists>l. l \<noteq> Some k \<and> xstep l w w')\<^sup>*\<^sup>* w w'"
  shows "blocked k w' \<and> k \<in> live w' \<and> boxed k (outbox w') = boxed k (outbox w)"
  using blocked_run [OF assms(4,3) sessions.reachable_inv [OF assms(1,2)]]
  by (auto simp: blocked_def live_def)

definition demo_w3 :: xworld where
  "demo_w3 = demo_w1\<lparr>readers := cancel_reader 0 (readers demo_w1)\<rparr>"

text \<open>The prompt is waiting, the session is closed, and its reader is still there.\<close>

theorem exec_close_waits_for_output_witness:
  "exec_close (demo_env ''exec_close'') (tb demo_w1) = Some 0 \<and> xstep None demo_w1 demo_w3 \<and>
   0 \<in> live demo_w3 \<and> boxed 0 (outbox demo_w3) = []"
proof -
  have c: "exec_close (demo_env ''exec_close'') (tb demo_w1) = Some 0"
    by (simp add: exec_close_def demo_env_def demo_w1_def)
  then have s: "xstep None demo_w1 demo_w3" unfolding demo_w3_def by (rule xstep.close_session)
  then have "(\<lambda>w w'. \<exists>l. l \<noteq> Some 0 \<and> xstep l w w')\<^sup>*\<^sup>* demo_w1 demo_w3" by blast
  from exec_close_waits_for_output [OF exec_demo_run(1,2) _ this]
  have "0 \<in> live demo_w3 \<and> boxed 0 (outbox demo_w3) = boxed 0 (outbox demo_w1)"
    by (simp add: blocked_def demo_w1_def demo_reader_def)
  with c s show ?thesis by (simp add: demo_w1_def boxed_def)
qed

end
