(* ===== verification/Telemetry.thy ===== *)
theory Telemetry
  imports Names
begin

text \<open>
  The log handler in front of Monitor (telemetry/handler.go, telemetry/telemetry.go): how a
  line gets its component, its level and its event name, which lines are left out, and the
  limiter that holds back repeated warnings. The regular expressions of the source are
  written out as functions on strings. Writing to standard error and Monitor's own handler
  are not modelled; the level a handler is enabled at is a number.
\<close>

section \<open>Levels\<close>

definition LevelDebug :: int where "LevelDebug = -4"
definition LevelInfo :: int where "LevelInfo = 0"
definition LevelWarn :: int where "LevelWarn = 4"
definition LevelError :: int where "LevelError = 8"

lemmas levels = LevelDebug_def LevelInfo_def LevelWarn_def LevelError_def

definition monitorLevel :: "int \<Rightarrow> string" where
  "monitorLevel l = (if l < LevelInfo then ''debug'' else if l < LevelWarn then ''info'' else if l < LevelError then ''warn''
     else if l < LevelError + 4 then ''error'' else ''fatal'')"

definition slogLevel :: "string \<Rightarrow> int" where
  "slogLevel s = (if s = ''debug'' then LevelDebug else if s = ''warn'' then LevelWarn else if s = ''error'' then LevelError
     else if s = ''fatal'' then LevelError + 4 else LevelInfo)"

section \<open>Reading a line\<close>

definition is_word :: "char \<Rightarrow> bool" where
  "is_word c = (c \<ge> CHR ''A'' \<and> c \<le> CHR ''Z'' \<or> c \<ge> CHR ''a'' \<and> c \<le> CHR ''z'' \<or> is_digit c \<or> c = CHR ''_'')"

text \<open>\<open>^\[([A-Za-z0-9_-]+)\] ?\<close> and \<open>^([a-z][a-z0-9_-]*): \<close>: the name and the rest of the line.\<close>

definition bracketComponent :: "string \<Rightarrow> (string \<times> string) option" where
  "bracketComponent s = (case s of
     [] \<Rightarrow> None
   | c # r \<Rightarrow> if c \<noteq> CHR ''['' then None
       else let n = takeWhile (\<lambda>x. is_word x \<or> x = CHR ''-'') r; t = dropWhile (\<lambda>x. is_word x \<or> x = CHR ''-'') r in
         if n = [] \<or> t = [] \<or> hd t \<noteq> CHR '']'' then None else Some (n, TrimPrefix (tl t) '' ''))"

definition colonComponent :: "string \<Rightarrow> string option" where
  "colonComponent s =
     (let ok = (\<lambda>x. x \<ge> CHR ''a'' \<and> x \<le> CHR ''z'' \<or> is_digit x \<or> x = CHR ''_'' \<or> x = CHR ''-'') ;
          n = takeWhile ok s; t = dropWhile ok s in
      if n \<noteq> [] \<and> hd n \<ge> CHR ''a'' \<and> hd n \<le> CHR ''z'' \<and> HasPrefix t '': '' then Some n else None)"

definition parseComponent :: "string \<Rightarrow> string \<times> string" where
  "parseComponent line = (case bracketComponent line of
     Some (c, m) \<Rightarrow> (c, m)
   | None \<Rightarrow> (case colonComponent line of Some c \<Rightarrow> (c, line) | None \<Rightarrow> ([], line)))"

text \<open>
  The alternatives of the level patterns: a literal that begins at a word boundary or
  anywhere, and ends at a word boundary, before a digit, or anywhere.
\<close>

datatype wend = AnyEnd | WordEnd | DigitEnd

definition word_at :: "bool \<Rightarrow> wend \<Rightarrow> string \<Rightarrow> char option \<Rightarrow> string \<Rightarrow> bool" where
  "word_at lead e lit prev s = (HasPrefix s lit \<and>
     (lead \<longrightarrow> (case prev of None \<Rightarrow> True | Some c \<Rightarrow> \<not> is_word c)) \<and>
     (let t = drop (length lit) s in
      case e of AnyEnd \<Rightarrow> True | WordEnd \<Rightarrow> t = [] \<or> \<not> is_word (hd t) | DigitEnd \<Rightarrow> t \<noteq> [] \<and> is_digit (hd t)))"

fun matches_from :: "(bool \<times> wend \<times> string) list \<Rightarrow> char option \<Rightarrow> string \<Rightarrow> bool" where
  "matches_from ps prev [] = list_ex (\<lambda>(lead, e, lit). word_at lead e lit prev []) ps"
| "matches_from ps prev (c # s) = (list_ex (\<lambda>(lead, e, lit). word_at lead e lit prev (c # s)) ps \<or> matches_from ps (Some c) s)"

definition MatchString :: "(bool \<times> wend \<times> string) list \<Rightarrow> string \<Rightarrow> bool" where
  "MatchString ps s = matches_from ps None (ToLower s)"

definition softFailure :: "(bool \<times> wend \<times> string) list" where
  "softFailure = [(True, DigitEnd, ''attempt ''), (True, AnyEnd, ''retry''), (True, AnyEnd, ''retrying'')] @
     map (\<lambda>l. (False, AnyEnd, l)) [''trying kill'', ''falling back'', ''may already exist'', ''already absent'',
       ''will be orphaned'', ''stopping in place'', ''skipping'', ''ignoring duplicate'', ''will reconnect'', ''proceeding'']"

definition hardFailure :: "(bool \<times> wend \<times> string) list" where
  "hardFailure = map (\<lambda>l. (True, WordEnd, l)) [''fail'', ''failed'', ''failure'', ''fails'', ''error'', ''errors'', ''cannot'',
     ''can'' @ [CHR 0x27] @ ''t'', ''unable'', ''refused'', ''fatal'', ''corrupt'', ''aborted'', ''refusing'']"

definition caution :: "(bool \<times> wend \<times> string) list" where
  "caution = map (\<lambda>l. (True, WordEnd, l)) [''invalid'', ''rejected'', ''not found'', ''orphan'', ''orphaned'', ''timed out'',
     ''timeout'', ''full'', ''dropped'', ''denied'', ''missing'', ''warning'', ''stale'', ''offline'', ''disconnected'', ''rejecting'',
     ''could not be stopped'', ''could not be started'']"

definition classify :: "string \<Rightarrow> string" where
  "classify m = (if MatchString softFailure m then ''warn'' else if MatchString hardFailure m then ''error''
     else if MatchString caution m then ''warn'' else ''info'')"

text \<open>\<open>(?s)^(?:\[[^\]\n]+\] )?PANIC\b.*?\ngoroutine \d+ \[\<close>\<close>

definition strip_goroutine :: "string \<Rightarrow> string" where
  "strip_goroutine s = (case s of
     [] \<Rightarrow> []
   | c # r \<Rightarrow> if c \<noteq> CHR ''['' then s
       else let n = takeWhile (\<lambda>x. x \<noteq> CHR '']'' \<and> x \<noteq> CHR 0x0A) r; t = drop (length n) r in
         if n \<noteq> [] \<and> HasPrefix t ''] '' then drop 2 t else s)"

fun goroutine_in :: "string \<Rightarrow> bool" where
  "goroutine_in [] = False"
| "goroutine_in (c # s) =
     (c = CHR 0x0A \<and> HasPrefix s ''goroutine '' \<and>
        (let t = drop 10 s; n = takeWhile is_digit t in n \<noteq> [] \<and> HasPrefix (drop (length n) t) '' ['') \<or>
      goroutine_in s)"

definition panicReportLine :: "string \<Rightarrow> bool" where
  "panicReportLine s = (let t = strip_goroutine s; u = drop 5 t in
     HasPrefix t ''PANIC'' \<and> (u = [] \<or> \<not> is_word (hd u)) \<and> goroutine_in u)"

section \<open>The limiter\<close>

record warnWindow =
  w_start :: int
  w_sent :: nat
  w_suppressed :: nat

type_synonym wkeys = "(string \<times> warnWindow) list"

definition warnLimiterSweepAt :: nat where
  "warnLimiterSweepAt = 4096"

definition sweep :: "int \<Rightarrow> int \<Rightarrow> wkeys \<Rightarrow> wkeys" where
  "sweep window now ks =
     (let ks' = filter (\<lambda>(k, w). \<not> (now - w_start w \<ge> window \<and> w_suppressed w = 0)) ks in
      if length ks' \<ge> warnLimiterSweepAt then [] else ks')"

text \<open>The window a call falls into, and the table without it (swept when it is full).\<close>

definition window_for :: "int \<Rightarrow> int \<Rightarrow> string \<Rightarrow> wkeys \<Rightarrow> warnWindow \<times> wkeys" where
  "window_for window now key ks = (case map_of ks key of
     None \<Rightarrow> (\<lparr>w_start = now, w_sent = 0, w_suppressed = 0\<rparr>,
       if length ks \<ge> warnLimiterSweepAt then sweep window now ks else ks)
   | Some w \<Rightarrow> (if now - w_start w \<ge> window then w\<lparr>w_start := now, w_sent := 0\<rparr> else w, ks))"

definition allow :: "nat \<Rightarrow> int \<Rightarrow> int \<Rightarrow> string \<Rightarrow> wkeys \<Rightarrow> (bool \<times> nat) \<times> wkeys" where
  "allow limit window now key ks = (let (w, ks') = window_for window now key ks in
     if w_sent w \<ge> limit then ((False, 0), AList.update key (w\<lparr>w_suppressed := w_suppressed w + 1\<rparr>) ks')
     else ((True, w_suppressed w), AList.update key (w\<lparr>w_sent := w_sent w + 1, w_suppressed := 0\<rparr>) ks'))"

section \<open>The handler\<close>

text \<open>
  A record: its level, message and attributes (\<open>None\<close>: a value that is not a string), and
  whether \<open>Handle\<close> was called from the bridge of the standard logger. The handler carries the
  component and the event of \<open>WithAttrs\<close> while no group is open.
\<close>

record logrecord =
  lr_level :: int
  lr_msg :: string
  lr_attrs :: "(string \<times> string option) list"
  lr_bridge :: bool

record runnerHandler =
  rh_component :: string
  rh_event :: string
  rh_grouped :: bool

definition attr_or :: "string \<Rightarrow> (string \<times> string option) list \<Rightarrow> string \<Rightarrow> string" where
  "attr_or key as d = fold (\<lambda>(k, v) acc. if k = key then (case v of Some s \<Rightarrow> if s \<noteq> [] then s else acc | None \<Rightarrow> acc) else acc) as d"

definition WithAttrs :: "(string \<times> string option) list \<Rightarrow> runnerHandler \<Rightarrow> runnerHandler" where
  "WithAttrs as h = (if as = [] \<or> rh_grouped h then h
     else h\<lparr>rh_component := attr_or ''component'' as (rh_component h), rh_event := attr_or ''event'' as (rh_event h)\<rparr>)"

definition WithGroup :: "string \<Rightarrow> runnerHandler \<Rightarrow> runnerHandler" where
  "WithGroup name h = (if name = [] then h else h\<lparr>rh_grouped := True\<rparr>)"

text \<open>
  What \<open>Handle\<close> hands to Monitor, if anything: level, message and attributes (the number of
  warnings held back is an attribute of its own), and the limiter afterwards. \<open>enabledAt\<close> is the
  level Monitor is enabled at.
\<close>

record monrecord =
  mr_level :: int
  mr_msg :: string
  mr_attrs :: "(string \<times> string option) list"
  mr_suppressed :: nat

definition Handle :: "nat \<Rightarrow> int \<Rightarrow> int \<Rightarrow> string \<Rightarrow> runnerHandler \<Rightarrow> int \<Rightarrow> logrecord \<Rightarrow> wkeys \<Rightarrow> monrecord option \<times> wkeys" where
  "Handle limit window enabledAt worker h now r ks =
     (let component0 = (if rh_grouped h then rh_component h else attr_or ''component'' (lr_attrs r) (rh_component h));
          event = (if rh_grouped h then rh_event h else attr_or ''event'' (lr_attrs r) (rh_event h));
          (component, m) = (if component0 = [] then parseComponent (lr_msg r) else (component0, lr_msg r)) in
      if panicReportLine m \<or> event = [] \<and> TrimSpace m = [] then (None, ks)
      else let level = (if lr_bridge r \<and> lr_level r = LevelInfo \<and> lr_attrs r = [] then slogLevel (classify m) else lr_level r); ml = monitorLevel level in
        if level < enabledAt then (None, ks)
        else let ((ok, n), ks') = (if ml = ''warn'' then allow limit window now (component @ [CHR 0x00] @ m) ks else ((True, 0), ks)) in
          if \<not> ok then (None, ks')
          else (Some \<lparr>mr_level = level, mr_msg = m,
             mr_attrs = lr_attrs r @
               (if event = [] then [(''event'', Some ((if component = [] then ''runner'' else component) @ ''.log.'' @ ml))] else []) @
               (if component0 = [] then [(''component'', Some component)] else []) @ [(''worker'', Some worker)],
             mr_suppressed = n\<rparr>, ks'))"

section \<open>The limiter accounts for every warning\<close>

text \<open>A run of calls: for each its key, whether it was let through, and the count it was given.\<close>

fun calls :: "nat \<Rightarrow> int \<Rightarrow> (int \<times> string) list \<Rightarrow> wkeys \<Rightarrow> (string \<times> bool \<times> nat) list \<times> wkeys" where
  "calls limit window [] ks = ([], ks)"
| "calls limit window ((now, key) # cs) ks =
     (let ((ok, n), ks1) = allow limit window now key ks; (l, ks2) = calls limit window cs ks1 in ((key, ok, n) # l, ks2))"

definition held_back :: "string \<Rightarrow> (string \<times> bool \<times> nat) list \<Rightarrow> nat" where
  "held_back k l = length (filter (\<lambda>(key, ok, n). key = k \<and> \<not> ok) l)"

definition reported :: "string \<Rightarrow> (string \<times> bool \<times> nat) list \<Rightarrow> nat" where
  "reported k l = sum_list (map (\<lambda>(key, ok, n). if key = k \<and> ok then n else 0) l)"

definition pending :: "string \<Rightarrow> wkeys \<Rightarrow> nat" where
  "pending k ks = (case map_of ks k of None \<Rightarrow> 0 | Some w \<Rightarrow> w_suppressed w)"

definition limiter_ok :: "nat \<Rightarrow> wkeys \<Rightarrow> bool" where
  "limiter_ok limit ks = (distinct (map fst ks) \<and> length ks \<le> warnLimiterSweepAt \<and> (\<forall>(k, w)\<in>set ks. w_sent w \<le> limit))"

lemma map_of_filter_distinct:
  "distinct (map fst ks) \<Longrightarrow> map_of (filter (\<lambda>(k, w). P w) ks) k = (case map_of ks k of Some w \<Rightarrow> if P w then Some w else None | None \<Rightarrow> None)"
  by (induction ks) (auto split: option.splits dest: map_of_SomeD simp: map_of_eq_None_iff)

lemma sweep_facts:
  assumes "distinct (map fst ks)"
  shows "set (sweep window now ks) \<subseteq> set ks" "distinct (map fst (sweep window now ks))"
    "length (sweep window now ks) < warnLimiterSweepAt" "pending k (sweep window now ks) \<le> pending k ks"
proof -
  show "set (sweep window now ks) \<subseteq> set ks" by (auto simp: sweep_def Let_def)
  show "distinct (map fst (sweep window now ks))" using assms by (auto simp: sweep_def Let_def distinct_map_filter)
  show "length (sweep window now ks) < warnLimiterSweepAt" by (simp add: sweep_def Let_def warnLimiterSweepAt_def)
  show "pending k (sweep window now ks) \<le> pending k ks"
    using map_of_filter_distinct [OF assms, of "\<lambda>w. \<not> (now - w_start w \<ge> window \<and> w_suppressed w = 0)" k]
    by (auto simp: pending_def sweep_def Let_def split: option.splits)
qed

lemma length_AList_update:
  "length (AList.update k v ks) = length ks + (if k \<in> fst ` set ks then 0 else 1)"
  by (induction ks) auto

lemma pending_update: "pending k (AList.update key w ks) = (if k = key then w_suppressed w else pending k ks)"
  by (simp add: pending_def update_conv')

lemma window_facts:
  assumes "limiter_ok limit ks" "window_for window now key ks = (w, ks1)"
  shows "w_sent w \<le> limit \<and> w_suppressed w = pending key ks \<and> distinct (map fst ks1) \<and> set ks1 \<subseteq> set ks \<and>
    length (AList.update key w' ks1) \<le> warnLimiterSweepAt \<and> pending k ks1 \<le> pending k ks \<and>
    (length ks < warnLimiterSweepAt \<or> key \<in> fst ` set ks \<longrightarrow> ks1 = ks)"
proof -
  have d: "distinct (map fst ks)" "length ks \<le> warnLimiterSweepAt" "\<And>k w. (k, w) \<in> set ks \<Longrightarrow> w_sent w \<le> limit"
    using assms(1) by (auto simp: limiter_ok_def)
  show ?thesis
  proof (cases "map_of ks key")
    case None
    then have n: "key \<notin> fst ` set ks" by (simp add: map_of_eq_None_iff)
    show ?thesis
    proof (cases "length ks \<ge> warnLimiterSweepAt")
      case True
      then have e: "w = \<lparr>w_start = now, w_sent = 0, w_suppressed = 0\<rparr>" "ks1 = sweep window now ks"
        using None assms(2) by (simp_all add: window_for_def)
      show ?thesis
        using sweep_facts(1-3) [OF d(1), of window now] sweep_facts(4) [OF d(1), of k window now] None n True
        by (simp add: e length_AList_update pending_def [of key ks] Suc_le_eq)
    next
      case False
      then have e: "w = \<lparr>w_start = now, w_sent = 0, w_suppressed = 0\<rparr>" "ks1 = ks"
        using None assms(2) by (simp_all add: window_for_def)
      show ?thesis using d(1) None False by (simp add: e length_AList_update pending_def [of key ks])
    qed
  next
    case (Some v)
    then have i: "key \<in> fst ` set ks" by (metis domI dom_map_of_conv_image_fst)
    have e: "w = (if now - w_start v \<ge> window then v\<lparr>w_start := now, w_sent := 0\<rparr> else v)" "ks1 = ks"
      using Some assms(2) by (simp_all add: window_for_def)
    show ?thesis using d(1,2) i d(3) [OF map_of_SomeD [OF Some]] by (simp add: e length_AList_update pending_def [of key ks] Some)
  qed
qed

lemma limiter_ok_update:
  assumes "limiter_ok limit ks" "window_for window now key ks = (w, ks1)" "w_sent w' \<le> limit"
  shows "limiter_ok limit (AList.update key w' ks1)"
proof -
  have f: "distinct (map fst ks1)" "set ks1 \<subseteq> set ks" "length (AList.update key w' ks1) \<le> warnLimiterSweepAt"
    using window_facts [OF assms(1,2), of w' key] by blast+
  have "\<forall>(k, v)\<in>set (AList.update key w' ks1). w_sent v \<le> limit"
  proof (intro ballI, clarify)
    fix k v assume "(k, v) \<in> set (AList.update key w' ks1)"
    then have "map_of (AList.update key w' ks1) k = Some v" by (intro map_of_is_SomeI) (simp_all add: distinct_update f(1))
    then have "v = w' \<or> (k, v) \<in> set ks1" by (auto simp: update_conv' map_of_SomeD split: if_splits)
    then show "w_sent v \<le> limit" using assms(1,3) f(2) by (auto simp: limiter_ok_def)
  qed
  then show ?thesis by (simp add: limiter_ok_def f distinct_update)
qed

text \<open>One call: what is pending or reported afterwards was pending before or is held back now.\<close>

lemma allow_step:
  assumes "limiter_ok limit ks" "allow limit window now key ks = ((ok, n), ks')"
  shows "limiter_ok limit ks'"
    "(if k = key \<and> ok then n else 0) + pending k ks' \<le> (if k = key \<and> \<not> ok then 1 else 0) + pending k ks"
    "length ks < warnLimiterSweepAt \<or> key \<in> fst ` set ks \<Longrightarrow>
       (if k = key \<and> ok then n else 0) + pending k ks' = (if k = key \<and> \<not> ok then 1 else 0) + pending k ks \<and>
       fst ` set ks' \<subseteq> insert key (fst ` set ks)"
proof -
  obtain w ks1 where w: "window_for window now key ks = (w, ks1)" by fastforce
  note f = window_facts [OF assms(1) w, of w k]
  obtain w' where e: "ks' = AList.update key w' ks1" "w_sent w' \<le> limit"
      "(if ok then n else 0) + w_suppressed w' = (if ok then 0 else 1) + w_suppressed w"
    using assms(2) w f by (cases "w_sent w \<ge> limit") (auto simp: allow_def)
  show "limiter_ok limit ks'" using limiter_ok_update [OF assms(1) w e(2)] e(1) by simp
  show "(if k = key \<and> ok then n else 0) + pending k ks' \<le> (if k = key \<and> \<not> ok then 1 else 0) + pending k ks"
    using e f by (auto simp: pending_update split: if_splits)
  assume "length ks < warnLimiterSweepAt \<or> key \<in> fst ` set ks"
  with e f show "(if k = key \<and> ok then n else 0) + pending k ks' = (if k = key \<and> \<not> ok then 1 else 0) + pending k ks \<and>
       fst ` set ks' \<subseteq> insert key (fst ` set ks)"
    by (auto simp: pending_update dom_update)
qed

lemma counts_Cons [simp]:
  "held_back k ((key, ok, n) # l) = (if k = key \<and> \<not> ok then 1 else 0) + held_back k l"
  "reported k ((key, ok, n) # l) = (if k = key \<and> ok then n else 0) + reported k l"
  by (auto simp: held_back_def reported_def)

lemma calls_account:
  "limiter_ok limit ks \<Longrightarrow> calls limit window cs ks = (l, ks') \<Longrightarrow>
     limiter_ok limit ks' \<and> reported k l + pending k ks' \<le> held_back k l + pending k ks"
proof (induction cs arbitrary: ks l)
  case Nil
  then show ?case by (simp add: held_back_def reported_def)
next
  case (Cons c cs)
  obtain now key where c: "c = (now, key)" by fastforce
  obtain ok n ks1 where a: "allow limit window now key ks = ((ok, n), ks1)" by (metis surj_pair)
  obtain l2 where l2: "calls limit window cs ks1 = (l2, ks')" "l = (key, ok, n) # l2"
    using Cons.prems(2) by (auto simp: c a split: prod.splits)
  show ?case using Cons.IH [OF allow_step(1) [OF Cons.prems(1) a] l2(1)] allow_step(2) [OF Cons.prems(1) a, of k] by (simp add: l2(2))
qed

lemma calls_account_exact:
  "limiter_ok limit ks \<Longrightarrow> calls limit window cs ks = (l, ks') \<Longrightarrow> finite K \<Longrightarrow> card K \<le> warnLimiterSweepAt \<Longrightarrow>
     fst ` set ks \<union> snd ` set cs \<subseteq> K \<Longrightarrow> reported k l + pending k ks' = held_back k l + pending k ks"
proof (induction cs arbitrary: ks l)
  case Nil
  then show ?case by (simp add: held_back_def reported_def)
next
  case (Cons c cs)
  obtain now key where c: "c = (now, key)" by fastforce
  obtain ok n ks1 where a: "allow limit window now key ks = ((ok, n), ks1)" by (metis surj_pair)
  obtain l2 where l2: "calls limit window cs ks1 = (l2, ks')" "l = (key, ok, n) # l2"
    using Cons.prems(2) by (auto simp: c a split: prod.splits)
  have "length ks < warnLimiterSweepAt \<or> key \<in> fst ` set ks"
  proof (rule disjCI)
    assume n: "key \<notin> fst ` set ks"
    have "length ks = card (fst ` set ks)"
      using Cons.prems(1) distinct_card [of "map fst ks"] by (simp add: limiter_ok_def)
    also have "\<dots> < card K" using Cons.prems(3,5) n by (intro psubset_card_mono) (auto simp: c)
    finally show "length ks < warnLimiterSweepAt" using Cons.prems(4) by simp
  qed
  note s = allow_step(3) [OF Cons.prems(1) a this, of k]
  have "reported k l2 + pending k ks' = held_back k l2 + pending k ks1"
    using s Cons.prems(3-5) by (intro Cons.IH [OF allow_step(1) [OF Cons.prems(1) a] l2(1)]) (auto simp: c)
  then show ?case using s by (simp add: l2(2))
qed

text \<open>
  The warning limiter never tracks more than 4096 keys, never counts more than its limit
  in one window, and never reports a suppressed warning that was not held back: over any run
  of calls, what it has reported for a key and what is still pending is at most what it held
  back, and exactly that as long as the run uses at most 4096 different keys (beyond that, a
  sweep may forget counts).
\<close>

theorem warn_limiter_accounts:
  assumes "calls limit window cs [] = (l, ks)"
  shows "length ks \<le> 4096 \<and> (\<forall>(k, w)\<in>set ks. w_sent w \<le> limit) \<and> reported k l + pending k ks \<le> held_back k l \<and>
    (card (snd ` set cs) \<le> 4096 \<longrightarrow> reported k l + pending k ks = held_back k l)"
proof -
  have ok: "limiter_ok limit []" by (simp add: limiter_ok_def)
  have e: "pending k [] = 0" by (simp add: pending_def)
  have "length ks \<le> 4096 \<and> (\<forall>(k, w)\<in>set ks. w_sent w \<le> limit) \<and> reported k l + pending k ks \<le> held_back k l"
    using calls_account [OF ok assms, of k] by (simp add: e limiter_ok_def warnLimiterSweepAt_def)
  moreover have "reported k l + pending k ks = held_back k l" if "card (snd ` set cs) \<le> 4096"
    using calls_account_exact [OF ok assms, of "snd ` set cs" k] that by (simp add: e warnLimiterSweepAt_def)
  ultimately show ?thesis by blast
qed

theorem warn_limiter_accounts_witness:
  "calls 1 60 [(0, ''disk''), (1, ''disk''), (2, ''disk''), (61, ''disk'')] [] =
     ([(''disk'', True, 0), (''disk'', False, 0), (''disk'', False, 0), (''disk'', True, 2)],
      [(''disk'', \<lparr>w_start = 61, w_sent = 1, w_suppressed = 0\<rparr>)]) \<and>
   reported ''disk'' [(''disk'', True, 0), (''disk'', False, 0), (''disk'', False, 0), (''disk'', True, 2)] +
     pending ''disk'' [(''disk'', \<lparr>w_start = 61, w_sent = 1, w_suppressed = 0\<rparr>)] =
   held_back ''disk'' [(''disk'', True, 0), (''disk'', False, 0), (''disk'', False, 0), (''disk'', True, 2)]"
proof -
  have c: "calls 1 60 [(0, ''disk''), (1, ''disk''), (2, ''disk''), (61, ''disk'')] [] =
     ([(''disk'', True, 0), (''disk'', False, 0), (''disk'', False, 0), (''disk'', True, 2)],
      [(''disk'', \<lparr>w_start = 61, w_sent = 1, w_suppressed = 0\<rparr>)])"
    by (simp add: allow_def window_for_def warnLimiterSweepAt_def)
  show ?thesis using c warn_limiter_accounts [OF c, of "''disk''"] by simp
qed

text \<open>
  Errors are never sampled, and the event name agrees with the level. A plain line with no
  attributes (through a handler that carries none) that is not a panic report and not blank,
  and whose level is error or above, either its own or the one the words of the line give it,
  reaches Monitor whatever the limiter holds, without touching it: its message is the line
  without its \<open>[component]\<close>, and its event is \<open><component>.log.<level>\<close> (\<open>runner\<close> for a line
  with no component) for the level it is sent at.
\<close>

theorem errors_always_shipped:
  assumes "enabledAt \<le> LevelError" "lr_attrs r = []" "\<not> rh_grouped h" "rh_component h = []" "rh_event h = []"
    "parseComponent (lr_msg r) = (c, m)" "\<not> panicReportLine m" "TrimSpace m \<noteq> []"
    "lr_level r \<ge> LevelError \<or> lr_bridge r \<and> lr_level r = LevelInfo \<and> classify m = ''error''"
  shows "\<exists>level \<ge> LevelError. Handle limit window enabledAt worker h now r ks =
    (Some \<lparr>mr_level = level, mr_msg = m,
      mr_attrs = [(''event'', Some ((if c = [] then ''runner'' else c) @ ''.log.'' @ monitorLevel level)), (''component'', Some c), (''worker'', Some worker)],
      mr_suppressed = 0\<rparr>, ks)"
proof -
  define level where "level = (if lr_bridge r \<and> lr_level r = LevelInfo \<and> lr_attrs r = [] then slogLevel (classify m) else lr_level r)"
  have l: "level \<ge> LevelError" "monitorLevel level \<noteq> ''warn''" "enabledAt \<le> level"
    using assms(1,2,9) by (auto simp: level_def slogLevel_def monitorLevel_def levels)
  have e: "(if lr_bridge r \<and> lr_level r = LevelInfo then slogLevel (classify m) else lr_level r) = level"
    using assms(2) by (simp add: level_def)
  show ?thesis using assms(2-8) l by (intro exI [of _ level]) (simp add: Handle_def attr_or_def Let_def e split del: if_split)
qed

theorem errors_always_shipped_witness:
  "\<exists>level \<ge> LevelError. Handle 0 60 LevelInfo ''w1'' \<lparr>rh_component = [], rh_event = [], rh_grouped = False\<rparr> 5
     \<lparr>lr_level = LevelInfo, lr_msg = ''[db] dump failed'', lr_attrs = [], lr_bridge = True\<rparr> [] =
   (Some \<lparr>mr_level = level, mr_msg = ''dump failed'',
      mr_attrs = [(''event'', Some (''db'' @ ''.log.'' @ monitorLevel level)), (''component'', Some ''db''), (''worker'', Some ''w1'')],
      mr_suppressed = 0\<rparr>, [])"
proof -
  have p: "parseComponent ''[db] dump failed'' = (''db'', ''dump failed'')" by code_simp
  have q: "\<not> panicReportLine ''dump failed''" "TrimSpace ''dump failed'' \<noteq> []" "classify ''dump failed'' = ''error''" by code_simp+
  have n: "LevelInfo \<le> LevelError" by (simp add: levels)
  show ?thesis
    using errors_always_shipped [of LevelInfo "\<lparr>lr_level = LevelInfo, lr_msg = ''[db] dump failed'', lr_attrs = [], lr_bridge = True\<rparr>"
        "\<lparr>rh_component = [], rh_event = [], rh_grouped = False\<rparr>" "''db''" "''dump failed''" 0 60 "''w1''" 5 "[]"] p q n
    by simp
qed

end
