(* ===== verification/Net_Monitor.thy ===== *)
theory Net_Monitor
  imports Replies
begin

text \<open>
  The network and restart monitor (docker/netmonitor.go) and the two callbacks main.go gives
  it. The table of restart counts belongs to the goroutine of the monitor and is passed
  explicitly; a cycle is one call of \<open>nm_check\<close>. Times are nanoseconds.
\<close>

section \<open>Client operations of the monitor\<close>

text \<open>\<open>ContainerNetworks\<close> ranges over a map; its order reaches the text of a diagnostic only.\<close>

definition ContainerNetworks :: "host \<Rightarrow> string \<Rightarrow> string list res prog" where
  "ContainerNetworks E cid = do {
     r \<leftarrow> request (\<lambda>h. ContainerInspect E h cid) (EvInspect cid);
     order \<leftarrow> observe (\<lambda>h. MapOrder E h ''networks'');
     ret (case r of Inl e \<Rightarrow> Inl e | Inr info \<Rightarrow> Inr (shuffle order (map fst (cj_Networks info))))
   }"

text \<open>The bytes of the connection as they come; an error that ends them is ignored.\<close>

definition ExecInContainer :: "host \<Rightarrow> string \<Rightarrow> string list \<Rightarrow> string res prog" where
  "ExecInContainer E cid cmd = do {
     r \<leftarrow> request (\<lambda>h. ExecCreate (svc E) h cid cmd []) (\<lambda>r. EvExt (EvExecCreate cid cmd [] r));
     (case r of
        Inl e \<Rightarrow> ret (Inl (Fmt ''exec create: %w'' [FE e]))
      | Inr x \<Rightarrow> do {
          a \<leftarrow> request (\<lambda>h. ExecAttach (svc E) h x) (\<lambda>r. EvExt (EvExecAttach x r));
          (case a of
             Some e \<Rightarrow> ret (Inl (Fmt ''exec attach: %w'' [FE e]))
           | None \<Rightarrow> do {
               s \<leftarrow> request (\<lambda>h. ExecOutput (svc E) h x) (\<lambda>(out, err). EvExt (EvExecOutput x out err));
               emit (EvExt (EvExecClose x));
               ret (Inr (fst (fst s)))
             })
        })
   }"

section \<open>Diagnostics and their messages\<close>

record NetworkDiagnostic =
  nd_ContainerName :: string
  nd_ContainerID :: string
  nd_Issue :: string
  nd_Detail :: gotext
  nd_Repaired :: bool
  nd_RepairDetail :: gotext

record RestartLoopEvent =
  rl_ContainerName :: string
  rl_ContainerID :: string
  rl_RestartCount :: int
  rl_ExitCode :: int
  rl_Message :: gotext

definition diagnostic_cb :: "NetworkDiagnostic \<Rightarrow> unit prog" where
  "diagnostic_cb d = emit (EvSend False (msg ''lifecycle_log''
     [(''container_name'', JStr (nd_ContainerName d)), (''event'', JStr ''network_diagnostic''),
      (''message'', JText (if nd_Repaired d
         then Fmt ''[network] %s: %s | auto-repaired: %s'' [FS (nd_Issue d), FE (nd_Detail d), FE (nd_RepairDetail d)]
         else Fmt ''[network] %s: %s'' [FS (nd_Issue d), FE (nd_Detail d)]))]))"

definition restart_cb :: "RestartLoopEvent \<Rightarrow> unit prog" where
  "restart_cb ev = emit (EvSend False (msg ''lifecycle_log''
     [(''container_name'', JStr (rl_ContainerName ev)), (''event'', JStr ''restart_loop''), (''message'', JText (rl_Message ev))]))"

section \<open>Restart loops\<close>

record restartTracker =
  lastCount :: int
  firstSeen :: int
  tr_reported :: bool

type_synonym rtable = "(string \<times> restartTracker) list"

text \<open>The critical section: whether the count is tr_reported, and the tracker afterwards.\<close>

definition restart_step :: "int \<Rightarrow> int \<Rightarrow> restartTracker option \<Rightarrow> bool \<times> restartTracker" where
  "restart_step now restartCount tracker = (case tracker of
     None \<Rightarrow> (False, \<lparr>lastCount = restartCount, firstSeen = now, tr_reported = False\<rparr>)
   | Some t \<Rightarrow>
       if restartCount > lastCount t \<and> restartCount \<ge> 3 \<and> \<not> tr_reported t
       then (True, t\<lparr>tr_reported := True, lastCount := restartCount\<rparr>)
       else if restartCount = lastCount t \<and> tr_reported t \<and> now - firstSeen t > 5 * 60 * 1000000000
       then (False, t\<lparr>tr_reported := False, firstSeen := now, lastCount := restartCount\<rparr>)
       else (False, t\<lparr>lastCount := restartCount\<rparr>))"

definition checkRestartLoop :: "host \<Rightarrow> string \<Rightarrow> string \<Rightarrow> rtable \<Rightarrow> rtable prog" where
  "checkRestartLoop E cid name tab = do {
     r \<leftarrow> request (\<lambda>h. ContainerInspect E h cid) (EvInspect cid);
     (case r of
        Inl e \<Rightarrow> ret tab
      | Inr info \<Rightarrow> do {
          now \<leftarrow> observe (UnixNano E);
          (let n = cj_RestartCount info; x = st_ExitCode (cj_State info);
               (alarm, t) = restart_step now n (map_of tab cid) in do {
             (if alarm then restart_cb \<lparr>rl_ContainerName = name, rl_ContainerID = cid, rl_RestartCount = n, rl_ExitCode = x,
                 rl_Message = Fmt ''Container %s has restarted %d times (exit code: %d). Possible crash loop detected.'' [FS name, FD n, FD x]\<rparr>
              else ret ());
             ret (AList.update cid t tab)
           })
        })
   }"

section \<open>Networks\<close>

definition custom_network :: "string \<Rightarrow> bool" where
  "custom_network n = (n \<noteq> ''bridge'' \<and> n \<noteq> ''host'' \<and> n \<noteq> ''none'')"

definition bridge_only :: "string list \<Rightarrow> bool" where
  "bridge_only ns = (list_ex (\<lambda>n. n = ''bridge'') ns \<and> \<not> list_ex custom_network ns)"

definition bump :: "string \<Rightarrow> (string \<times> nat) list \<Rightarrow> (string \<times> nat) list" where
  "bump n m = AList.update n (Suc (case map_of m n of Some k \<Rightarrow> k | None \<Rightarrow> 0)) m"

definition candidateNetworks :: "string \<Rightarrow> container list \<Rightarrow> (string \<times> nat) list" where
  "candidateNetworks cid cs = fold (\<lambda>c. if ct_ID c = cid \<or> lookup_str (ct_Labels c) ''managed-by'' \<noteq> ''lattice'' then id
     else fold bump (filter custom_network (ct_Networks c))) cs []"

definition best_network :: "(string \<times> nat) list \<Rightarrow> string" where
  "best_network m = fst (fold (\<lambda>(n, k) (bn, bk). if k > bk then (n, k) else (bn, bk)) m ([], 0))"

definition attemptNetworkRepair :: "host \<Rightarrow> string \<Rightarrow> string prog" where
  "attemptNetworkRepair E cid = do {
     r \<leftarrow> request (\<lambda>h. ContainerList E h []) (EvList []);
     (case r of
        Inl e \<Rightarrow> ret []
      | Inr cs \<Rightarrow> do {
          order \<leftarrow> observe (\<lambda>h. MapOrder E h ''candidates'');
          (let bestNet = best_network (shuffle order (candidateNetworks cid cs)) in
           if bestNet = [] then ret []
           else do {
             c \<leftarrow> request (\<lambda>h. NetworkConnect E h bestNet cid) (EvNetConnect bestNet cid None);
             (case c of Some e \<Rightarrow> ret [] | None \<Rightarrow> ret bestNet)
           })
        })
   }"

definition checkDNS :: "host \<Rightarrow> string \<Rightarrow> string \<Rightarrow> unit prog" where
  "checkDNS E cid name = do {
     r \<leftarrow> ExecInContainer E cid [''cat'', ''/etc/resolv.conf''];
     (case r of
        Inl e \<Rightarrow> ret ()
      | Inr output \<Rightarrow>
          if Contains output ''127.0.0.11'' then ret ()
          else diagnostic_cb \<lparr>nd_ContainerName = name, nd_ContainerID = cid, nd_Issue = ''dns_failure'',
            nd_Detail = Fmt (''Container %s is not using Docker'' @ [CHR 0x27] @ ''s internal DNS (127.0.0.11). Container-to-container DNS resolution will fail. resolv.conf shows: %s'')
              [FS name, FS (TrimSpace output)],
            nd_Repaired = False, nd_RepairDetail = Fmt [] []\<rparr>)
   }"

definition checkContainerNetwork :: "host \<Rightarrow> string \<Rightarrow> string \<Rightarrow> unit prog" where
  "checkContainerNetwork E cid name = do {
     r \<leftarrow> ContainerNetworks E cid;
     (case r of
        Inl e \<Rightarrow> ret ()
      | Inr networks \<Rightarrow> do {
          (if bridge_only networks then do {
             repaired \<leftarrow> attemptNetworkRepair E cid;
             diagnostic_cb \<lparr>nd_ContainerName = name, nd_ContainerID = cid, nd_Issue = ''bridge_only'',
               nd_Detail = Fmt ''Container %s is only connected to the default bridge network. DNS resolution to other containers will fail. Networks: %v''
                 [FS name, FS (''['' @ joinWith '' '' networks @ '']'')],
               nd_Repaired = (repaired \<noteq> []),
               nd_RepairDetail = (if repaired \<noteq> [] then Fmt ''Connected container to network %q'' [FS repaired] else Fmt [] [])\<rparr>
           } else ret ());
          checkDNS E cid name
        })
   }"

section \<open>A cycle\<close>

definition monitored_name :: "container \<Rightarrow> string" where
  "monitored_name c = (case ct_Names c of [] \<Rightarrow> [] | n # _ \<Rightarrow> CanonicalContainerName (TrimPrefix n ''/''))"

definition check_one :: "host \<Rightarrow> container \<Rightarrow> rtable \<Rightarrow> rtable prog" where
  "check_one E c tab =
     (if ct_State c \<noteq> ''running'' \<and> ct_State c \<noteq> ''restarting'' then ret tab
      else let name = monitored_name c in
        if name = [] then ret tab
        else do {
          tab' \<leftarrow> checkRestartLoop E (ct_ID c) name tab;
          (if ct_State c \<noteq> ''running'' then ret () else checkContainerNetwork E (ct_ID c) name);
          ret tab'
        })"

fun check_each :: "host \<Rightarrow> container list \<Rightarrow> rtable \<Rightarrow> rtable prog" where
  "check_each E [] tab = ret tab"
| "check_each E (c # cs) tab = do { tab' \<leftarrow> check_one E c tab; check_each E cs tab' }"

definition nm_check :: "host \<Rightarrow> rtable \<Rightarrow> rtable prog" where
  "nm_check E tab = do {
     r \<leftarrow> request (\<lambda>h. ContainerList E h []) (EvList []);
     (case r of
        Inl e \<Rightarrow> ret tab
      | Inr cs \<Rightarrow> do {
          tab' \<leftarrow> check_each E cs tab;
          ret (filter (\<lambda>(cid, t). cid \<in> set (map ct_ID cs)) tab')
        })
   }"

section \<open>The network a repair chooses\<close>

text \<open>How often the other managed containers of a listing are attached to a network.\<close>

definition managed_other :: "string \<Rightarrow> container \<Rightarrow> bool" where
  "managed_other cid c = (ct_ID c \<noteq> cid \<and> lookup_str (ct_Labels c) ''managed-by'' = ''lattice'')"

definition usage :: "string \<Rightarrow> container list \<Rightarrow> string \<Rightarrow> nat" where
  "usage cid cs n = (\<Sum>c\<leftarrow>filter (managed_other cid) cs. count_list (ct_Networks c) n)"

definition count_in :: "(string \<times> nat) list \<Rightarrow> string \<Rightarrow> nat" where
  "count_in m n = (case map_of m n of Some k \<Rightarrow> k | None \<Rightarrow> 0)"

lemma count_in_bump: "count_in (bump n m) x = count_in m x + (if x = n then 1 else 0)"
  by (simp add: count_in_def bump_def update_conv' split: option.splits)

lemma distinct_bumps: "distinct (map fst m) \<Longrightarrow> distinct (map fst (fold bump ns m))"
  by (induction ns arbitrary: m) (simp_all add: bump_def distinct_update)

lemma count_in_bumps: "count_in (fold bump ns m) x = count_in m x + count_list ns x"
  by (induction ns arbitrary: m) (simp_all add: count_in_bump)

lemma count_filter: "count_list (filter P xs) x = (if P x then count_list xs x else 0)"
  by (induction xs) auto

lemma usage_Cons:
  "usage cid (c # cs) n = (if managed_other cid c then count_list (ct_Networks c) n else 0) + usage cid cs n"
  by (simp add: usage_def)

lemma candidate_fold:
  defines "f \<equiv> (\<lambda>cid c. if ct_ID c = cid \<or> lookup_str (ct_Labels c) ''managed-by'' \<noteq> ''lattice'' then id
     else fold bump (filter custom_network (ct_Networks c)))"
  shows "distinct (map fst m) \<Longrightarrow> distinct (map fst (fold (f cid) cs m)) \<and>
     count_in (fold (f cid) cs m) x = count_in m x + (if custom_network x then usage cid cs x else 0)"
proof (induction cs arbitrary: m)
  case Nil
  then show ?case by (simp add: usage_def)
next
  case (Cons c cs)
  have d: "distinct (map fst (f cid c m))" using Cons.prems by (simp add: f_def distinct_bumps)
  have "count_in (f cid c m) x = count_in m x + (if custom_network x \<and> managed_other cid c then count_list (ct_Networks c) x else 0)"
    by (simp add: f_def managed_other_def count_in_bumps count_filter)
  with Cons.IH [OF d] show ?case by (simp add: usage_Cons)
qed

lemma candidate_counts:
  "distinct (map fst (candidateNetworks cid cs))"
  "count_in (candidateNetworks cid cs) x = (if custom_network x then usage cid cs x else 0)"
  using candidate_fold [of "[]" cid cs x] by (simp_all add: candidateNetworks_def count_in_def)

lemma best_fold:
  fixes m :: "(string \<times> nat) list"
  assumes "fold (\<lambda>(n, k) (bn, bk). if k > bk then (n, k) else (bn, bk)) m (b, k) = (b', k')"
  shows "((b', k') = (b, k) \<or> (b', k') \<in> set m \<and> k < k') \<and> k \<le> k' \<and> (\<forall>(n, j)\<in>set m. j \<le> k')"
  using assms
proof (induction m arbitrary: b k)
  case (Cons p m)
  obtain n j where p: "p = (n, j)" by fastforce
  show ?case using Cons.IH [of "if j > k then n else b" "if j > k then j else k"] Cons.prems
    by (auto simp: p split: if_splits)
qed simp

text \<open>The chosen network is used by another managed container, and no custom network more often.\<close>

lemma best_network_choice:
  assumes "best_network (shuffle order (candidateNetworks cid cs)) = b" "b \<noteq> []"
  shows "custom_network b \<and> usage cid cs b > 0 \<and> (\<forall>n. custom_network n \<longrightarrow> usage cid cs n \<le> usage cid cs b)"
proof -
  let ?m = "candidateNetworks cid cs"
  obtain b1 k where f1: "fold (\<lambda>(n, k) (bn, bk). if k > bk then (n, k) else (bn, bk)) (shuffle order ?m) ([], 0) = (b1, k)"
    by fastforce
  with assms(1) have f: "fold (\<lambda>(n, k) (bn, bk). if k > bk then (n, k) else (bn, bk)) (shuffle order ?m) ([], 0) = (b, k)"
    by (simp add: best_network_def)
  have s: "(b, k) \<in> set ?m" "k > 0" "\<forall>(n, j)\<in>set ?m. j \<le> k"
    using best_fold [OF f] assms(2) by auto
  have b: "count_in ?m b = k" using s(1) candidate_counts(1) by (simp add: count_in_def)
  have mx: "count_in ?m n \<le> k" for n using s(3) by (auto simp: count_in_def split: option.splits dest: map_of_SomeD)
  show ?thesis using b mx s(2) candidate_counts(2) [of cid cs] by (metis not_gr_zero)
qed


section \<open>What a cycle does\<close>

text \<open>
  The monitor of a cycle: the listing it began with, the last listing, and the networks of
  the last container inspected.
\<close>

type_synonym nmstate = "container list option \<times> container list \<times> (string \<times> string list) option"

definition nm_nxt :: "nmstate \<Rightarrow> event \<Rightarrow> nmstate" where
  "nm_nxt s e = (case s of (start, recent, insp) \<Rightarrow> case e of
     EvList f (Inr cs) \<Rightarrow> (case start of None \<Rightarrow> Some cs | Some x \<Rightarrow> Some x, cs, insp)
   | EvInspect cid (Inr info) \<Rightarrow> (start, recent, Some (cid, map fst (cj_Networks info)))
   | _ \<Rightarrow> s)"

definition nm_ok :: "nmstate \<Rightarrow> event \<Rightarrow> bool" where
  "nm_ok s e = (case s of (start, recent, insp) \<Rightarrow> case e of
     EvNetConnect net cid al r \<Rightarrow>
       (\<exists>cs. start = Some cs \<and> (\<exists>c\<in>set cs. ct_ID c = cid \<and> ct_State c = ''running'')) \<and>
       (\<exists>ns. insp = Some (cid, ns) \<and> bridge_only ns) \<and>
       custom_network net \<and> usage cid recent net > 0 \<and>
       (\<forall>n. custom_network n \<longrightarrow> usage cid recent n \<le> usage cid recent net)
   | EvList f r \<Rightarrow> True | EvInspect cid r \<Rightarrow> True | EvSend b m \<Rightarrow> True
   | EvExt (EvExecCreate c a v r) \<Rightarrow> a = [''cat'', ''/etc/resolv.conf'']
   | EvExt (EvExecAttach x r) \<Rightarrow> True | EvExt (EvExecOutput x out err) \<Rightarrow> True | EvExt (EvExecClose x) \<Rightarrow> True
   | _ \<Rightarrow> False)"

lemma nm_simps [simp]:
  "nm_ok s (EvList f r)" "nm_ok s (EvInspect cid i)" "nm_ok s (EvSend b m)" "nm_nxt s (EvSend b m) = s"
  "nm_ok s (EvExt (EvExecCreate c [''cat'', ''/etc/resolv.conf''] v q))" "nm_nxt s (EvExt x) = s" "nm_nxt s (EvNetConnect net cid al e) = s"
  "nm_ok s (EvExt (EvExecAttach y e))" "nm_ok s (EvExt (EvExecOutput y out err))" "nm_ok s (EvExt (EvExecClose y))"
  "nm_nxt (st, rc, ip) (EvList f r) = (case r of Inr cs \<Rightarrow> (case st of None \<Rightarrow> Some cs | Some x \<Rightarrow> Some x, cs, ip) | Inl g \<Rightarrow> (st, rc, ip))"
  "nm_nxt (st, rc, ip) (EvInspect cid i) = (case i of Inr info \<Rightarrow> (st, rc, Some (cid, map fst (cj_Networks info))) | Inl g \<Rightarrow> (st, rc, ip))"
  by (cases s; simp add: nm_ok_def nm_nxt_def split: sum.splits)+

definition in_cycle :: "container list \<Rightarrow> nmstate \<Rightarrow> bool" where
  "in_cycle cs s = (fst s = Some cs)"

lemma bridge_only_set: "set xs = set ys \<Longrightarrow> bridge_only xs = bridge_only ys"
  by (auto simp: bridge_only_def list_ex_iff)

lemma track_repair:
  assumes "c \<in> set cs" "ct_State c = ''running''" "bridge_only ns" "snd (snd s) = Some (ct_ID c, ns)" "in_cycle cs s"
  shows "track nm_ok nm_nxt s (attemptNetworkRepair E (ct_ID c)) (\<lambda>_. in_cycle cs)"
proof -
  obtain st rc ip where s: "s = (st, rc, ip)" by (metis prod_cases3)
  have ok: "nm_ok (Some cs, xs, Some (ct_ID c, ns)) (EvNetConnect (best_network (shuffle od (candidateNetworks (ct_ID c) xs))) (ct_ID c) None r)"
    if "best_network (shuffle od (candidateNetworks (ct_ID c) xs)) \<noteq> []" for xs od r
    using best_network_choice [OF refl that] assms(1-3) by (auto simp: nm_ok_def)
  show ?thesis unfolding attemptNetworkRepair_def
    using assms(4,5) by (intro track_intros) (auto simp: s in_cycle_def intro!: track_intros ok)
qed

lemma track_dns: "in_cycle cs s \<Longrightarrow> track nm_ok nm_nxt s (checkDNS E cid name) (\<lambda>_. in_cycle cs)"
  unfolding checkDNS_def ExecInContainer_def diagnostic_cb_def
  by (intro track_intros) (auto intro!: track_intros split: prod.splits)


lemma track_network:
  assumes "c \<in> set cs" "ct_State c = ''running''" "in_cycle cs s"
  shows "track nm_ok nm_nxt s (checkContainerNetwork E (ct_ID c) name) (\<lambda>_. in_cycle cs)"
proof -
  let ?P = "\<lambda>r t. in_cycle cs t \<and> (\<forall>ns. r = Inr ns \<longrightarrow> (\<exists>ms. snd (snd t) = Some (ct_ID c, ms) \<and> set ms = set ns))"
  obtain st rc ip where s: "s = (st, rc, ip)" by (metis prod_cases3)
  have n: "track nm_ok nm_nxt s (ContainerNetworks E (ct_ID c)) ?P"
    unfolding ContainerNetworks_def using assms(3)
    by (intro track_intros) (auto simp: s in_cycle_def split: sum.splits)
  have d: "track nm_ok nm_nxt t (diagnostic_cb d) (\<lambda>_. in_cycle cs)" if "in_cycle cs t" for t d
    unfolding diagnostic_cb_def using that by (intro track_intros) simp_all
  have r: "track nm_ok nm_nxt t (do { x \<leftarrow> attemptNetworkRepair E (ct_ID c); diagnostic_cb (f x); checkDNS E (ct_ID c) name }) (\<lambda>_. in_cycle cs)"
    if b: "bridge_only ns" and p: "?P (Inr ns) t" for t ns f
  proof -
    obtain ms where ms: "snd (snd t) = Some (ct_ID c, ms)" "set ms = set ns" using p by blast
    have "bridge_only ms" using bridge_only_set [OF ms(2)] b by simp
    from track_repair [OF assms(1,2) this ms(1)] show ?thesis using p by (auto intro: track_bind d track_dns)
  qed
  show ?thesis unfolding checkContainerNetwork_def
    by (rule track_bind [OF n])
      (auto intro!: r track_case_sum track_bind_if track_bind_assoc track_bind_ret track_ret track_dns)
qed

lemma track_restart: "in_cycle cs s \<Longrightarrow> track nm_ok nm_nxt s (checkRestartLoop E cid name tab) (\<lambda>_. in_cycle cs)"
  unfolding checkRestartLoop_def restart_cb_def
  by (cases s; intro track_intros) (auto simp: in_cycle_def intro!: track_intros split: sum.splits prod.splits)

lemma track_check_one:
  assumes "c \<in> set cs" "in_cycle cs s"
  shows "track nm_ok nm_nxt s (check_one E c tab) (\<lambda>_. in_cycle cs)"
  unfolding check_one_def Let_def
  by (intro track_if track_ret assms(2) track_bind [OF track_restart [OF assms(2)]])
    (auto intro!: track_intros track_bind [OF track_network [OF assms(1)]])

lemma track_check_each:
  "set ds \<subseteq> set cs \<Longrightarrow> in_cycle cs s \<Longrightarrow> track nm_ok nm_nxt s (check_each E ds tab) (\<lambda>_. in_cycle cs)"
  by (induction ds arbitrary: s tab) (auto intro!: track_intros track_bind [OF track_check_one])

lemma nm_check_track: "track nm_ok nm_nxt (None, [], None) (nm_check E tab) (\<lambda>_ _. True)"
  unfolding nm_check_def
  by (intro track_intros) (auto simp: in_cycle_def intro!: track_intros track_bind [OF track_check_each])

text \<open>
  C37: Network repair is confined. In a cycle of the monitor, whatever the daemon answers, the
  only change it asks for is to connect a container to a network, and it does so only for a
  container that the cycle found running and whose networks, as last inspected, are the
  default bridge and no custom network; the network is a custom one that another
  container managed by Lattice is attached to, and none is used by more of them. Everything else it asks is to
  list, to inspect, to read \<open>/etc/resolv.conf\<close> and to report.
\<close>

theorem net_repair_confined: "accepted nm_ok nm_nxt (None, [], None) (events (nm_check E tab) h)"
  using track_events [OF nm_check_track] by blast

section \<open>Restart alarms\<close>

text \<open>The observations of one container in order, each a time and a restart count: the counts reported.\<close>

fun alarms :: "(int \<times> int) list \<Rightarrow> restartTracker option \<Rightarrow> (int \<times> int) list" where
  "alarms [] t = []"
| "alarms ((now, n) # obs) t = (let (a, t') = restart_step now n t in (if a then [(now, n)] else []) @ alarms obs (Some t'))"

text \<open>
  The restart alarm is re-armed too early. Its comment promises a new report only after
  five minutes without restarts, but the time compared is the one the container was first
  seen: for a container watched for more than five minutes, one observation without a new
  restart, however soon after the report, is enough, and the next restart is reported
  again. So a container that restarts on every other check raises an alarm on every other
  check, for all counts from three on.
\<close>

theorem restart_alarm_rearms_early:
  assumes "firstSeen t + 300000000000 < now" "\<not> tr_reported t" "lastCount t < n" "3 \<le> n" "0 \<le> d"
  shows "alarms [(now, n), (now + d, n), (now + d + e, n + 1)] (Some t) = [(now, n), (now + d + e, n + 1)]"
  using assms by (simp add: restart_step_def)

theorem restart_alarm_rearms_early_witness:
  "alarms [(360000000000, 3), (390000000000, 3), (420000000000, 4)] (Some \<lparr>lastCount = 0, firstSeen = 0, tr_reported = False\<rparr>) =
     [(360000000000, 3), (420000000000, 4)]"
  using restart_alarm_rearms_early [of "\<lparr>lastCount = 0, firstSeen = 0, tr_reported = False\<rparr>" 360000000000 3 30000000000 30000000000]
  by simp

text \<open>Only counts from three on, higher than the one seen before, are reported.\<close>

lemma alarms_justified:
  "(now, n) \<in> set (alarms obs t) \<Longrightarrow> n \<ge> 3 \<and> (now, n) \<in> set obs"
  by (induction obs t rule: alarms.induct) (auto simp: restart_step_def Let_def split: prod.splits if_splits option.splits)

section \<open>The table stays as small as the host\<close>

lemma extends_check_each: "extends (check_each E cs tab)"
proof (induction cs arbitrary: tab)
  case (Cons c cs)
  have "extends (check_one E c tab)"
    unfolding check_one_def checkRestartLoop_def restart_cb_def checkContainerNetwork_def ContainerNetworks_def
      attemptNetworkRepair_def diagnostic_cb_def checkDNS_def ExecInContainer_def Let_def
    by (intro emits_intros TrueI)
  with Cons.IH show ?case by (simp add: emits_bind)
qed (simp add: emits_return)

lemma nm_check_prunes:
  "does (nm_check E tab) (\<lambda>tab' es. tab' = tab \<or> (\<exists>cs. EvList [] (Inr cs) \<in> set es \<and> fst ` set tab' \<subseteq> ct_ID ` set cs))"
  unfolding nm_check_def
  by (intro does_intros does_bind_emits [OF extends_check_each]) auto

end
