(* ===== verification/Log_Streamer.thy ===== *)
theory Log_Streamer
  imports Names Transitions
begin

text \<open>
  The log streamer (docker/logstreamer.go): the frames of Docker's log stream and the lines
  in them, the loop that connects again and again, and the table of streams that each poll
  of the container list brings up to date. Times are nanoseconds with 0 for Go's zero time.
  \<open>time.Parse\<close> of a timestamp, the wall clock and the cancellation of the context are
  parameters; the bytes of a connection are those read before it ended.
\<close>

section \<open>Frames and lines\<close>

record LogLine =
  ll_ContainerID :: string
  ll_ContainerName :: string
  ll_Stream :: string
  ll_Message :: string
  ll_RecordedAt :: int

definition BigEndian_Uint32 :: "string \<Rightarrow> nat" where
  "BigEndian_Uint32 = foldl (\<lambda>n c. 256 * n + of_char c) 0"

definition maxLogLineSize :: nat where
  "maxLogLineSize = 1 * 1024 * 1024"

definition TrimRight_nl :: "string \<Rightarrow> string" where
  "TrimRight_nl s = rev (dropWhile (\<lambda>c. c = CHR 0x0A) (rev s))"

text \<open>
  One payload: the time of its line, the message, and the last time seen. \<open>wall\<close> is the wall
  clock, read when the line has no timestamp.
\<close>

definition read_line :: "(string \<Rightarrow> int option) \<Rightarrow> int \<Rightarrow> int \<Rightarrow> string \<Rightarrow> int \<times> string \<times> int" where
  "read_line Parse wall lastSeen rawLine =
     (let (lineTime, seen, m) = (case Index rawLine '' '' of
            Some idx \<Rightarrow> if idx > 0 then (case Parse (take idx rawLine) of
                Some t \<Rightarrow> (t, t, drop (idx + 1) rawLine)
              | None \<Rightarrow> (0, lastSeen, rawLine)) else (0, lastSeen, rawLine)
          | None \<Rightarrow> (0, lastSeen, rawLine)) in
      if lineTime = 0 then (wall, m, if seen = 0 then wall else seen) else (lineTime, m, seen))"

text \<open>
  The loop of \<open>doStream\<close> on the bytes of the connection, with the number of frames read so
  far: whether the context is cancelled at the head of the loop, and the wall clock, are
  functions of it.
\<close>

function read_frames :: "(string \<Rightarrow> int option) \<Rightarrow> (nat \<Rightarrow> int) \<Rightarrow> (nat \<Rightarrow> bool) \<Rightarrow> string \<Rightarrow> string \<Rightarrow> nat \<Rightarrow> int \<Rightarrow> string \<Rightarrow> LogLine list \<times> int" where
  "read_frames Parse wall cancelled cid name i lastSeen bs =
     (if cancelled i \<or> length bs < 8 then ([], lastSeen)
      else let streamType = (if hd bs = CHR 0x02 then ''stderr'' else ''stdout'');
               size = BigEndian_Uint32 (take 4 (drop 4 bs)); rest = drop 8 bs in
        if size = 0 then read_frames Parse wall cancelled cid name (Suc i) lastSeen rest
        else if length rest < size then ([], lastSeen)
        else if size > maxLogLineSize then read_frames Parse wall cancelled cid name (Suc i) lastSeen (drop size rest)
        else let rawLine = TrimRight_nl (take size rest) in
          if rawLine = [] then read_frames Parse wall cancelled cid name (Suc i) lastSeen (drop size rest)
          else let (lineTime, m, seen) = read_line Parse (wall i) lastSeen rawLine;
                   (ls, end) = read_frames Parse wall cancelled cid name (Suc i) seen (drop size rest) in
            (if m = [] then ls else \<lparr>ll_ContainerID = cid, ll_ContainerName = name, ll_Stream = streamType,
                ll_Message = m, ll_RecordedAt = lineTime\<rparr> # ls, end))"
  by pat_completeness auto
termination by (relation "measure (\<lambda>(Parse, wall, cancelled, cid, name, i, lastSeen, bs). length bs)") auto

declare read_frames.simps [simp del]

text \<open>What the daemon answers to a request for the log: not found, another error, or bytes.\<close>

datatype opened = NotFound | OpenErr goerr | Opened string

definition doStream :: "(string \<Rightarrow> int option) \<Rightarrow> (nat \<Rightarrow> int) \<Rightarrow> (nat \<Rightarrow> bool) \<Rightarrow> string \<Rightarrow> string \<Rightarrow> opened \<Rightarrow> LogLine list \<times> int \<times> bool" where
  "doStream Parse wall cancelled cid name reader = (case reader of
     NotFound \<Rightarrow> ([], 0, True)
   | OpenErr e \<Rightarrow> ([], 0, False)
   | Opened bs \<Rightarrow> (let (ls, lastSeen) = read_frames Parse wall cancelled cid name 0 0 bs in (ls, lastSeen, False)))"

section \<open>Connecting again\<close>

text \<open>The options of a request for the log: the number of lines and the first time wanted.\<close>

definition stream_opts :: "int \<Rightarrow> string \<times> int option" where
  "stream_opts since = (if since = 0 then (''100'', None) else (''all'', Some (since + 1)))"

definition maxBackoff :: int where
  "maxBackoff = 30 * 1000000000"

definition next_backoff :: "int \<Rightarrow> int" where
  "next_backoff b = (if b < maxBackoff then (let b2 = b * 2 in if b2 > maxBackoff then maxBackoff else b2) else b)"

text \<open>
  One turn of the loop of \<open>stream\<close>, from the outcome of \<open>doStream\<close>: \<open>None\<close> when it returns,
  else the wait and the state \<open>(since, backoff)\<close> of the next turn. \<open>ctxErr\<close> is the state of the
  context after the stream, \<open>ctxDone\<close> whether it ends during the wait.
\<close>

definition stream_turn :: "int \<Rightarrow> bool \<Rightarrow> bool \<Rightarrow> bool \<Rightarrow> int \<times> int \<Rightarrow> (int \<times> int \<times> int) option" where
  "stream_turn lastSeen gone ctxErr ctxDone s = (case s of (since0, backoff0) \<Rightarrow>
     let since = (if lastSeen \<noteq> 0 then lastSeen else since0); backoff = (if lastSeen \<noteq> 0 then 1000000000 else backoff0) in
     if ctxErr \<or> gone \<or> ctxDone then None else Some (backoff, since, next_backoff backoff))"

text \<open>
  The loop against a daemon: \<open>ask (tail, since)\<close> is its answer to the n-th request. The turns
  of a loop that is not cancelled, as many as are given: the lines handed to the callback.
\<close>

fun stream_turns :: "(string \<Rightarrow> int option) \<Rightarrow> (nat \<Rightarrow> int) \<Rightarrow> string \<Rightarrow> string \<Rightarrow> (string \<times> int option \<Rightarrow> opened) list \<Rightarrow> int \<times> int \<Rightarrow> LogLine list" where
  "stream_turns Parse wall cid name [] s = []"
| "stream_turns Parse wall cid name (ask # asks) s =
     (let (ls, lastSeen, gone) = doStream Parse wall (\<lambda>_. False) cid name (ask (stream_opts (fst s))) in
      ls @ (case stream_turn lastSeen gone False False s of None \<Rightarrow> [] | Some (wait, s') \<Rightarrow> stream_turns Parse wall cid name asks s'))"

section \<open>The stream a daemon sends\<close>

text \<open>
  Docker's format: a header with the stream and the size, and a payload with a timestamp, a
  space, the message and a newline. \<open>Format\<close> prints a timestamp.
\<close>

record entry =
  en_err :: bool
  en_time :: int
  en_msg :: string

definition be32 :: "nat \<Rightarrow> string" where
  "be32 n = map char_of [n div 16777216, n div 65536 mod 256, n div 256 mod 256, n mod 256]"

definition enc :: "(int \<Rightarrow> string) \<Rightarrow> entry \<Rightarrow> string" where
  "enc Format e = (let p = Format (en_time e) @ '' '' @ en_msg e @ [CHR 0x0A] in
     [if en_err e then CHR 0x02 else CHR 0x01, CHR 0x00, CHR 0x00, CHR 0x00] @ be32 (length p) @ p)"

definition journal_ok :: "(string \<Rightarrow> int option) \<Rightarrow> (int \<Rightarrow> string) \<Rightarrow> entry \<Rightarrow> bool" where
  "journal_ok Parse Format e =
     (let ts = Format (en_time e) in en_time e > 0 \<and> ts \<noteq> [] \<and> CHR '' '' \<notin> set ts \<and> Parse ts = Some (en_time e) \<and>
      (en_msg e = [] \<or> last (en_msg e) \<noteq> CHR 0x0A) \<and> length ts + length (en_msg e) + 2 \<le> maxLogLineSize)"

definition line_of_entry :: "string \<Rightarrow> string \<Rightarrow> entry \<Rightarrow> LogLine" where
  "line_of_entry cid name e = \<lparr>ll_ContainerID = cid, ll_ContainerName = name,
     ll_Stream = (if en_err e then ''stderr'' else ''stdout''), ll_Message = en_msg e, ll_RecordedAt = en_time e\<rparr>"

definition log_lines :: "string \<Rightarrow> string \<Rightarrow> entry list \<Rightarrow> LogLine list" where
  "log_lines cid name es = map (line_of_entry cid name) (filter (\<lambda>e. en_msg e \<noteq> []) es)"

definition last_time :: "int \<Rightarrow> entry list \<Rightarrow> int" where
  "last_time t es = (if es = [] then t else en_time (last es))"

lemma BigEndian_be32:
  assumes "n < 2 ^ 32"
  shows "BigEndian_Uint32 (be32 n) = n"
proof -
  have d: "n div 65536 = n div 256 div 256" "n div 16777216 = n div 256 div 256 div 256"
    by (simp_all flip: div_mult2_eq)
  have "n div 256 div 256 div 256 < 256" using assms by (simp flip: div_mult2_eq add: less_mult_imp_div_less)
  then have "BigEndian_Uint32 (be32 n) =
      256 * (256 * (256 * (n div 256 div 256 div 256) + n div 256 div 256 mod 256) + n div 256 mod 256) + n mod 256"
    by (simp add: BigEndian_Uint32_def be32_def d)
  also have "\<dots> = n" by (simp only: mult_div_mod_eq)
  finally show ?thesis .
qed

lemma Index_space: "CHR '' '' \<notin> set ts \<Longrightarrow> Index (ts @ CHR '' '' # m) '' '' = Some (length ts)"
  by (induction ts) (auto simp: HasPrefix_def)

lemma TrimRight_nl_snoc: "s \<noteq> [] \<Longrightarrow> last s \<noteq> CHR 0x0A \<Longrightarrow> TrimRight_nl (s @ [CHR 0x0A]) = s"
  by (cases s rule: rev_cases) (simp_all add: TrimRight_nl_def)

lemma length_be32 [simp]: "length (be32 n) = 4"
  by (simp add: be32_def)

text \<open>One frame is read as one line, whatever follows it.\<close>

lemma read_frame_step:
  assumes "\<not> length bs < 8" "BigEndian_Uint32 (take 4 (drop 4 bs)) = sz" "drop 8 bs = p @ rest"
    "sz = length p" "p \<noteq> []" "length p \<le> maxLogLineSize" "TrimRight_nl p = raw" "raw \<noteq> []"
    "read_line Parse (wall i) lastSeen raw = (lineTime, m, seen)" "hd bs = (if b then CHR 0x02 else CHR 0x01)"
  shows "read_frames Parse wall (\<lambda>_. False) cid name i lastSeen bs =
    (let (ls, t) = read_frames Parse wall (\<lambda>_. False) cid name (Suc i) seen rest in
     (if m = [] then ls else \<lparr>ll_ContainerID = cid, ll_ContainerName = name, ll_Stream = (if b then ''stderr'' else ''stdout''),
        ll_Message = m, ll_RecordedAt = lineTime\<rparr> # ls, t))"
proof -
  have s: "take sz (p @ rest) = p" "drop sz (p @ rest) = rest" "\<not> length (p @ rest) < sz" "sz \<noteq> 0" "\<not> sz > maxLogLineSize"
    using assms(4-6) by auto
  have "(hd bs = CHR 0x02) = b" using assms(10) by simp
  then show ?thesis
    by (simp only: read_frames.simps [of Parse wall "\<lambda>_. False" cid name i lastSeen bs] Let_def assms(1,2,3,7,8,9) s if_False if_True simp_thms prod.case)
qed

lemma read_enc:
  assumes "journal_ok Parse Format e"
  shows "read_frames Parse wall (\<lambda>_. False) cid name i lastSeen (enc Format e @ bs) =
    (let (ls, t) = read_frames Parse wall (\<lambda>_. False) cid name (Suc i) (en_time e) bs in (log_lines cid name [e] @ ls, t))"
proof -
  let ?ts = "Format (en_time e)" and ?m = "en_msg e"
  let ?p = "?ts @ '' '' @ ?m @ [CHR 0x0A]"
  have ok: "en_time e > 0" "?ts \<noteq> []" "CHR '' '' \<notin> set ?ts" "Parse ?ts = Some (en_time e)"
      "?m = [] \<or> last ?m \<noteq> CHR 0x0A" "length ?p \<le> maxLogLineSize"
    using assms by (simp_all add: journal_ok_def Let_def)
  have "read_frames Parse wall (\<lambda>_. False) cid name i lastSeen (enc Format e @ bs) =
    (let (ls, t) = read_frames Parse wall (\<lambda>_. False) cid name (Suc i) (en_time e) bs in
     (if ?m = [] then ls else \<lparr>ll_ContainerID = cid, ll_ContainerName = name, ll_Stream = (if en_err e then ''stderr'' else ''stdout''),
        ll_Message = ?m, ll_RecordedAt = en_time e\<rparr> # ls, t))"
  proof (rule read_frame_step [where p = ?p and raw = "?ts @ CHR '' '' # ?m" and sz = "length ?p"])
    show "BigEndian_Uint32 (take 4 (drop 4 (enc Format e @ bs))) = length ?p"
      using ok(6) BigEndian_be32 [of "length ?p"] by (simp add: enc_def Let_def maxLogLineSize_def)
    show "TrimRight_nl ?p = ?ts @ CHR '' '' # ?m"
      using TrimRight_nl_snoc [of "?ts @ CHR '' '' # ?m"] ok(5) by (cases ?m) simp_all
    show "read_line Parse (wall i) lastSeen (?ts @ CHR '' '' # ?m) = (en_time e, ?m, en_time e)"
      using ok by (simp add: read_line_def Index_space)
    show "length ?p \<le> maxLogLineSize" by (rule ok(6))
  qed (simp_all add: enc_def Let_def)
  then show ?thesis by (simp add: log_lines_def line_of_entry_def split: prod.splits)
qed

text \<open>A stream cut after any number of bytes yields the lines of its complete frames, in order.\<close>

lemma log_lines_append: "log_lines cid name (xs @ ys) = log_lines cid name xs @ log_lines cid name ys"
  by (simp add: log_lines_def)

lemma read_cut_frame:
  assumes "journal_ok Parse Format e" "n < length (enc Format e)"
  shows "read_frames Parse wall (\<lambda>_. False) cid name i lastSeen (take n (enc Format e)) = ([], lastSeen)"
proof (cases "n < 8")
  case True
  then have "length (take n (enc Format e)) < 8" by simp
  then show ?thesis by (simp only: read_frames.simps [of Parse wall "\<lambda>_. False" cid name i lastSeen "take n (enc Format e)"] simp_thms if_True)
next
  case False
  let ?p = "Format (en_time e) @ '' '' @ en_msg e @ [CHR 0x0A]" and ?b = "take n (enc Format e)"
  have l: "length (enc Format e) = 8 + length ?p" by (simp add: enc_def Let_def)
  have m: "length ?p \<le> maxLogLineSize" using assms(1) by (simp add: journal_ok_def Let_def)
  have "take 4 (drop 4 ?b) = be32 (length ?p)" using False by (simp add: enc_def Let_def take_drop drop_take)
  then have sz: "BigEndian_Uint32 (take 4 (drop 4 ?b)) = length ?p"
    using m BigEndian_be32 [of "length ?p"] by (simp add: maxLogLineSize_def)
  have r: "\<not> length ?b < 8" "length (drop 8 ?b) < length ?p" "length ?p \<noteq> 0" using False assms(2) l by auto
  show ?thesis
    by (simp only: read_frames.simps [of Parse wall "\<lambda>_. False" cid name i lastSeen ?b] Let_def sz r if_False if_True simp_thms)
qed

lemma read_cut:
  assumes "\<forall>e\<in>set es. journal_ok Parse Format e"
  shows "\<exists>k\<le>length es. read_frames Parse wall (\<lambda>_. False) cid name i lastSeen (take n (concat (map (enc Format) es))) =
     (log_lines cid name (take k es), last_time lastSeen (take k es)) \<and>
     (length (concat (map (enc Format) es)) \<le> n \<longrightarrow> k = length es)"
  using assms
proof (induction es arbitrary: n i lastSeen)
  case Nil
  then show ?case by (simp add: log_lines_def last_time_def read_frames.simps)
next
  case (Cons e es)
  have e: "journal_ok Parse Format e" using Cons.prems by simp
  show ?case
  proof (cases "n < length (enc Format e)")
    case True
    then have "read_frames Parse wall (\<lambda>_. False) cid name i lastSeen (take n (concat (map (enc Format) (e # es)))) = ([], lastSeen)"
      using read_cut_frame [OF e True] by simp
    then show ?thesis using True by (intro exI [of _ 0]) (simp add: log_lines_def last_time_def)
  next
    case False
    then have t: "take n (concat (map (enc Format) (e # es))) = enc Format e @ take (n - length (enc Format e)) (concat (map (enc Format) es))"
      by simp
    obtain k where k: "k \<le> length es" "read_frames Parse wall (\<lambda>_. False) cid name (Suc i) (en_time e)
        (take (n - length (enc Format e)) (concat (map (enc Format) es))) = (log_lines cid name (take k es), last_time (en_time e) (take k es))"
        "length (concat (map (enc Format) es)) \<le> n - length (enc Format e) \<longrightarrow> k = length es"
      using Cons.IH [of "Suc i" "en_time e" "n - length (enc Format e)"] Cons.prems by auto
    have "last_time (en_time e) (take k es) = last_time lastSeen (e # take k es)" by (simp add: last_time_def)
    then have "read_frames Parse wall (\<lambda>_. False) cid name i lastSeen (take n (concat (map (enc Format) (e # es)))) =
        (log_lines cid name (take (Suc k) (e # es)), last_time lastSeen (take (Suc k) (e # es)))"
      using log_lines_append [of cid name "[e]" "take k es"] by (simp only: t read_enc [OF e] k(2)) simp
    then show ?thesis using k(1,3) False by (intro exI [of _ "Suc k"]) auto
  qed
qed

section \<open>Each line once over all connections\<close>

text \<open>
  A daemon whose journal is \<open>jl\<close>, of which \<open>m\<close> entries are written when it is asked, and whose
  answer is cut after \<open>n\<close> bytes: the last hundred entries, or those from a time on.
\<close>

definition daemon :: "(int \<Rightarrow> string) \<Rightarrow> entry list \<Rightarrow> nat \<times> nat \<Rightarrow> string \<times> int option \<Rightarrow> opened" where
  "daemon Format jl mn opts = (case mn of (m, n) \<Rightarrow>
     let ws = take m jl;
         es = (case snd opts of None \<Rightarrow> drop (length ws - 100) ws | Some since \<Rightarrow> filter (\<lambda>e. since \<le> en_time e) ws) in
     Opened (take n (concat (map (enc Format) es))))"

definition whole :: "(int \<Rightarrow> string) \<Rightarrow> entry list \<Rightarrow> nat \<times> nat \<Rightarrow> bool" where
  "whole Format jl mn = (length jl \<le> fst mn \<and> length (concat (map (enc Format) jl)) \<le> snd mn)"

lemma later_entries:
  assumes "sorted_wrt (<) (map en_time jl)" "0 < p" "p \<le> length jl"
  shows "filter (\<lambda>e. en_time (jl ! (p - 1)) + 1 \<le> en_time e) (take m jl) = drop p (take m jl)"
proof -
  have lt: "en_time (jl ! i) < en_time (jl ! j)" if "i < j" "j < length jl" for i j
    using assms(1) that by (simp add: sorted_wrt_iff_nth_less)
  have a: "filter (\<lambda>e. en_time (jl ! (p - 1)) + 1 \<le> en_time e) (take p (take m jl)) = []"
  proof (rule filter_False, rule ballI)
    fix e assume "e \<in> set (take p (take m jl))"
    then obtain i where "i < p" "i < length jl" "e = jl ! i" by (auto simp: in_set_conv_nth)
    then show "\<not> en_time (jl ! (p - 1)) + 1 \<le> en_time e" using lt [of i "p - 1"] assms(2,3) by (cases "i < p - 1") (auto simp: less_eq_Suc_le antisym_conv2 dest: le_antisym)
  qed
  have b: "filter (\<lambda>e. en_time (jl ! (p - 1)) + 1 \<le> en_time e) (drop p (take m jl)) = drop p (take m jl)"
  proof (rule filter_True, rule ballI)
    fix e assume "e \<in> set (drop p (take m jl))"
    then obtain i where "i < length (drop p (take m jl))" "e = drop p (take m jl) ! i" unfolding in_set_conv_nth by blast
    then have "p + i < length jl" "e = jl ! (p + i)" by (auto simp: drop_take)
    moreover have "p - 1 < p + i" using assms(2) by simp
    ultimately show "en_time (jl ! (p - 1)) + 1 \<le> en_time e" using lt [of "p - 1" "p + i"] by simp
  qed
  show ?thesis using a b by (metis append_Nil append_take_drop_id filter_append)
qed

lemma concat_enc_drop: "length (concat (map (enc Format) (drop p jl))) \<le> length (concat (map (enc Format) jl))"
proof -
  have "concat (map (enc Format) jl) = concat (map (enc Format) (take p jl)) @ concat (map (enc Format) (drop p jl))"
    by (metis append_take_drop_id concat_append map_append)
  then show ?thesis by simp
qed

text \<open>One connection on a part of the journal that begins at \<open>p\<close>.\<close>

lemma connection:
  assumes "\<forall>e\<in>set jl. journal_ok Parse Format e"
    and "daemon Format jl (m, n) opts = Opened (take n (concat (map (enc Format) (drop p (take m jl)))))"
  shows "\<exists>k. k \<le> length (drop p (take m jl)) \<and>
     doStream Parse wall (\<lambda>_. False) cid name (daemon Format jl (m, n) opts) =
       (log_lines cid name (take k (drop p jl)), (if k = 0 then 0 else en_time (jl ! (p + k - 1))), False) \<and>
     (whole Format jl (m, n) \<longrightarrow> k = length jl - p)"
proof -
  let ?es = "drop p (take m jl)"
  have ok: "\<forall>e\<in>set ?es. journal_ok Parse Format e" using assms(1) by (auto dest: in_set_dropD in_set_takeD)
  obtain k where k: "k \<le> length ?es" "read_frames Parse wall (\<lambda>_. False) cid name 0 0 (take n (concat (map (enc Format) ?es))) =
      (log_lines cid name (take k ?es), last_time 0 (take k ?es))" "length (concat (map (enc Format) ?es)) \<le> n \<longrightarrow> k = length ?es"
    using read_cut [OF ok, of wall cid name 0 0 n] by blast
  have t: "take k ?es = take k (drop p jl)" using k(1) by (simp add: drop_take take_take min_absorb1)
  have "last_time 0 (take k (drop p jl)) = (if k = 0 then 0 else en_time (jl ! (p + k - 1)))"
  proof (cases "k = 0")
    case False
    have "k \<le> length jl - p" using k(1) by simp
    then have "length (take k (drop p jl)) = k" "p < length jl" using False by auto
    then show ?thesis using False by (simp add: last_time_def last_conv_nth del: length_take)
  qed (simp add: last_time_def)
  moreover have "k = length jl - p" if "whole Format jl (m, n)"
    using that k(3) concat_enc_drop [of Format p jl] by (simp add: whole_def)
  ultimately show ?thesis using k(1,2) by (intro exI [of _ k]) (simp add: doStream_def assms(2) t)
qed

lemma entry_time_pos: "\<forall>e\<in>set jl. journal_ok Parse Format e \<Longrightarrow> i < length jl \<Longrightarrow> 0 < en_time (jl ! i)"
  by (simp add: journal_ok_def Let_def)

lemma turns_after:
  assumes "sorted_wrt (<) (map en_time jl)" "\<forall>e\<in>set jl. journal_ok Parse Format e" "0 < p" "p \<le> length jl"
  shows "\<exists>k. p + k \<le> length jl \<and>
    stream_turns Parse wall cid name (map (daemon Format jl) mns) (en_time (jl ! (p - 1)), b) = log_lines cid name (take k (drop p jl)) \<and>
    (mns \<noteq> [] \<and> whole Format jl (last mns) \<longrightarrow> p + k = length jl)"
  using assms(3,4)
proof (induction mns arbitrary: p b)
  case Nil
  then show ?case by (intro exI [of _ 0]) (simp add: log_lines_def)
next
  case (Cons mn mns)
  obtain m n where mn: "mn = (m, n)" by fastforce
  let ?t = "en_time (jl ! (p - 1))"
  have t: "?t > 0" using entry_time_pos [OF assms(2), of "p - 1"] Cons.prems by simp
  have "daemon Format jl (m, n) (stream_opts ?t) = Opened (take n (concat (map (enc Format) (drop p (take m jl)))))"
    using t later_entries [OF assms(1) Cons.prems, of m] by (simp add: daemon_def stream_opts_def Let_def)
  from connection [OF assms(2) this, of wall cid name] obtain k where k: "k \<le> length (drop p (take m jl))"
      "doStream Parse wall (\<lambda>_. False) cid name (daemon Format jl (m, n) (stream_opts ?t)) =
       (log_lines cid name (take k (drop p jl)), (if k = 0 then 0 else en_time (jl ! (p + k - 1))), False)"
      "whole Format jl (m, n) \<longrightarrow> k = length jl - p" by blast
  have le: "p + k \<le> length jl" using k(1) Cons.prems by simp
  have nz: "k > 0 \<Longrightarrow> en_time (jl ! (p + k - 1)) \<noteq> 0" using entry_time_pos [OF assms(2), of "p + k - 1"] le by fastforce
  obtain b' where tn: "stream_turn (if k = 0 then 0 else en_time (jl ! (p + k - 1))) False False False (?t, b) =
      Some (b', en_time (jl ! (p + k - 1)), next_backoff b')"
    using nz by (cases "k = 0") (auto simp: stream_turn_def)
  obtain j where j: "p + k + j \<le> length jl"
      "stream_turns Parse wall cid name (map (daemon Format jl) mns) (en_time (jl ! (p + k - 1)), next_backoff b') = log_lines cid name (take j (drop (p + k) jl))"
      "mns \<noteq> [] \<and> whole Format jl (last mns) \<longrightarrow> p + k + j = length jl"
    using Cons.IH [of "p + k" "next_backoff b'"] Cons.prems le by auto
  have "log_lines cid name (take (k + j) (drop p jl)) = log_lines cid name (take k (drop p jl)) @ log_lines cid name (take j (drop (p + k) jl))"
    by (simp add: take_add log_lines_append add.commute [of k p])
  moreover have "p + (k + j) = length jl" if "whole Format jl (last (mn # mns))"
    using that j k(3) le by (cases mns) (auto simp: mn)
  ultimately show ?case using j k(2) tn by (intro exI [of _ "k + j"]) (simp add: mn add.assoc)
qed

lemma turns_start:
  assumes "sorted_wrt (<) (map en_time jl)" "\<forall>e\<in>set jl. journal_ok Parse Format e"
  shows "\<exists>a k. a + k \<le> length jl \<and>
    stream_turns Parse wall cid name (map (daemon Format jl) mns) (0, b) = log_lines cid name (take k (drop a jl)) \<and>
    (mns \<noteq> [] \<and> whole Format jl (last mns) \<longrightarrow> a + k = length jl)"
proof (induction mns arbitrary: b)
  case Nil
  then show ?case by (intro exI [of _ 0]) (simp add: log_lines_def)
next
  case (Cons mn mns)
  obtain m n where mn: "mn = (m, n)" by fastforce
  define a where "a = length (take m jl) - 100"
  have "daemon Format jl (m, n) (stream_opts 0) = Opened (take n (concat (map (enc Format) (drop a (take m jl)))))"
    by (simp add: daemon_def stream_opts_def a_def)
  from connection [OF assms(2) this, of wall cid name] obtain k where k: "k \<le> length (drop a (take m jl))"
      "doStream Parse wall (\<lambda>_. False) cid name (daemon Format jl (m, n) (stream_opts 0)) =
       (log_lines cid name (take k (drop a jl)), (if k = 0 then 0 else en_time (jl ! (a + k - 1))), False)"
      "whole Format jl (m, n) \<longrightarrow> k = length jl - a" by blast
  have le: "a \<le> length jl" "a + k \<le> length jl" using k(1) by (auto simp: a_def)
  show ?case
  proof (cases "k = 0")
    case True
    obtain c j where j: "c + j \<le> length jl"
        "stream_turns Parse wall cid name (map (daemon Format jl) mns) (0, next_backoff b) = log_lines cid name (take j (drop c jl))"
        "mns \<noteq> [] \<and> whole Format jl (last mns) \<longrightarrow> c + j = length jl"
      using Cons.IH [of "next_backoff b"] by blast
    show ?thesis
    proof (cases mns)
      case Nil
      then show ?thesis using True k(2,3) le by (intro exI [of _ a] exI [of _ 0]) (auto simp: mn log_lines_def split: option.splits)
    next
      case Cons2: (Cons x xs)
      then show ?thesis using True k(2) j
        by (intro exI [of _ c] exI [of _ j]) (simp add: mn stream_turn_def log_lines_def)
    qed
  next
    case False
    have nz: "en_time (jl ! (a + k - 1)) \<noteq> 0" using entry_time_pos [OF assms(2), of "a + k - 1"] le False by fastforce
    have tn: "stream_turn (en_time (jl ! (a + k - 1))) False False False (0, b) = Some (1000000000, en_time (jl ! (a + k - 1)), next_backoff 1000000000)"
      using nz by (simp add: stream_turn_def)
    obtain j where j: "a + k + j \<le> length jl"
      "stream_turns Parse wall cid name (map (daemon Format jl) mns) (en_time (jl ! (a + k - 1)), next_backoff 1000000000) =
         log_lines cid name (take j (drop (a + k) jl))"
      "mns \<noteq> [] \<and> whole Format jl (last mns) \<longrightarrow> a + k + j = length jl"
      using turns_after [OF assms, of "a + k" wall cid name mns "next_backoff 1000000000"] le False by auto
    have "log_lines cid name (take (k + j) (drop a jl)) = log_lines cid name (take k (drop a jl)) @ log_lines cid name (take j (drop (a + k) jl))"
      by (simp add: take_add log_lines_append add.commute [of k a])
    moreover have "a + (k + j) = length jl" if "whole Format jl (last (mn # mns))"
      using that j k(3) le by (cases mns) (auto simp: mn)
    ultimately show ?thesis using j k(2) tn False by (intro exI [of _ a] exI [of _ "k + j"]) (simp add: mn add.assoc)
  qed
qed


definition demo_journal :: "entry list" where
  "demo_journal = [\<lparr>en_err = False, en_time = 5, en_msg = ''up''\<rparr>, \<lparr>en_err = True, en_time = 9, en_msg = ''oops''\<rparr>]"


text \<open>The waits grow by doubling from one second and never exceed thirty.\<close>

lemma backoff_bounds: "1000000000 \<le> b \<Longrightarrow> b \<le> maxBackoff \<Longrightarrow> 1000000000 \<le> next_backoff b \<and> next_backoff b \<le> maxBackoff"
  by (simp add: next_backoff_def maxBackoff_def Let_def)

lemma stream_turn_waits:
  assumes "stream_turn lastSeen gone ctxErr ctxDone (since, b) = Some (w, since', b')" "1000000000 \<le> b" "b \<le> maxBackoff"
  shows "1000000000 \<le> w \<and> w \<le> maxBackoff \<and> 1000000000 \<le> b' \<and> b' \<le> maxBackoff"
  using assms backoff_bounds [of w] by (auto simp: stream_turn_def Let_def maxBackoff_def split: if_splits)

section \<open>The table of streams\<close>

text \<open>
  \<open>sync\<close> on the containers listed: the streams in the table are numbered, \<open>done\<close> tells which
  have returned, and \<open>next\<close> is the number of the next one. The result is the table, the
  streams started with their container and name, and the streams cancelled.
\<close>

definition streamable :: "container list \<Rightarrow> (string \<times> string) list" where
  "streamable cs = fold (\<lambda>c m. if ct_State c = ''running'' \<or> ct_State c = ''restarting''
     then AList.update (ct_ID c) (case ct_Names c of [] \<Rightarrow> [] | n # _ \<Rightarrow> CanonicalContainerName (TrimPrefix n ''/'')) m else m) cs []"

type_synonym tracked = "(string \<times> nat) list"

definition start_new :: "nat list \<Rightarrow> (string \<times> string) list \<Rightarrow> nat \<Rightarrow> tracked \<Rightarrow> tracked" where
  "start_new order sm next tr =
     zip (map fst (filter (\<lambda>(cid, name). map_of tr cid = None) (shuffle order sm))) [next..<next + length sm] @ tr"

definition ls_sync :: "nat list \<Rightarrow> container list res \<Rightarrow> (nat \<Rightarrow> bool) \<Rightarrow> nat \<Rightarrow> tracked \<Rightarrow> tracked \<times> nat list" where
  "ls_sync order listed done next tr = (case listed of
     Inl e \<Rightarrow> (tr, [])
   | Inr cs \<Rightarrow>
       let sm = streamable cs;
           alive = filter (\<lambda>(cid, g). \<not> done g) tr;
           all = start_new order sm next alive in
       (filter (\<lambda>(cid, g). map_of sm cid \<noteq> None) all, map snd (filter (\<lambda>(cid, g). map_of sm cid = None) all)))"

definition stopAll :: "tracked \<Rightarrow> tracked \<times> nat list" where
  "stopAll tr = ([], map snd tr)"

text \<open>
  The streamer and its goroutines: the streams that run (neither returned nor cancelled),
  with their container, and those that have returned. \<open>LPoll\<close> is one \<open>sync\<close>, \<open>LReturn\<close> the
  return of a stream, which closes its channel, and \<open>LStop\<close> the end of \<open>Run\<close>.
\<close>

record lworld =
  lw_next :: nat
  lw_tr :: tracked
  lw_run :: "(nat \<times> string) set"
  lw_done :: "nat set"

definition ls_started :: "nat \<Rightarrow> tracked \<Rightarrow> (nat \<times> string) set" where
  "ls_started next tr = {(g, cid). (cid, g) \<in> set tr \<and> g \<ge> next}"

definition poll :: "nat list \<Rightarrow> container list res \<Rightarrow> lworld \<Rightarrow> lworld" where
  "poll order listed w = (let (tr, cancelled) = ls_sync order listed (\<lambda>g. g \<in> lw_done w) (lw_next w) (lw_tr w) in
     w\<lparr>lw_next := lw_next w + (case listed of Inl e \<Rightarrow> 0 | Inr cs \<Rightarrow> length (streamable cs)), lw_tr := tr,
       lw_run := {(g, cid). (g, cid) \<in> lw_run w \<and> g \<notin> set cancelled} \<union> ls_started (lw_next w) tr\<rparr>)"

inductive lsstep :: "lworld \<Rightarrow> lworld \<Rightarrow> bool" where
  LPoll: "lsstep w (poll order listed w)"
| LReturn: "(g, cid) \<in> lw_run w \<Longrightarrow> lsstep w (w\<lparr>lw_run := lw_run w - {(g, cid)}, lw_done := insert g (lw_done w)\<rparr>)"
| LStop: "stopAll (lw_tr w) = (tr, cancelled) \<Longrightarrow>
    lsstep w (w\<lparr>lw_tr := tr, lw_run := {(g, cid). (g, cid) \<in> lw_run w \<and> g \<notin> set cancelled}\<rparr>)"

definition lsstart :: "lworld \<Rightarrow> bool" where
  "lsstart w = (lw_tr w = [] \<and> lw_run w = {} \<and> lw_done w = {})"

definition lsinv :: "lworld \<Rightarrow> bool" where
  "lsinv w = (distinct (map fst (lw_tr w)) \<and> distinct (map snd (lw_tr w)) \<and> (\<forall>(cid, g)\<in>set (lw_tr w). g < lw_next w) \<and>
     (\<forall>g\<in>lw_done w. g < lw_next w) \<and> lw_run w = {(g, cid). (cid, g) \<in> set (lw_tr w) \<and> g \<notin> lw_done w})"

lemma distinct_streamable: "distinct (map fst (streamable cs))"
proof -
  have "distinct (map fst m) \<Longrightarrow> distinct (map fst (fold (\<lambda>c m. if ct_State c = ''running'' \<or> ct_State c = ''restarting''
     then AList.update (ct_ID c) (case ct_Names c of [] \<Rightarrow> [] | n # _ \<Rightarrow> CanonicalContainerName (TrimPrefix n ''/'')) m else m) cs m))" for m
    by (induction cs arbitrary: m) (simp_all add: distinct_update)
  then show ?thesis by (simp add: streamable_def)
qed

lemma start_new_facts:
  assumes "distinct (map fst tr)" "distinct (map snd tr)" "\<forall>(cid, g)\<in>set tr. g < nx" "distinct (map fst sm)"
    and n: "start_new order sm nx tr = n"
  shows "distinct (map fst n)" "distinct (map snd n)" "\<forall>(cid, g)\<in>set n. g < nx + length sm"
    "{p \<in> set n. snd p < nx} = set tr" "fst ` set sm \<subseteq> fst ` set n"
proof -
  let ?f = "map fst (filter (\<lambda>(cid, name). map_of tr cid = None) (shuffle order sm))"
  have d: "distinct (map fst (shuffle order sm))"
    using assms(4) mset_eq_imp_distinct_iff [of "map fst (shuffle order sm)" "map fst sm"] by simp
  have f: "set ?f \<inter> fst ` set tr = {}" "distinct ?f" "length ?f \<le> length sm" "set ?f \<union> fst ` set tr \<supseteq> fst ` set sm"
    using d length_filter_le [of "\<lambda>(cid, name). map_of tr cid = None" "shuffle order sm"]
    by (force simp: map_of_eq_None_iff distinct_map_filter)+
  let ?z = "zip ?f [nx..<nx + length sm]"
  have zf: "map fst ?z = ?f" using f(3) by (simp add: map_fst_zip_take)
  have zs: "map snd ?z = [nx..<nx + length ?f]" using f(3) by (simp add: map_snd_zip_take take_upt)
  have z: "nx \<le> snd p \<and> snd p < nx + length sm" if "p \<in> set ?z" for p
  proof -
    have "snd p \<in> set (map snd ?z)" using that by auto
    then show ?thesis unfolding zs using f(3) by auto
  qed
  have e: "n = ?z @ tr" using n by (simp add: start_new_def)
  show "distinct (map fst n)" using f(1,2) assms(1) zf by (simp add: e)
  show "distinct (map snd n)" using assms(2,3) zs by (fastforce simp: e)
  show "{p \<in> set n. snd p < nx} = set tr" using assms(3) z by (fastforce simp: e)
  show "\<forall>(cid, g)\<in>set n. g < nx + length sm" using assms(3) z by (fastforce simp: e)
  have "set (map fst n) = set ?f \<union> fst ` set tr" unfolding e map_append set_append zf by simp
  then show "fst ` set sm \<subseteq> fst ` set n" using f(4) by simp
qed

lemma distinct_filter_fst: "distinct (map fst xs) \<Longrightarrow> distinct (map fst (filter P xs))" "distinct (map snd xs) \<Longrightarrow> distinct (map snd (filter P xs))"
  by (simp_all add: distinct_map_filter)

lemma distinct_snd_unique: "distinct (map snd xs) \<Longrightarrow> (a, g) \<in> set xs \<Longrightarrow> (b, g) \<in> set xs \<Longrightarrow> a = b"
  by (induction xs) (force dest: in_set_conv_nth [THEN iffD1])+

text \<open>A poll that lists the containers leaves exactly one running stream for each that can be streamed.\<close>

lemma poll_lists:
  assumes "lsinv w"
  shows "lsinv (poll order (Inr cs) w) \<and> snd ` lw_run (poll order (Inr cs) w) = fst ` set (streamable cs)"
proof -
  let ?sm = "streamable cs" and ?tr = "filter (\<lambda>(cid, g). g \<notin> lw_done w) (lw_tr w)"
  define n where "n = start_new order ?sm (lw_next w) ?tr"
  have inv: "distinct (map fst (lw_tr w))" "distinct (map snd (lw_tr w))" "\<forall>(cid, g)\<in>set (lw_tr w). g < lw_next w"
      "\<forall>g\<in>lw_done w. g < lw_next w" "lw_run w = {(g, cid). (cid, g) \<in> set ?tr}"
    using assms by (auto simp: lsinv_def)
  have t: "distinct (map fst ?tr)" "distinct (map snd ?tr)" "\<forall>(cid, g)\<in>set ?tr. g < lw_next w"
    using inv(3) by (auto intro: distinct_filter_fst inv(1,2))
  note f = start_new_facts [OF t distinct_streamable n_def [symmetric]]
  let ?keep = "filter (\<lambda>(cid, g). map_of ?sm cid \<noteq> None) n" and ?out = "map snd (filter (\<lambda>(cid, g). map_of ?sm cid = None) n)"
  have s: "ls_sync order (Inr cs) (\<lambda>g. g \<in> lw_done w) (lw_next w) (lw_tr w) = (?keep, ?out)"
    by (simp add: ls_sync_def n_def Let_def)
  have old: "(cid, g) \<in> set ?tr \<longleftrightarrow> (cid, g) \<in> set n \<and> g < lw_next w" for cid g
    unfolding f(4) [symmetric] by simp
  have out: "g \<notin> set ?out \<longleftrightarrow> map_of ?sm cid \<noteq> None" if "(cid, g) \<in> set n" for cid g
  proof -
    have "g \<in> set ?out \<longleftrightarrow> (\<exists>c. (c, g) \<in> set n \<and> map_of ?sm c = None)" by (force simp del: map_of_eq_None_iff)
    also have "\<dots> \<longleftrightarrow> map_of ?sm cid = None" using that distinct_snd_unique [OF f(2) that] by metis
    finally show ?thesis by simp
  qed
  have run: "lw_run (poll order (Inr cs) w) = {(g, cid). (cid, g) \<in> set ?keep}"
  proof -
    have "lw_run (poll order (Inr cs) w) = {(g, cid). (cid, g) \<in> set ?tr \<and> g \<notin> set ?out} \<union> {(g, cid). (cid, g) \<in> set ?keep \<and> g \<ge> lw_next w}"
      unfolding poll_def s prod.case Let_def by (simp add: ls_started_def inv(5))
    also have "\<dots> = {(g, cid). (cid, g) \<in> set ?keep}"
    proof (rule set_eqI, clarify)
      fix g cid
      have k: "(cid, g) \<in> set ?keep \<longleftrightarrow> (cid, g) \<in> set n \<and> map_of ?sm cid \<noteq> None" by simp
      show "(g, cid) \<in> {(g, cid). (cid, g) \<in> set ?tr \<and> g \<notin> set ?out} \<union> {(g, cid). (cid, g) \<in> set ?keep \<and> g \<ge> lw_next w} \<longleftrightarrow>
        (g, cid) \<in> {(g, cid). (cid, g) \<in> set ?keep}"
        unfolding Un_iff mem_Collect_eq prod.case k old using out [of cid g] by (meson not_le)
    qed
    finally show ?thesis .
  qed
  have fresh: "g \<notin> lw_done w" if "(cid, g) \<in> set n" for cid g
    using that old [of cid g] inv(4) by (cases "g < lw_next w") auto
  have keep: "distinct (map fst ?keep)" "distinct (map snd ?keep)" by (rule distinct_filter_fst(1) [OF f(1)] distinct_filter_fst(2) [OF f(2)])+
  have "lsinv (poll order (Inr cs) w)"
    unfolding lsinv_def run using f(3) inv(4) keep fresh
    by (auto simp: poll_def s Let_def intro: trans_less_add1)
  moreover have "snd ` lw_run (poll order (Inr cs) w) = fst ` set ?sm"
    unfolding run using f(5) by (force simp: map_of_eq_None_iff)
  ultimately show ?thesis by blast
qed

lemma poll_keeps: "lsinv w \<Longrightarrow> lsinv (poll order listed w)"
proof (cases listed)
  case (Inl e)
  assume inv: "lsinv w"
  then have "ls_started (lw_next w) (lw_tr w) = {}" by (auto simp: ls_started_def lsinv_def)
  then have "poll order listed w = w" by (simp add: poll_def ls_sync_def Inl)
  then show ?thesis using inv by simp
qed (simp add: poll_lists)

lemma return_keeps:
  assumes "lsinv w" "(g, cid) \<in> lw_run w"
  shows "lsinv (w\<lparr>lw_run := lw_run w - {(g, cid)}, lw_done := insert g (lw_done w)\<rparr>)"
proof -
  have g: "(cid, g) \<in> set (lw_tr w)" "distinct (map snd (lw_tr w))" using assms by (simp_all add: lsinv_def)
  have u: "(c, g) \<in> set (lw_tr w) \<Longrightarrow> c = cid" for c using distinct_snd_unique [OF g(2) _ g(1)] .
  have r: "lw_run w = {(h, c). (c, h) \<in> set (lw_tr w) \<and> h \<notin> lw_done w}" using assms(1) by (simp add: lsinv_def)
  have "lw_run w - {(g, cid)} = {(h, c). (c, h) \<in> set (lw_tr w) \<and> h \<notin> insert g (lw_done w)}"
  proof (rule set_eqI, clarify)
    fix h c
    show "(h, c) \<in> lw_run w - {(g, cid)} \<longleftrightarrow> (h, c) \<in> {(h, c). (c, h) \<in> set (lw_tr w) \<and> h \<notin> insert g (lw_done w)}"
      unfolding r using u [of c] by blast
  qed
  moreover have "g < lw_next w" using assms(1) g(1) by (auto simp: lsinv_def)
  ultimately show ?thesis using assms(1) unfolding lsinv_def by simp
qed

lemma lsinv_step: "lsstep w w' \<Longrightarrow> lsinv w \<Longrightarrow> lsinv w'"
proof (induction rule: lsstep.induct)
  case (LStop w tr cancelled)
  then show ?case by (force simp: lsinv_def stopAll_def)
qed (simp_all add: poll_keeps return_keeps)

interpretation lstreams: guarded_system lsstart lsstep lsinv
proof unfold_locales
  show "lsstart w \<Longrightarrow> lsinv w" for w by (simp add: lsstart_def lsinv_def)
  show "lsinv w \<Longrightarrow> lsstep w w' \<Longrightarrow> lsinv w'" for w w' by (rule lsinv_step)
qed


definition demo_ct :: "string \<Rightarrow> string \<Rightarrow> container" where
  "demo_ct cid st = \<lparr>ct_ID = cid, ct_Names = [CHR ''/'' # cid], ct_Labels = [], ct_Ports = [], ct_State = st,
     ct_Status = [], ct_Networks = [], ct_Image = ''img'', ct_Created = 0\<rparr>"

definition demo_lworld :: lworld where
  "demo_lworld = \<lparr>lw_next = 0, lw_tr = [], lw_run = {}, lw_done = {}\<rparr>"


end
