(* ===== verification/Db_Observer.thy ===== *)
theory Db_Observer
  imports Database Replies
begin

text \<open>
  The observer of managed databases (database_observer.go) and the measurement of a data
  volume (\<open>VolumeSize\<close> of docker/database.go): what each database container is reported as, the hint
  read from its log, and the cache of volume sizes, which is passed explicitly. The command
  db_sync_request sends the same report.
\<close>

section \<open>Health and hints\<close>

definition dockerHealthToLattice :: "ContainerHealth option \<Rightarrow> string" where
  "dockerHealthToLattice state = (case state of
     None \<Rightarrow> ''none''
   | Some h \<Rightarrow> if ch_Status h = [] then ''none'' else if ch_Status h = ''healthy'' then ''healthy''
       else if ch_Status h = ''unhealthy'' then ''unhealthy'' else if ch_Status h = ''starting'' then ''starting'' else ''none'')"

definition fatalInitSignatures :: "(string \<times> string) list" where
  "fatalInitSignatures =
     [(''has wrong ownership'', ''the data volume has wrong ownership - the engine cannot write to its data directory''),
      (''Permission denied'', ''permission denied writing to the data volume''),
      (''wrong permissions'', ''the data directory has wrong permissions''),
      (''[ERROR] Aborting'', ''the engine aborted during startup - see the container logs for the preceding error''),
      (''initdb: error:'', ''Postgres could not initialise its data directory''),
      (''exists but is not empty'', ''the Postgres data directory exists but is not empty - mount a subdirectory, not the volume root''),
      (''Unable to lock'', ''another process is holding the data directory lock''),
      (''InnoDB: Unable to lock'', ''InnoDB cannot lock its data files - a previous instance may still be running''),
      (''Access denied for user'', ''the engine rejected the configured credentials'')]"

definition fatal_hint :: "string \<Rightarrow> string" where
  "fatal_hint text = (case find (\<lambda>(needle, hint). Contains text needle) fatalInitSignatures of
     Some (needle, hint) \<Rightarrow> hint | None \<Rightarrow> [])"

text \<open>The first 32 KiB of the tail of the log; a read error after the first byte is ignored.\<close>

definition detectFatalInitError :: "host \<Rightarrow> string \<Rightarrow> string prog" where
  "detectFatalInitError E cid = do {
     r \<leftarrow> request (\<lambda>h. ContainerLogs (svc E) h cid ''80'') (\<lambda>r. EvExt (EvLogs cid ''80'' r));
     ret (case r of Inl e \<Rightarrow> [] | Inr bytes \<Rightarrow> let text = take (32 * 1024) bytes in if text = [] then [] else fatal_hint text)
   }"

section \<open>Volume sizes\<close>

fun walk_total :: "walkentry list \<Rightarrow> int \<Rightarrow> int res" where
  "walk_total [] t = Inr t"
| "walk_total (WalkErr # es) t = walk_total es t"
| "walk_total (WalkCancelled e # es) t = Inl e"
| "walk_total (WalkDir # es) t = walk_total es t"
| "walk_total (WalkFile None # es) t = walk_total es t"
| "walk_total (WalkFile (Some n) # es) t = walk_total es (t + n)"

definition VolumeSize :: "host \<Rightarrow> string \<Rightarrow> int res prog" where
  "VolumeSize E name = do {
     v \<leftarrow> request (\<lambda>h. VolumeMount (svc E) h name) (\<lambda>r. EvExt (EvVolMount name r));
     (case v of
        Inl e \<Rightarrow> ret (Inl (Fmt ''inspect volume %s: %w'' [FS name, FE e]))
      | Inr mnt \<Rightarrow>
          if mnt = [] then ret (Inl (Fmt ''volume %s has no mountpoint'' [FS name]))
          else do {
            es \<leftarrow> request (\<lambda>h. VolumeWalk (svc E) h mnt) (\<lambda>r. EvExt (EvWalk mnt r));
            ret (case walk_total es 0 of Inl e \<Rightarrow> Inl (Fmt ''walk volume %s: %w'' [FS name, FE e]) | Inr n \<Rightarrow> Inr n)
          })
   }"

record volumeSizeEntry =
  vs_bytes :: int
  vs_measuredAt :: int

type_synonym sizecache = "(string \<times> volumeSizeEntry) list"

definition dbVolumeSizeTTL :: int where
  "dbVolumeSizeTTL = 3600 * 1000000000"

definition cachedVolumeSize :: "host \<Rightarrow> string \<Rightarrow> sizecache \<Rightarrow> (int option \<times> sizecache) prog" where
  "cachedVolumeSize E cid cache = do {
     v \<leftarrow> DatabaseVolumeName E cid;
     (case v of
        Inl e \<Rightarrow> ret (None, cache)
      | Inr volumeName \<Rightarrow>
          if volumeName = [] then ret (None, cache)
          else do {
            now \<leftarrow> observe (UnixNano E);
            (let entry = map_of cache volumeName in
             if (case entry of Some en \<Rightarrow> now - vs_measuredAt en < dbVolumeSizeTTL | None \<Rightarrow> False)
             then ret (map_option vs_bytes entry, cache)
             else do {
               s \<leftarrow> VolumeSize E volumeName;
               (case s of
                  Inl e \<Rightarrow> ret (map_option vs_bytes entry, cache)
                | Inr n \<Rightarrow> do {
                    t \<leftarrow> observe (UnixNano E);
                    ret (Some n, AList.update volumeName \<lparr>vs_bytes = n, vs_measuredAt = t\<rparr> cache)
                  })
             })
          })
   }"

section \<open>The report\<close>

definition base_entry :: "ObservedDatabaseContainer \<Rightarrow> payload" where
  "base_entry c = [(''container_name'', JStr (o_Name c)), (''container_id'', JStr (o_ID c)), (''state'', JStr (o_State c)),
     (''health'', JStr (dockerHealthToLattice (o_Health c))), (''restart_count'', JNum (of_int (o_RestartCount c)))] @
     (if o_InstanceID c > 0 then [(''database_instance_id'', JNum (of_int (o_InstanceID c)))] else [])"

definition sync_entry :: "host \<Rightarrow> ObservedDatabaseContainer \<Rightarrow> sizecache \<Rightarrow> (payload \<times> sizecache) prog" where
  "sync_entry E c cache = do {
     hint \<leftarrow> (if o_RestartCount c \<ge> 3 \<or> o_State c = ''restarting'' then detectFatalInitError E (o_ID c) else ret []);
     (sz, cache') \<leftarrow> cachedVolumeSize E (o_ID c) cache;
     ret (base_entry c @ (if hint \<noteq> [] then [(''fatal_hint'', JStr hint)] else []) @
       (case sz of Some n \<Rightarrow> [(''volume_size_bytes'', JNum (of_int n))] | None \<Rightarrow> []), cache')
   }"

fun sync_entries :: "host \<Rightarrow> ObservedDatabaseContainer list \<Rightarrow> sizecache \<Rightarrow> (payload list \<times> sizecache) prog" where
  "sync_entries E [] cache = ret ([], cache)"
| "sync_entries E (c # cs) cache = do {
     (p, cache1) \<leftarrow> sync_entry E c cache;
     (ps, cache2) \<leftarrow> sync_entries E cs cache1;
     ret (p # ps, cache2)
   }"

definition sendDatabaseSync :: "host \<Rightarrow> cmdctx \<Rightarrow> sizecache \<Rightarrow> sizecache prog" where
  "sendDatabaseSync E ctx cache = do {
     r \<leftarrow> ListDatabaseContainers E;
     (case r of
        Inl e \<Rightarrow> ret cache
      | Inr observed \<Rightarrow> do {
          (entries, cache') \<leftarrow> sync_entries E observed cache;
          v \<leftarrow> ListDatabaseVolumes E;
          wsSendReliable ctx (msg ''db_sync'' ((''containers'', JArr (map JObj entries)) #
            (case v of Inl e \<Rightarrow> [] | Inr names \<Rightarrow> [(''volumes'', JArr (map JStr names))])));
          ret cache'
        })
   }"

definition handle_db_sync_request :: "host \<Rightarrow> cmdctx \<Rightarrow> sizecache \<Rightarrow> sizecache prog" where
  "handle_db_sync_request E ctx cache = do {
     emit (EvExt (EvAcquire ''db_sync_request''));
     cache' \<leftarrow> sendDatabaseSync E ctx cache;
     emit (EvExt EvRelease);
     ret cache'
   }"

section \<open>Which hints can be given\<close>

text \<open>
  The hint for a locked InnoDB data file is never given: its pattern contains the pattern
  of the general lock hint, which stands before it in the list, so every log that matches it is reported
  with the general text.
\<close>

theorem innodb_hint_unreachable:
  "fatal_hint text \<noteq> ''InnoDB cannot lock its data files - a previous instance may still be running''"
proof -
  have "Contains text ''Unable to lock''" if c: "Contains text ''InnoDB: Unable to lock''"
  proof -
    obtain u v where "text = u @ ''InnoDB: Unable to lock'' @ v" using Contains_iff [THEN iffD1, OF c] by blast
    then have "text = (u @ ''InnoDB: '') @ ''Unable to lock'' @ v" by simp
    then show ?thesis unfolding Contains_iff by blast
  qed
  then show ?thesis by (simp add: fatal_hint_def fatalInitSignatures_def)
qed

section \<open>Every report is complete\<close>

definition not_send :: "event \<Rightarrow> bool" where
  "not_send e = (case e of EvSend b m \<Rightarrow> False | _ \<Rightarrow> True)"

lemma not_send_simps [simp]: "\<not> not_send (EvSend b m)" "not_send (EvExt x)" "not_send (EvInspect c r)" "not_send (EvListLabels l q)"
  by (simp_all add: not_send_def)

abbreviation db_filter :: "(string \<times> string) list" where
  "db_filter \<equiv> [(''managed-by'', ''lattice''), (''lattice-type'', ''database'')]"

definition seen_as :: "container \<Rightarrow> ObservedDatabaseContainer \<Rightarrow> bool" where
  "seen_as c x = (o_ID x = ct_ID c \<and> o_State x = ct_State c \<and> o_Name x = (case names_of c of [] \<Rightarrow> [] | n # _ \<Rightarrow> n))"

definition entry_for :: "container \<Rightarrow> payload \<Rightarrow> bool" where
  "entry_for c p = (map_of p ''container_id'' = Some (JStr (ct_ID c)) \<and> map_of p ''state'' = Some (JStr (ct_State c)) \<and>
     map_of p ''container_name'' = Some (JStr (case names_of c of [] \<Rightarrow> [] | n # _ \<Rightarrow> n)))"

lemma observe_one_does: "does (observe_one E c) (\<lambda>x es. seen_as c x \<and> list_all not_send es)"
  unfolding observe_one_def InspectContainer_def Let_def
  by (intro does_intros) (auto simp: seen_as_def split: sum.splits)

lemma list_databases_does:
  "does (ListDatabaseContainers E) (\<lambda>r es. list_all not_send es \<and>
     (case r of Inl e \<Rightarrow> \<exists>g. EvListLabels db_filter (Inl g) \<in> set es
      | Inr os \<Rightarrow> \<exists>cs. EvListLabels db_filter (Inr cs) \<in> set es \<and> list_all2 seen_as cs os))"
proof -
  have o: "does (observe_one E c) (\<lambda>x _. seen_as c x)" for c by (rule does_mono [OF observe_one_does]) simp
  have e: "emits not_send (observe_one E c)" for c unfolding does_emits by (rule does_mono [OF observe_one_does]) simp
  have m: "does (mapP cs (observe_one E)) (\<lambda>os es. list_all2 seen_as cs os \<and> list_all not_send es)" for cs
    using does_conj [OF does_mapP [of cs "observe_one E" seen_as, OF o] emits_mapP [of cs not_send "observe_one E", OF e, unfolded does_emits]] .
  show ?thesis unfolding ListDatabaseContainers_def
    by (intro does_bind_request does_case_sum does_ret does_bind [OF m]) auto
qed

lemma sizes_quiet: "emits not_send (cachedVolumeSize E cid cache)"
  unfolding cachedVolumeSize_def VolumeSize_def DatabaseVolumeName_def InspectContainer_def Let_def
  by (intro emits_intros) simp_all

lemma sync_entry_does:
  "does (sync_entry E x cache) (\<lambda>(p, cache') es. list_all not_send es \<and> (\<forall>c. seen_as c x \<longrightarrow> entry_for c p))"
proof -
  have h: "emits not_send (if o_RestartCount x \<ge> 3 \<or> o_State x = ''restarting'' then detectFatalInitError E (o_ID x) else ret [])"
    unfolding detectFatalInitError_def by (intro emits_intros) simp_all
  show ?thesis unfolding sync_entry_def
    by (intro does_bind_emits [OF h] does_bind_emits [OF sizes_quiet] does_case_prod does_ret)
      (auto simp: entry_for_def seen_as_def base_entry_def)
qed

lemma sync_entries_does:
  "does (sync_entries E xs cache) (\<lambda>(ps, cache') es. list_all not_send es \<and> (\<forall>cs. list_all2 seen_as cs xs \<longrightarrow> list_all2 entry_for cs ps))"
proof (induction xs arbitrary: cache)
  case Nil
  show ?case by (auto intro: does_intros)
next
  case (Cons x xs)
  let ?Q = "\<lambda>xs (ps, cache') es. list_all not_send es \<and> (\<forall>cs. list_all2 seen_as cs xs \<longrightarrow> list_all2 entry_for cs ps)"
  have "does (do { (ps, cache2) \<leftarrow> sync_entries E xs cache1; ret (p # ps, cache2) }) (\<lambda>r fs. ?Q (x # xs) r (es @ fs))"
    if p: "list_all not_send es" "\<forall>c. seen_as c x \<longrightarrow> entry_for c p" for p cache1 es
    by (rule does_bind [OF Cons.IH]) (use p in \<open>auto simp: list_all2_Cons2 split: prod.splits intro!: does_ret\<close>)
  then show ?case unfolding sync_entries.simps
    by (intro does_bind [OF sync_entry_does]) auto
qed

definition volumes_field :: "volinfo list res \<Rightarrow> payload" where
  "volumes_field v = (case v of Inl e \<Rightarrow> []
     | Inr vs \<Rightarrow> [(''volumes'', JArr (map JStr (filter (\<lambda>n. HasPrefix n DatabaseVolumePrefix) (map vl_Name vs))))])"

definition db_report :: "cmdctx \<Rightarrow> event list \<Rightarrow> bool" where
  "db_report ctx es =
     ((\<exists>g. EvListLabels db_filter (Inl g) \<in> set es) \<and> list_all not_send es \<or>
      (\<exists>fs cs entries v. es = fs @ [EvSend True (stampIDs ctx (msg ''db_sync'' ((''containers'', JArr (map JObj entries)) # volumes_field v)))] \<and>
         list_all not_send fs \<and> EvListLabels db_filter (Inr cs) \<in> set fs \<and> list_all2 entry_for cs entries \<and>
         EvExt (EvVolList DatabaseVolumePrefix v) \<in> set fs))"

lemma volumes_does:
  "does (ListDatabaseVolumes E) (\<lambda>r es. \<exists>v. es = [EvExt (EvVolList DatabaseVolumePrefix v)] \<and>
     (case r of Inl e \<Rightarrow> [] | Inr names \<Rightarrow> [(''volumes'', JArr (map JStr names))]) = volumes_field v)"
  unfolding ListDatabaseVolumes_def by (intro does_intros) (auto simp: volumes_field_def split: sum.splits)

lemma sendDatabaseSync_does: "does (sendDatabaseSync E ctx cache) (\<lambda>_. db_report ctx)"
proof -
  have send: "does (do { v \<leftarrow> ListDatabaseVolumes E;
       wsSendReliable ctx (msg ''db_sync'' ((''containers'', JArr (map JObj entries)) #
         (case v of Inl e \<Rightarrow> [] | Inr names \<Rightarrow> [(''volumes'', JArr (map JStr names))]))); ret cache' })
     (\<lambda>_ gs. db_report ctx (es @ gs))"
    if "list_all not_send es" "EvListLabels db_filter (Inr cs) \<in> set es" "list_all2 entry_for cs entries" for es cs entries cache'
  proof (rule does_bind [OF volumes_does])
    fix r gs assume "\<exists>v. gs = [EvExt (EvVolList DatabaseVolumePrefix v)] \<and>
     (case r of Inl e \<Rightarrow> [] | Inr names \<Rightarrow> [(''volumes'', JArr (map JStr names))]) = volumes_field v"
    then obtain v where v: "gs = [EvExt (EvVolList DatabaseVolumePrefix v)]"
      "(case r of Inl e \<Rightarrow> [] | Inr names \<Rightarrow> [(''volumes'', JArr (map JStr names))]) = volumes_field v" by blast
    have "db_report ctx (es @ gs @ [EvSend True (stampIDs ctx (msg ''db_sync'' ((''containers'', JArr (map JObj entries)) # volumes_field v)))])"
      unfolding db_report_def
      by (rule disjI2, rule exI [of _ "es @ gs"], rule exI [of _ cs], rule exI [of _ entries], rule exI [of _ v]) (use that v(1) in simp)
    then show "does (do { wsSendReliable ctx (msg ''db_sync'' ((''containers'', JArr (map JObj entries)) #
         (case r of Inl e \<Rightarrow> [] | Inr names \<Rightarrow> [(''volumes'', JArr (map JStr names))]))); ret cache' }) (\<lambda>_ fs. db_report ctx (es @ gs @ fs))"
      unfolding wsSendReliable_def v(2) by (intro does_bind_emit does_ret) simp
  qed
  have sync: "does (do { (entries, cache') \<leftarrow> sync_entries E xs cache; v \<leftarrow> ListDatabaseVolumes E;
       wsSendReliable ctx (msg ''db_sync'' ((''containers'', JArr (map JObj entries)) #
         (case v of Inl e \<Rightarrow> [] | Inr names \<Rightarrow> [(''volumes'', JArr (map JStr names))]))); ret cache' })
     (\<lambda>_ gs. db_report ctx (es @ gs))"
    if "list_all not_send es" "EvListLabels db_filter (Inr cs) \<in> set es" "list_all2 seen_as cs xs" for es cs xs
    by (rule does_bind [OF sync_entries_does])
      (use that in \<open>auto split: prod.splits intro!: send [of "es @ _", unfolded append_assoc]\<close>)
  have quiet: "list_all not_send es \<Longrightarrow> EvListLabels db_filter (Inl g) \<in> set es \<Longrightarrow> db_report ctx es" for es g
    by (auto simp: db_report_def)
  show ?thesis unfolding sendDatabaseSync_def
    by (rule does_bind [OF list_databases_does])
      (auto intro!: quiet does_case_sum does_ret sync split: sum.splits)
qed

text \<open>
  Each report on the databases is complete. When the containers can be listed, exactly one
  message db_sync is sent, as the last act and reliably: it has one entry per container
  listed, in the order of the list, under that container's name, id and state, and it
  carries the data volumes exactly when these could be listed (an empty list would mean that
  all are gone). When the containers cannot be listed, nothing is sent.
\<close>

theorem db_sync_complete: "db_report ctx (events (sendDatabaseSync E ctx cache) h)"
  by (rule does_events [OF sendDatabaseSync_does])

end
