(* ===== verification/Metrics.thy ===== *)
theory Metrics
  imports Replies "HOL-Library.Word"
begin

text \<open>
  The metrics of the heartbeat (metrics/collector.go, and \<open>ContainerStats\<close> of
  docker/docker.go). The counters are \<open>uint64\<close> and wrap around; a \<open>float64\<close> is a rational, so
  rounding errors of the division are left out. \<open>strconv.ParseFloat\<close>, the number of
  processors, statfs and the answers to a stats request are parameters. The previous CPU
  sample is a package variable behind a mutex: it is passed explicitly.
\<close>

section \<open>Numbers\<close>

text \<open>\<open>strconv.ParseUint(v, 10, 64)\<close> answers the largest value when the number is out of range.\<close>

definition parseUint :: "string \<Rightarrow> 64 word" where
  "parseUint v = (if v \<noteq> [] \<and> list_all is_digit v
     then (if digits_val v < 2 ^ 64 then word_of_int (digits_val v) else - 1) else 0)"

definition math_Round :: "rat \<Rightarrow> int" where
  "math_Round x = (if x < 0 then - \<lfloor>- x + 1 / 2\<rfloor> else \<lfloor>x + 1 / 2\<rfloor>)"

definition round1 :: "rat \<Rightarrow> rat" where
  "round1 v = of_int (math_Round (v * 10)) / 10"

abbreviation float64 :: "64 word \<Rightarrow> rat" where
  "float64 w \<equiv> of_nat (unat w)"

section \<open>CPU\<close>

record cpuSample =
  idle :: "64 word"
  total :: "64 word"

definition zero_sample :: cpuSample where
  "zero_sample = \<lparr>idle = 0, total = 0\<rparr>"

definition cpu_line :: "string \<Rightarrow> cpuSample" where
  "cpu_line line = (let fields = Fields line; vs = map parseUint (drop 1 fields) in
     if length fields < 5 then zero_sample
     else \<lparr>idle = (vs ! 3) + (if length fields > 5 then vs ! 4 else 0), total = sum_list vs\<rparr>)"

definition readCPUSample :: "string res \<Rightarrow> cpuSample" where
  "readCPUSample data = (case data of
     Inl e \<Rightarrow> zero_sample
   | Inr s \<Rightarrow> (case find (\<lambda>line. HasPrefix line ''cpu '') (Split s (CHR 0x0A)) of
       Some line \<Rightarrow> cpu_line line | None \<Rightarrow> zero_sample))"

definition measureCPU :: "cpuSample \<Rightarrow> cpuSample \<Rightarrow> rat \<times> cpuSample" where
  "measureCPU current prev =
     (if total current = 0 then (0, prev)
      else if total prev = 0 then (0, current)
      else let totalDelta = total current - total prev; idleDelta = idle current - idle prev in
        (if totalDelta = 0 then 0 else round1 (float64 (totalDelta - idleDelta) / float64 totalDelta * 100), current))"

section \<open>Memory and network\<close>

fun meminfo_lines :: "string \<Rightarrow> string list \<Rightarrow> 64 word" where
  "meminfo_lines key [] = 0"
| "meminfo_lines key (line # ls) =
     (if HasPrefix line (key @ '':'') \<and> length (Fields line) \<ge> 2 then parseUint (Fields line ! 1) else meminfo_lines key ls)"

definition parseMemInfoKB :: "string \<Rightarrow> string \<Rightarrow> 64 word" where
  "parseMemInfoKB data key = meminfo_lines key (Split data (CHR 0x0A))"

definition virtual_iface :: "string \<Rightarrow> bool" where
  "virtual_iface iface = (iface = ''lo'' \<or> HasPrefix iface ''docker'' \<or> HasPrefix iface ''br-'' \<or> HasPrefix iface ''veth'' \<or> HasPrefix iface ''virbr'')"

definition add_counter :: "string \<Rightarrow> 64 word \<Rightarrow> 64 word" where
  "add_counter s n = (case Atoi s of Some v \<Rightarrow> n + word_of_int v | None \<Rightarrow> n)"

definition netdev_line :: "string \<Rightarrow> 64 word \<times> 64 word \<Rightarrow> 64 word \<times> 64 word" where
  "netdev_line line0 s = (case s of (rx, tx) \<Rightarrow> let line = TrimSpace line0 in
     case Index line '':'' of
       None \<Rightarrow> (rx, tx)
     | Some i \<Rightarrow>
         let iface = TrimSpace (take i line); fields = Fields (drop (i + 1) line) in
         if virtual_iface iface \<or> length fields < 10 then (rx, tx)
         else (add_counter (fields ! 0) rx, add_counter (fields ! 8) tx))"

definition parseNetDev :: "string \<Rightarrow> int \<times> int" where
  "parseNetDev data = map_prod sint sint (fold netdev_line (Split data (CHR 0x0A)) (0, 0))"

section \<open>All metrics\<close>

record SystemMetrics =
  CPUPercent :: rat
  CPUCores :: int
  LoadAvg1 :: rat
  LoadAvg5 :: rat
  LoadAvg15 :: rat
  MemoryUsedMB :: rat
  MemoryTotalMB :: rat
  MemoryFreeMB :: rat
  SwapUsedMB :: rat
  SwapTotalMB :: rat
  DiskUsedMB :: rat
  DiskTotalMB :: rat
  ContainerCount :: int
  ContainerRunningCount :: int
  NetworkRxBytes :: int
  NetworkTxBytes :: int
  UptimeSeconds :: rat
  ProcessCount :: int

definition no_metrics :: SystemMetrics where
  "no_metrics = \<lparr>CPUPercent = 0, CPUCores = 0, LoadAvg1 = 0, LoadAvg5 = 0, LoadAvg15 = 0, MemoryUsedMB = 0, MemoryTotalMB = 0,
     MemoryFreeMB = 0, SwapUsedMB = 0, SwapTotalMB = 0, DiskUsedMB = 0, DiskTotalMB = 0, ContainerCount = 0, ContainerRunningCount = 0,
     NetworkRxBytes = 0, NetworkTxBytes = 0, UptimeSeconds = 0, ProcessCount = 0\<rparr>"

text \<open>A failed \<open>Atoi\<close> leaves 0, or the nearest bound when the number is out of range.\<close>

definition Atoi_value :: "string \<Rightarrow> int" where
  "Atoi_value s = (case Atoi s of
     Some n \<Rightarrow> n
   | None \<Rightarrow>
       let neg = HasPrefix s ''-''; body = (if neg \<or> HasPrefix s ''+'' then drop 1 s else s) in
       if body \<noteq> [] \<and> list_all is_digit body then (if neg then - (2 ^ 63) else 2 ^ 63 - 1) else 0)"

definition load_metrics :: "(string \<Rightarrow> rat) \<Rightarrow> string res \<Rightarrow> SystemMetrics \<Rightarrow> SystemMetrics" where
  "load_metrics parseFloat data m = (case data of
     Inl e \<Rightarrow> m
   | Inr s \<Rightarrow>
       let parts = Fields s;
           m1 = (if length parts \<ge> 3 then m\<lparr>LoadAvg1 := parseFloat (parts ! 0), LoadAvg5 := parseFloat (parts ! 1), LoadAvg15 := parseFloat (parts ! 2)\<rparr> else m) in
       if length parts \<ge> 4
       then (case Index (parts ! 3) ''/'' of
           Some slash \<Rightarrow> if slash > 0 then m1\<lparr>ProcessCount := Atoi_value (drop (slash + 1) (parts ! 3))\<rparr> else m1
         | None \<Rightarrow> m1)
       else m1)"

definition mem_metrics :: "string res \<Rightarrow> SystemMetrics \<Rightarrow> SystemMetrics" where
  "mem_metrics data m = (case data of
     Inl e \<Rightarrow> m
   | Inr s \<Rightarrow>
       let memTotal = parseMemInfoKB s ''MemTotal''; memAvail = parseMemInfoKB s ''MemAvailable''; memFree = parseMemInfoKB s ''MemFree'';
           swapTotal = parseMemInfoKB s ''SwapTotal''; swapFree = parseMemInfoKB s ''SwapFree'' in
       m\<lparr>MemoryTotalMB := round1 (float64 memTotal / 1024), MemoryFreeMB := round1 (float64 memFree / 1024),
         MemoryUsedMB := (if memAvail > 0 then round1 (float64 (memTotal - memAvail) / 1024) else round1 (float64 (memTotal - memFree) / 1024)),
         SwapTotalMB := round1 (float64 swapTotal / 1024), SwapUsedMB := round1 (float64 (swapTotal - swapFree) / 1024)\<rparr>)"

text \<open>\<open>stat\<close>: the blocks, the available blocks and the block size of the root file system.\<close>

definition disk_metrics :: "(64 word \<times> 64 word \<times> 64 word) option \<Rightarrow> SystemMetrics \<Rightarrow> SystemMetrics" where
  "disk_metrics stat m = (case stat of
     None \<Rightarrow> m
   | Some (blocks, bavail, bsize) \<Rightarrow>
       let totalBytes = blocks * bsize; freeBytes = bavail * bsize in
       m\<lparr>DiskTotalMB := round1 (float64 totalBytes / 1024 / 1024), DiskUsedMB := round1 (float64 (totalBytes - freeBytes) / 1024 / 1024)\<rparr>)"

definition container_metrics :: "container list res \<Rightarrow> SystemMetrics \<Rightarrow> SystemMetrics" where
  "container_metrics r m = (case r of
     Inl e \<Rightarrow> m
   | Inr cs \<Rightarrow> m\<lparr>ContainerCount := int (length cs), ContainerRunningCount := int (length (filter (\<lambda>c. ct_State c = ''running'') cs))\<rparr>)"

definition read_file :: "host \<Rightarrow> string \<Rightarrow> string res prog" where
  "read_file E p = request (\<lambda>h. ReadFile (svc E) h p) (\<lambda>r. EvExt (EvReadFile p r))"

definition Collect_metrics ::
  "host \<Rightarrow> (string \<Rightarrow> rat) \<Rightarrow> int \<Rightarrow> (event list \<Rightarrow> (64 word \<times> 64 word \<times> 64 word) option) \<Rightarrow> cpuSample \<Rightarrow> (SystemMetrics \<times> cpuSample) prog" where
  "Collect_metrics E parseFloat cores statfs prevCPU = do {
     st \<leftarrow> read_file E ''/proc/stat'';
     (let (pct, prev) = measureCPU (readCPUSample st) prevCPU in do {
        ld \<leftarrow> read_file E ''/proc/loadavg'';
        mi \<leftarrow> read_file E ''/proc/meminfo'';
        fs \<leftarrow> observe statfs;
        cl \<leftarrow> request (\<lambda>h. ContainerList E h []) (EvList []);
        nd \<leftarrow> read_file E ''/proc/net/dev'';
        up \<leftarrow> read_file E ''/proc/uptime'';
        (let m1 = container_metrics cl (disk_metrics fs (mem_metrics mi (load_metrics parseFloat ld (no_metrics\<lparr>CPUPercent := pct, CPUCores := cores\<rparr>))));
             m2 = (case nd of Inl e \<Rightarrow> m1 | Inr s \<Rightarrow> m1\<lparr>NetworkRxBytes := fst (parseNetDev s), NetworkTxBytes := snd (parseNetDev s)\<rparr>);
             m3 = (case up of Inl e \<Rightarrow> m2 | Inr s \<Rightarrow> if length (Fields s) \<ge> 1 then m2\<lparr>UptimeSeconds := parseFloat (Fields s ! 0)\<rparr> else m2) in
         ret (m3, prev))
      })
   }"

section \<open>Containers\<close>

text \<open>The answer to a stats request, as far as it is read; the cache is absent on some hosts.\<close>

record StatsResponse =
  sr_TotalUsage :: "64 word"
  sr_PreTotalUsage :: "64 word"
  sr_SystemUsage :: "64 word"
  sr_PreSystemUsage :: "64 word"
  sr_OnlineCPUs :: nat
  sr_MemUsage :: "64 word"
  sr_MemLimit :: "64 word"
  sr_Cache :: "64 word option"

record ContainerResourceUsage =
  ru_Name :: string
  ru_ID :: string
  ru_CPUPercent :: rat
  ru_MemUsageMB :: rat
  ru_MemLimitMB :: rat
  ru_MemPercent :: rat

definition usage_of :: "container \<Rightarrow> StatsResponse \<Rightarrow> ContainerResourceUsage" where
  "usage_of c s =
     (let cpuDelta = float64 (sr_TotalUsage s - sr_PreTotalUsage s); systemDelta = float64 (sr_SystemUsage s - sr_PreSystemUsage s);
          cache = (case sr_Cache s of Some v \<Rightarrow> v | None \<Rightarrow> 0);
          memUsage = float64 (sr_MemUsage s - cache); memLimit = float64 (sr_MemLimit s) in
      \<lparr>ru_Name = (case filter (\<lambda>n. n \<noteq> []) (map (\<lambda>n. TrimPrefix n ''/'') (ct_Names c)) of [] \<Rightarrow> [] | n # _ \<Rightarrow> n),
       ru_ID = take 12 (ct_ID c),
       ru_CPUPercent = (if systemDelta > 0 \<and> cpuDelta > 0 then cpuDelta / systemDelta * of_nat (sr_OnlineCPUs s) * 100 else 0),
       ru_MemUsageMB = memUsage / 1024 / 1024, ru_MemLimitMB = memLimit / 1024 / 1024,
       ru_MemPercent = (if memLimit > 0 then memUsage / memLimit * 100 else 0)\<rparr>)"

text \<open>\<open>statsOf\<close> is the decoded answer, absent when the request or its decoding fails.\<close>

fun stats_each :: "(event list \<Rightarrow> string \<Rightarrow> StatsResponse option) \<Rightarrow> container list \<Rightarrow> ContainerResourceUsage list prog" where
  "stats_each statsOf [] = ret []"
| "stats_each statsOf (c # cs) =
     (if ct_State c \<noteq> ''running'' then stats_each statsOf cs
      else do {
        s \<leftarrow> observe (\<lambda>h. statsOf h (ct_ID c));
        us \<leftarrow> stats_each statsOf cs;
        ret (case s of None \<Rightarrow> us | Some r \<Rightarrow> usage_of c r # us)
      })"

definition ContainerStats :: "host \<Rightarrow> (event list \<Rightarrow> string \<Rightarrow> StatsResponse option) \<Rightarrow> ContainerResourceUsage list res prog" where
  "ContainerStats E statsOf = do {
     r \<leftarrow> request (\<lambda>h. ContainerList E h []) (EvList []);
     (case r of Inl e \<Rightarrow> ret (Inl e) | Inr cs \<Rightarrow> do { us \<leftarrow> stats_each statsOf cs; ret (Inr us) })
   }"

section \<open>Percentages stay within bounds while the counters grow\<close>

lemma math_Round_mono: "x \<le> y \<Longrightarrow> math_Round x \<le> math_Round y"
proof (cases "x < 0 \<and> y \<ge> 0")
  case True
  then have "0 \<le> \<lfloor>- x + 1 / 2\<rfloor>" "0 \<le> \<lfloor>y + 1 / 2\<rfloor>" by simp_all
  then have "- \<lfloor>- x + 1 / 2\<rfloor> \<le> \<lfloor>y + 1 / 2\<rfloor>" by linarith
  with True show ?thesis by (simp add: math_Round_def)
next
  case False
  assume "x \<le> y"
  then show ?thesis using False floor_mono [of "- y + 1 / 2" "- x + 1 / 2"] floor_mono [of "x + 1 / 2" "y + 1 / 2"]
    by (auto simp: math_Round_def)
qed

lemma round1_mono: "x \<le> y \<Longrightarrow> round1 x \<le> round1 y"
  by (simp add: round1_def math_Round_mono divide_right_mono)

lemma round1_int: "round1 (of_int n) = of_int n"
proof -
  have h: "\<lfloor>of_int m + 1 / 2 :: rat\<rfloor> = m" for m by linarith
  have "math_Round (of_int (n * 10)) = n * 10"
    using h [of "n * 10"] h [of "- (n * 10)"] by (simp add: math_Round_def del: of_int_mult)
  then show ?thesis by (simp add: round1_def)
qed

lemma round1_percent: "0 \<le> x \<Longrightarrow> x \<le> 100 \<Longrightarrow> 0 \<le> round1 x \<and> round1 x \<le> 100"
  using round1_mono [of 0 x] round1_mono [of x 100] round1_int [of 0] round1_int [of 100] by simp

lemma ratio_percent: "b \<le> n \<Longrightarrow> 0 < n \<Longrightarrow> 0 \<le> (of_nat b / of_nat n * 100 :: rat) \<and> of_nat b / of_nat n * 100 \<le> (100 :: rat)"
  by (simp add: field_simps)



text \<open>
  Outside that assumption the value leaves its documented range: when the idle time (which
  includes iowait, a counter the kernel documents as able to decrease) has fallen by \<open>k\<close>
  while the total has grown by \<open>d\<close>, the load reported is \<open>100 (d + k) / d\<close> per cent, rounded.
\<close>

theorem cpu_percent_escapes:
  assumes "total current - total prev = d" "idle prev - idle current = k" "unat d + unat k < 2 ^ 64" "d \<noteq> 0" "total current \<noteq> 0" "total prev \<noteq> 0"
  shows "fst (measureCPU current prev) = round1 (of_nat (unat d + unat k) / of_nat (unat d) * 100)"
proof -
  have i: "idle current - idle prev = - k" using assms(2) by (metis minus_diff_eq)
  have "unat (d + k) = unat d + unat k" using assms(3) by (simp add: unat_word_ariths)
  then show ?thesis using assms(1,4-6) i by (simp add: measureCPU_def)
qed

theorem cpu_percent_escapes_witness:
  "fst (measureCPU \<lparr>idle = 990, total = 2005\<rparr> \<lparr>idle = 1000, total = 2000\<rparr>) = 300"
  using cpu_percent_escapes [of "\<lparr>idle = 990, total = 2005\<rparr>" "\<lparr>idle = 1000, total = 2000\<rparr>" 5 10]
  round1_int [of 300] by simp

end
