(* ===== verification/Heartbeat.thy ===== *)
theory Heartbeat
  imports Metrics Deploy_Admission
begin

text \<open>
  The heartbeat of main.go with the synchronisation of container states, the health tracker
  and the samples of runner_stats.go, and the wait for deployments at shutdown. The state a
  cycle keeps is passed explicitly. Go's memory statistics are parameters.
\<close>

section \<open>Health\<close>

type_synonym healths = "(string \<times> string) list"

text \<open>
  \<open>observe\<close> of the health tracker: the change that is logged, if any, as the level, the old
  value and the new one.
\<close>

definition observe_health :: "string \<Rightarrow> string \<Rightarrow> healths \<Rightarrow> (string \<times> string \<times> string) option \<times> healths" where
  "observe_health name health seen =
     (let prev = map_of seen name; seen' = AList.update name health seen in
      if prev = Some health then (None, seen')
      else if prev = None \<and> health \<noteq> ''unhealthy'' then (None, seen')
      else (Some (if health = ''unhealthy'' then ''WARN'' else ''INFO'', case prev of Some p \<Rightarrow> p | None \<Rightarrow> [], health), seen'))"

definition retain :: "string list \<Rightarrow> healths \<Rightarrow> healths" where
  "retain present seen = filter (\<lambda>(name, v). name \<in> set present) seen"

section \<open>Container states\<close>

definition sync_name :: "container \<Rightarrow> string" where
  "sync_name c = (case filter (\<lambda>n. n \<noteq> []) (map (\<lambda>n. TrimPrefix n ''/'') (ct_Names c)) of
     [] \<Rightarrow> [] | n # _ \<Rightarrow> CanonicalContainerName n)"

definition latticeStatus :: "string \<Rightarrow> string" where
  "latticeStatus st = (if st = ''running'' then ''running'' else if st = ''paused'' then ''paused''
     else if st = ''exited'' \<or> st = ''dead'' then ''stopped'' else if st = ''created'' then ''pending''
     else if st = ''restarting'' then ''restarting'' else ''error'')"

definition healthStatus :: "string \<Rightarrow> string" where
  "healthStatus status = (if status = [] then [] else if Contains status ''(healthy)'' then ''healthy''
     else if Contains status ''(unhealthy)'' then ''unhealthy'' else if Contains status ''(health: starting)'' then ''starting'' else [])"

definition sync_messages :: "container \<Rightarrow> message list" where
  "sync_messages c = (let name = sync_name c; hs = healthStatus (ct_Status c) in
     if name = [] then []
     else (if hs \<noteq> [] then [msg ''container_health_status'' [(''container_name'', JStr name), (''health_status'', JStr hs)]] else []) @
       [msg ''container_sync'' ([(''container_name'', JStr name), (''state'', JStr (ct_State c)), (''status'', JStr (latticeStatus (ct_State c)))] @
          (if hs \<noteq> [] then [(''health_status'', JStr hs)] else []))])"

fun health_all :: "container list \<Rightarrow> healths \<Rightarrow> (string \<times> string \<times> string \<times> string) list \<times> healths" where
  "health_all [] seen = ([], seen)"
| "health_all (c # cs) seen =
     (let name = sync_name c; hs = healthStatus (ct_Status c) in
      if name = [] \<or> hs = [] then health_all cs seen
      else let (ch, seen1) = observe_health name hs seen; (chs, seen2) = health_all cs seen1 in
        ((case ch of Some x \<Rightarrow> [(name, x)] | None \<Rightarrow> []) @ chs, seen2))"

definition with_health :: "container list \<Rightarrow> string list" where
  "with_health cs = map sync_name (filter (\<lambda>c. sync_name c \<noteq> [] \<and> healthStatus (ct_Status c) \<noteq> []) cs)"

definition sync_containers :: "host \<Rightarrow> healths \<Rightarrow> ((string \<times> string \<times> string \<times> string) list \<times> healths) prog" where
  "sync_containers E seen = do {
     r \<leftarrow> request (\<lambda>h. ContainerList E h []) (EvList []);
     (case r of
        Inl e \<Rightarrow> ret ([], seen)
      | Inr cs \<Rightarrow> do {
          forM (concat (map sync_messages cs)) (\<lambda>m. emit (EvSend False m));
          (let (chs, seen') = health_all cs seen in ret (chs, retain (with_health cs) seen'))
        })
   }"

section \<open>The heartbeat\<close>

text \<open>The runner's own figures: goroutines, heap and system memory.\<close>

definition CollectRunnerMetrics :: "nat \<Rightarrow> 64 word \<Rightarrow> 64 word \<Rightarrow> payload" where
  "CollectRunnerMetrics goroutines heapAlloc sys =
     [(''runner_goroutines'', JNum (of_nat goroutines)), (''runner_heap_mb'', JNum (round1 (float64 heapAlloc / 1024 / 1024))),
      (''runner_sys_mb'', JNum (round1 (float64 sys / 1024 / 1024)))]"

definition heartbeat_payload :: "string \<Rightarrow> SystemMetrics \<Rightarrow> payload \<Rightarrow> payload" where
  "heartbeat_payload version m runner =
     [(''cpu_percent'', JNum (CPUPercent m)), (''cpu_cores'', JNum (of_int (CPUCores m))), (''load_avg_1'', JNum (LoadAvg1 m)),
      (''load_avg_5'', JNum (LoadAvg5 m)), (''load_avg_15'', JNum (LoadAvg15 m)), (''memory_used_mb'', JNum (MemoryUsedMB m)),
      (''memory_total_mb'', JNum (MemoryTotalMB m)), (''memory_free_mb'', JNum (MemoryFreeMB m)), (''swap_used_mb'', JNum (SwapUsedMB m)),
      (''swap_total_mb'', JNum (SwapTotalMB m)), (''disk_used_mb'', JNum (DiskUsedMB m)), (''disk_total_mb'', JNum (DiskTotalMB m)),
      (''container_count'', JNum (of_int (ContainerCount m))), (''container_running_count'', JNum (of_int (ContainerRunningCount m))),
      (''network_rx_bytes'', JNum (of_int (NetworkRxBytes m))), (''network_tx_bytes'', JNum (of_int (NetworkTxBytes m))),
      (''uptime_seconds'', JNum (UptimeSeconds m)), (''process_count'', JNum (of_int (ProcessCount m))), (''runner_version'', JStr version)] @ runner"

definition usage_json :: "ContainerResourceUsage \<Rightarrow> json" where
  "usage_json u = JObj [(''name'', JStr (ru_Name u)), (''id'', JStr (ru_ID u)), (''cpu_percent'', JNum (ru_CPUPercent u)),
     (''mem_usage_mb'', JNum (ru_MemUsageMB u)), (''mem_limit_mb'', JNum (ru_MemLimitMB u)), (''mem_percent'', JNum (ru_MemPercent u))]"

text \<open>What is asked beside the daemon, and what a cycle keeps for the next.\<close>

record probes =
  pr_parseFloat :: "string \<Rightarrow> rat"
  pr_cores :: int
  pr_statfs :: "event list \<Rightarrow> (64 word \<times> 64 word \<times> 64 word) option"
  pr_runner :: "event list \<Rightarrow> payload"
  pr_stats :: "event list \<Rightarrow> string \<Rightarrow> StatsResponse option"

record beat =
  hb_count :: nat
  hb_prevCPU :: cpuSample
  hb_health :: healths
  hb_states :: dstates

definition container_stats_field :: "host \<Rightarrow> probes \<Rightarrow> nat \<Rightarrow> payload prog" where
  "container_stats_field E pr n =
     (if n mod 3 \<noteq> 0 then ret []
      else do {
        r \<leftarrow> ContainerStats E (pr_stats pr);
        ret (case r of Inl e \<Rightarrow> [] | Inr us \<Rightarrow> if us = [] then [] else [(''container_stats'', JArr (map usage_json us))])
      })"

definition heartbeat_cycle :: "host \<Rightarrow> probes \<Rightarrow> cmdctx \<Rightarrow> string \<Rightarrow> beat \<Rightarrow> ((string \<times> string \<times> string \<times> string) list \<times> beat) prog" where
  "heartbeat_cycle E pr ctx version b = do {
     (m, prev) \<leftarrow> Collect_metrics E (pr_parseFloat pr) (pr_cores pr) (pr_statfs pr) (hb_prevCPU b);
     runner \<leftarrow> observe (pr_runner pr);
     stats \<leftarrow> container_stats_field E pr (Suc (hb_count b));
     wsSend ctx (msg ''heartbeat'' (heartbeat_payload version m runner @ stats));
     now \<leftarrow> observe (UnixNano E);
     (chs, seen) \<leftarrow> sync_containers E (hb_health b);
     ret (chs, \<lparr>hb_count = Suc (hb_count b), hb_prevCPU = prev, hb_health = seen, hb_states = expire (now div 1000000000) (hb_states b)\<rparr>)
   }"

section \<open>Samples of the shipper\<close>

text \<open>
  The drop total of the SDK as last reported to \<open>OnDrop\<close> and as its statistics have it; the
  sample reports the drops since the previous one.
\<close>

definition sdk_total :: "int \<Rightarrow> int \<Rightarrow> int" where
  "sdk_total statsDropped reportedTotal = (if statsDropped > reportedTotal then statsDropped else reportedTotal)"

definition sdk_sample :: "int \<Rightarrow> int \<Rightarrow> int \<times> int" where
  "sdk_sample t lastSDKDrops = (let d = t - lastSDKDrops in (if d < 0 then t else d, t))"

fun sdk_samples :: "int list \<Rightarrow> int \<Rightarrow> int list" where
  "sdk_samples [] l = []"
| "sdk_samples (t # ts) l = (let (d, l') = sdk_sample t l in d # sdk_samples ts l')"

section \<open>Waiting for deployments at shutdown\<close>

text \<open>
  Round \<open>i\<close> of the wait reads the clock as \<open>clock i\<close> (milliseconds) and the table as \<open>tab i\<close>. The
  result is the round in which it ended.
\<close>

definition hasActive :: "dstates \<Rightarrow> bool" where
  "hasActive states = list_ex (\<lambda>(k, st). rs_InProgress st) states"

partial_function (option) shutdown_wait :: "(nat \<Rightarrow> int) \<Rightarrow> (nat \<Rightarrow> dstates) \<Rightarrow> int \<Rightarrow> nat \<Rightarrow> nat option" where
  "shutdown_wait clock tab deadline i =
     (if clock i < deadline then (if \<not> hasActive (tab i) then Some i else shutdown_wait clock tab deadline (Suc i)) else Some i)"

definition await_deployments :: "(nat \<Rightarrow> int) \<Rightarrow> (nat \<Rightarrow> dstates) \<Rightarrow> nat option" where
  "await_deployments clock tab = shutdown_wait clock tab (clock 0 + 60 * 1000) 1"

text \<open>
  The wait for running deployments at shutdown ends: when each of its rounds sleeps for at
  least two seconds, it returns after at most 31 rounds, with no deployment in progress
  or with the sixty seconds over, and not before it has seen one of the two.
\<close>

theorem shutdown_wait_ends:
  assumes "clock 0 \<le> clock 1" "\<And>i. 1 \<le> i \<Longrightarrow> clock i + 2000 \<le> clock (Suc i)"
  shows "\<exists>j\<ge>1. j \<le> 31 \<and> await_deployments clock tab = Some j \<and>
    (\<not> hasActive (tab j) \<or> clock 0 + 60000 \<le> clock j) \<and> (\<forall>l. 1 \<le> l \<longrightarrow> l < j \<longrightarrow> hasActive (tab l))"
proof -
  have "clock 0 + 60 * 1000 \<le> clock 1 + 2000 * int 30" using assms(1) by simp
  from deadline_loop_returns [OF shutdown_wait.simps [of clock tab "clock 0 + 60 * 1000"] assms(2) order_refl this] show ?thesis
    unfolding await_deployments_def by simp
qed

theorem shutdown_wait_ends_witness:
  "\<exists>j\<ge>1. j \<le> 31 \<and> await_deployments (\<lambda>i. 2000 * int i) (\<lambda>_. []) = Some j"
  using shutdown_wait_ends [of "\<lambda>i. 2000 * int i" "\<lambda>_. []"] by auto

section \<open>What a heartbeat sends\<close>

definition no_message :: "event \<Rightarrow> bool" where
  "no_message e = (case e of EvSend b m \<Rightarrow> False | _ \<Rightarrow> True)"

lemma no_message_simps [simp]: "\<not> no_message (EvSend b m)" "no_message (EvExt x)" "no_message (EvList f r)"
  by (simp_all add: no_message_def)

lemma metrics_quiet: "emits no_message (Collect_metrics E pf cores statfs prev)"
  unfolding Collect_metrics_def read_file_def by (intro emits_intros) simp_all

lemma stats_quiet: "emits no_message (container_stats_field E pr n)"
proof -
  have "emits no_message (stats_each f cs)" for f cs
    by (induction cs) (auto intro!: emits_intros)
  then show ?thesis unfolding container_stats_field_def ContainerStats_def by (intro emits_intros) simp_all
qed

lemma emits_each: "does (forM ms (\<lambda>m. emit (EvSend b m))) (\<lambda>_ es. es = map (EvSend b) ms)"
  by (induction ms) (auto intro!: does_intros elim: does_mono)

definition synced :: "container list res \<Rightarrow> message list" where
  "synced r = (case r of Inl e \<Rightarrow> [] | Inr cs \<Rightarrow> concat (map sync_messages cs))"

lemma sync_containers_does:
  "does (sync_containers E seen) (\<lambda>_ es. \<exists>r. es = EvList [] r # map (EvSend False) (synced r))"
proof -
  have "does (do { forM ms (\<lambda>m. emit (EvSend False m)); ret x }) (\<lambda>_ es. es = map (EvSend False) ms)" for ms and x :: 'a
    by (rule does_bind [OF emits_each]) (auto intro: does_intros)
  then show ?thesis unfolding sync_containers_def split_def Let_def
    by (intro does_bind_request does_case_sum does_ret) (auto simp: synced_def intro: does_mono)
qed

lemma heartbeat_does:
  "does (heartbeat_cycle E pr ctx version b) (\<lambda>_ es. \<exists>pre m runner stats r. es =
     pre @ EvSend False (stampIDs ctx (msg ''heartbeat'' (heartbeat_payload version m runner @ stats))) # EvList [] r # map (EvSend False) (synced r) \<and>
     list_all no_message pre)"
  (is "does _ (\<lambda>_. ?P)")
proof -
  have fin: "does (State_Monad.bind (sync_containers E hs) (\<lambda>p. ret (f p)))
      (\<lambda>_ fs. ?P (es @ es' @ EvSend False (stampIDs ctx (msg ''heartbeat'' (heartbeat_payload version m runner @ stats))) # fs))"
    if "list_all no_message es" "list_all no_message es'" for es es' hs m runner stats and f :: "_ \<Rightarrow> 'b"
  proof (rule does_bind [OF sync_containers_does], elim exE, rule does_ret)
    fix fs r assume "fs = EvList [] r # map (EvSend False) (synced r)"
    then show "?P (es @ es' @ EvSend False (stampIDs ctx (msg ''heartbeat'' (heartbeat_payload version m runner @ stats))) # fs @ [])"
      using that by (intro exI [of _ "es @ es'"] exI [of _ m] exI [of _ runner] exI [of _ stats] exI [of _ r]) simp
  qed
  show ?thesis
    unfolding heartbeat_cycle_def wsSend_def split_def
    by (intro does_bind_emits [OF metrics_quiet] does_bind_observe does_bind_emits [OF stats_quiet] does_bind_emit fin)
qed

text \<open>
  A heartbeat reports everything it has seen: each cycle sends exactly one message heartbeat,
  with all its metrics under their keys, and after it, for every container of the listing
  it then takes, in order, that container's messages: one container_sync with its canonical
  name, its state and the status derived from it, and the health before it when the
  container has one. When the listing fails nothing follows, and nothing else is sent.
\<close>

theorem heartbeat_complete:
  "\<exists>pre m runner stats r. events (heartbeat_cycle E pr ctx version b) h =
     pre @ EvSend False (stampIDs ctx (msg ''heartbeat'' (heartbeat_payload version m runner @ stats))) # EvList [] r # map (EvSend False) (synced r) \<and>
     list_all no_message pre"
  by (rule does_events [OF heartbeat_does])

text \<open>The tracker holds exactly the containers that reported health in the last cycle.\<close>

lemma observe_health_keys: "fst ` set (snd (observe_health name h seen)) = insert name (fst ` set seen)"
  by (simp add: observe_health_def Let_def dom_update)

lemma health_all_keys: "fst ` set (snd (health_all cs seen)) = set (with_health cs) \<union> fst ` set seen"
proof (induction cs arbitrary: seen)
  case Nil
  then show ?case by (simp add: with_health_def)
next
  case (Cons c cs)
  show ?case
    using Cons.IH observe_health_keys [of "sync_name c" "healthStatus (ct_Status c)" seen]
    by (cases "sync_name c = [] \<or> healthStatus (ct_Status c) = []") (auto simp: with_health_def Let_def split_def)
qed

lemma tracker_bounded: "fst ` set (retain (with_health cs) (snd (health_all cs seen))) = set (with_health cs)"
  using health_all_keys [of cs seen] by (force simp: retain_def)

text \<open>While the total grows, the samples add up to the drops since the first.\<close>

lemma sdk_samples_sum: "sorted (l # ts) \<Longrightarrow> sum_list (sdk_samples ts l) = last (l # ts) - l"
  by (induction ts arbitrary: l) (auto simp: sdk_sample_def Let_def)

end
