(* ===== verification/Startup.thy ===== *)
theory Startup
  imports Replies
begin

text \<open>
  What the runner does before it serves commands: the configuration from the environment
  (config/config.go), the attempts to reach Docker, and the registration it sends when the
  orchestrator greets it (main.go). The environment is a function, a panic is an error
  value, and the name of the host, the version of Docker and \<open>time.ParseDuration\<close> are
  parameters. Durations are nanoseconds.
\<close>

section \<open>Configuration\<close>

type_synonym environ = "string \<Rightarrow> string option"

definition getEnv :: "environ \<Rightarrow> string \<Rightarrow> string \<Rightarrow> string" where
  "getEnv env key fallback = (case env key of Some v \<Rightarrow> v | None \<Rightarrow> fallback)"

definition getEnvOrPanic :: "environ \<Rightarrow> string \<Rightarrow> string res" where
  "getEnvOrPanic env key = (case env key of
     Some v \<Rightarrow> Inr v
   | None \<Rightarrow> Inl (Fmt (''missing required environment variable: '' @ [CHR 0x27] @ ''%s'' @ [CHR 0x27]) [FS key]))"

definition hostname :: "string res \<Rightarrow> string" where
  "hostname h = (case h of Inl e \<Rightarrow> ''unknown'' | Inr n \<Rightarrow> n)"

definition parseDuration :: "(string \<Rightarrow> int option) \<Rightarrow> environ \<Rightarrow> string \<Rightarrow> int \<Rightarrow> int" where
  "parseDuration parse env key fallback = (let v = getEnv env key [] in
     if v = [] then fallback else case parse v of Some d \<Rightarrow> d | None \<Rightarrow> fallback)"

record Config =
  OrchestratorURL :: string
  WorkerToken :: string
  WorkerName :: string
  HeartbeatInterval :: int
  ReconnectInterval :: int
  DashboardPort :: string
  LatticeURL :: string

definition Load :: "(string \<Rightarrow> int option) \<Rightarrow> string res \<Rightarrow> environ \<Rightarrow> Config res" where
  "Load parse host env = (case getEnvOrPanic env ''ORCHESTRATOR_URL'' of
     Inl e \<Rightarrow> Inl e
   | Inr url \<Rightarrow>
       if ToLower (getEnv env ''ALLOW_INSECURE'' ''false'') \<noteq> ''true'' \<and> HasPrefix url ''ws://''
       then Inl (Fmt ''ORCHESTRATOR_URL uses unencrypted ws:// - use wss:// for production. Set ALLOW_INSECURE=true to override for local development.'' [])
       else (case getEnvOrPanic env ''WORKER_TOKEN'' of
           Inl e \<Rightarrow> Inl e
         | Inr token \<Rightarrow> Inr \<lparr>OrchestratorURL = url, WorkerToken = token,
             WorkerName = getEnv env ''WORKER_NAME'' (hostname host),
             HeartbeatInterval = parseDuration parse env ''HEARTBEAT_INTERVAL'' (10 * 1000000000),
             ReconnectInterval = parseDuration parse env ''RECONNECT_INTERVAL'' (5 * 1000000000),
             DashboardPort = getEnv env ''DASHBOARD_PORT'' ''9100'',
             LatticeURL = getEnv env ''LATTICE_URL'' []\<rparr>))"

record MonitorConfig =
  IngestURL :: string
  APIKey :: string
  Zone :: string
  Env :: string
  SpoolDir :: string
  Debug :: bool
  Stdout :: bool
  mon_WorkerName :: string

definition LoadMonitor :: "string res \<Rightarrow> environ \<Rightarrow> MonitorConfig" where
  "LoadMonitor host env =
     (let m = \<lparr>IngestURL = getEnv env ''MONITOR_INGEST_URL'' [], APIKey = getEnv env ''MONITOR_API_KEY'' [],
            Zone = getEnv env ''MONITOR_ZONE'' ''appleby'', Env = getEnv env ''MONITOR_ENV'' ''production'',
            SpoolDir = getEnv env ''MONITOR_SPOOL_DIR'' ''/opt/lattice-runner/monitor-spool'',
            Debug = (getEnv env ''MONITOR_DEBUG'' ''false'' = ''true''), Stdout = (getEnv env ''MONITOR_STDOUT'' ''false'' = ''true''),
            mon_WorkerName = getEnv env ''WORKER_NAME'' (hostname host)\<rparr> in
      if IngestURL m = [] then m\<lparr>SpoolDir := []\<rparr> else m)"

section \<open>Reaching Docker\<close>

text \<open>
  The loop over the attempts \<open>i, i + 1, ...\<close> of which \<open>n\<close> are left: \<open>attempt i\<close> is the error of creating
  the client or of its ping. Every failed attempt is followed by a sleep, the last one too. The result tells whether
  a client is left.
\<close>

fun connect_docker :: "(nat \<Rightarrow> goerr option) \<Rightarrow> nat \<Rightarrow> nat \<Rightarrow> bool prog" where
  "connect_docker attempt i 0 = ret False"
| "connect_docker attempt i (Suc n) = (case attempt i of
     None \<Rightarrow> ret True
   | Some e \<Rightarrow> do { emit (EvSleep 2000); connect_docker attempt (Suc i) n })"

section \<open>Registration\<close>

text \<open>The addresses of the interfaces: whether one is an IP network, whether it loops back, and its text if it is IPv4.\<close>

fun localIP :: "(bool \<times> bool \<times> string option) list \<Rightarrow> string" where
  "localIP [] = []"
| "localIP ((ipnet, loopback, v4) # addrs) = (case v4 of
     Some s \<Rightarrow> if ipnet \<and> \<not> loopback then s else localIP addrs
   | None \<Rightarrow> localIP addrs)"

definition handle_connected :: "cmdctx \<Rightarrow> Config \<Rightarrow> string \<Rightarrow> string \<Rightarrow> string \<Rightarrow> string \<Rightarrow> string \<Rightarrow> string \<Rightarrow> unit prog" where
  "handle_connected ctx cfg host os arch dockerVersion ip version = wsSend ctx (msg ''registration''
     [(''name'', JStr (WorkerName cfg)), (''hostname'', JStr host), (''os'', JStr os), (''arch'', JStr arch),
      (''docker_version'', JStr dockerVersion), (''ip_address'', JStr ip), (''runner_version'', JStr version)])"

section \<open>What the configuration accepts\<close>

text \<open>
  A configuration is loaded exactly when both required variables are set and the connection is
  encrypted or the operator has opted out; it then carries the values of the environment.
\<close>

theorem load_exact:
  "(\<exists>cfg. Load parse host env = Inr cfg) \<longleftrightarrow>
   (\<exists>url token. env ''ORCHESTRATOR_URL'' = Some url \<and> env ''WORKER_TOKEN'' = Some token \<and>
      (HasPrefix url ''ws://'' \<longrightarrow> ToLower (getEnv env ''ALLOW_INSECURE'' ''false'') = ''true''))"
  by (cases "env ''ORCHESTRATOR_URL''"; cases "env ''WORKER_TOKEN''") (simp_all add: Load_def getEnvOrPanic_def)

text \<open>An interval that is not positive is accepted, for which \<open>time.NewTicker\<close> panics.\<close>

lemma load_keeps_interval:
  "Load parse host env = Inr cfg \<Longrightarrow> env ''HEARTBEAT_INTERVAL'' = Some v \<Longrightarrow> v \<noteq> [] \<Longrightarrow> parse v = Some d \<Longrightarrow> HeartbeatInterval cfg = d"
  by (auto simp: Load_def parseDuration_def getEnv_def Let_def split: sum.splits if_splits)

text \<open>The runner gives up on Docker after exactly the attempts it has, or stops at the first that succeeds.\<close>

lemma connect_docker_result:
  "does (connect_docker attempt i n) (\<lambda>ok es. (ok \<longleftrightarrow> (\<exists>j<n. attempt (i + j) = None)) \<and> length es \<le> n)"
proof (induction n arbitrary: i)
  case 0
  show ?case by (auto intro: does_intros)
next
  case (Suc n)
  show ?case
  proof (cases "attempt i")
    case None
    then have "\<exists>j<Suc n. attempt (i + j) = None" by (intro exI [of _ 0]) simp
    with None show ?thesis by (auto intro: does_intros)
  next
    case (Some e)
    have e: "(\<exists>j<n. attempt (Suc i + j) = None) \<longleftrightarrow> (\<exists>j<Suc n. attempt (i + j) = None)"
      using Some by (auto simp: less_Suc_eq_0_disj)
    have "does (connect_docker attempt (Suc i) n)
        (\<lambda>ok es. (ok \<longleftrightarrow> (\<exists>j<Suc n. attempt (i + j) = None)) \<and> length (EvSleep 2000 # es) \<le> Suc n)"
      by (rule does_mono [OF Suc.IH [of "Suc i"]]) (simp only: e, simp)
    then show ?thesis unfolding connect_docker.simps Some option.case by (rule does_bind_emit)
  qed
qed

section \<open>Background loops and panics\<close>

text \<open>
  \<open>panics i\<close> tells whether the i-th run of a loop ends in a panic. A resilient loop is run again,
  after a sleep of two seconds, until a run returns; the result is the run that did. A loop
  that is not resilient reports its panic and ends the process.
\<close>

partial_function (option) safeGoResilient :: "(nat \<Rightarrow> bool) \<Rightarrow> nat \<Rightarrow> nat option" where
  "safeGoResilient panics i = (if panics i then safeGoResilient panics (Suc i) else Some i)"

definition safeGo_crash :: "string \<Rightarrow> gotext \<Rightarrow> string \<Rightarrow> unit prog" where
  "safeGo_crash name r stack = emit (EvSend False (msg ''worker_crash''
     [(''goroutine'', JStr name), (''panic'', JText (Fmt ''%v'' [FE r])), (''stack'', JStr stack)]))"

text \<open>A resilient loop stops at the first run that returns, and at no other.\<close>

lemma resilient_stops:
  assumes "\<not> panics (i + k)" "\<forall>j<k. panics (i + j)"
  shows "safeGoResilient panics i = Some (i + k)"
  using assms
proof (induction k arbitrary: i)
  case 0
  then show ?case by (simp add: safeGoResilient.simps)
next
  case (Suc k)
  have "panics i" using Suc.prems(2) by (metis add_0_right zero_less_Suc)
  moreover have "safeGoResilient panics (Suc i) = Some (Suc i + k)"
    using Suc.prems by (intro Suc.IH) (auto simp flip: add_Suc_right)
  ultimately show ?case by (simp add: safeGoResilient.simps [of panics i])
qed

end
