(* ===== verification/Setup.thy ===== *)
theory Setup
  imports Startup
begin

text \<open>
  The setup dialogue (cmd/setup.go): the prompts over standard input, the environment file, and the installation as a
  service. Standard input is the text that is left to read; what is printed is not modelled. The effects are
  the list of actions with their answers, in order; a dialogue that never returns is \<^const>\<open>None\<close>. Modes of
  files are numbers (octal 600, 755 and 644 are 384, 493 and 420).
\<close>

section \<open>Prompts\<close>

abbreviation newline :: char where
  "newline \<equiv> CHR 0x0A"

text \<open>\<open>reader.ReadString\<close> up to the end of a line: at the end of the input what is left, with the error ignored.\<close>

definition ReadString :: "string \<Rightarrow> string \<times> string" where
  "ReadString s = (let l = takeWhile (\<lambda>c. c \<noteq> newline) s; r = dropWhile (\<lambda>c. c \<noteq> newline) s in
     if r = [] then (l, []) else (l @ [newline], tl r))"

definition prompt :: "string \<Rightarrow> string \<Rightarrow> string \<times> string" where
  "prompt defaultVal inp = (let (i, rest) = ReadString inp; v = TrimSpace i in (if v = [] then defaultVal else v, rest))"

partial_function (option) promptRequired :: "string \<Rightarrow> (string \<times> string) option" where
  "promptRequired inp = (let p = ReadString inp; v = TrimSpace (fst p) in
     if v \<noteq> [] then Some (v, snd p) else promptRequired (snd p))"

definition promptYesNo :: "bool \<Rightarrow> string \<Rightarrow> bool \<times> string" where
  "promptYesNo defaultYes inp = (let (i, rest) = ReadString inp; v = TrimSpace (ToLower i) in
     (if v = [] then defaultYes else v = ''y'' \<or> v = ''yes'', rest))"

section \<open>Installation\<close>

datatype setupact =
    SMkdirAll string nat "goerr option"
  | SWriteFile string nat string "goerr option"
  | SReadFile string "string res"
  | SRun "string list"

text \<open>The machine: its system, its name (empty if unknown), and the answers of its file system.\<close>

record machine =
  m_linux :: bool
  m_hostname :: string
  m_mkdir :: "string \<Rightarrow> goerr option"
  m_write :: "string \<Rightarrow> goerr option"
  m_executable :: "string res"
  m_read :: "string \<Rightarrow> string res"

definition serviceTemplate :: string where
  "serviceTemplate = concat (map (\<lambda>l. l @ [newline])
    [''[Unit]'',
     ''Description=Lattice Runner'',
     ''After=network.target docker.service'',
     ''Wants=docker.service'',
     ''PartOf=docker.service'',
     [],
     ''[Service]'',
     ''Type=simple'',
     ''WorkingDirectory=/opt/lattice-runner'',
     ''EnvironmentFile=/opt/lattice-runner/.env'',
     ''ExecStart=/opt/lattice-runner/lattice-runner'',
     ''Restart=always'',
     ''RestartSec=5'',
     [],
     ''[Install]'',
     ''WantedBy=multi-user.target''])"

definition writeLocalEnv :: "machine \<Rightarrow> string \<Rightarrow> setupact list" where
  "writeLocalEnv M content = [SWriteFile ''.env'' 384 content (m_write M ''.env'')]"

definition write_act :: "machine \<Rightarrow> string \<Rightarrow> nat \<Rightarrow> string \<Rightarrow> setupact list \<Rightarrow> setupact list" where
  "write_act M p mode content rest = SWriteFile p mode content (m_write M p) # (if m_write M p = None then rest else [])"

definition start_service :: "machine \<Rightarrow> setupact list" where
  "start_service M = write_act M ''/etc/systemd/system/lattice-runner.service'' 420 serviceTemplate
     [SRun [''systemctl'', ''daemon-reload''], SRun [''systemctl'', ''enable'', ''lattice-runner''],
      SRun [''systemctl'', ''start'', ''lattice-runner'']]"

definition copy_binary :: "machine \<Rightarrow> setupact list" where
  "copy_binary M = (case m_executable M of
     Inl e \<Rightarrow> []
   | Inr execPath \<Rightarrow>
       if execPath = ''/opt/lattice-runner/lattice-runner'' then start_service M
       else SReadFile execPath (m_read M execPath) # (case m_read M execPath of
           Inl e \<Rightarrow> []
         | Inr b \<Rightarrow> write_act M ''/opt/lattice-runner/lattice-runner'' 493 b (start_service M)))"

definition install :: "machine \<Rightarrow> string \<Rightarrow> setupact list" where
  "install M content =
     (let r = m_mkdir M ''/opt/lattice-runner'' in SMkdirAll ''/opt/lattice-runner'' 493 r #
        (if r \<noteq> None then [] else write_act M ''/opt/lattice-runner/.env'' 384 content (copy_binary M)))"

definition envContent :: "string \<Rightarrow> string \<Rightarrow> string \<Rightarrow> string" where
  "envContent url token name = ''ORCHESTRATOR_URL='' @ url @ [newline] @ ''WORKER_TOKEN='' @ token @ [newline] @
     ''WORKER_NAME='' @ name @ [newline]"

definition RunSetup :: "machine \<Rightarrow> string \<Rightarrow> setupact list option" where
  "RunSetup M inp = (let (url, r1) = prompt ''wss://lattice-api.appleby.cloud/ws/worker'' inp in
     (case promptRequired r1 of
        None \<Rightarrow> None
      | Some (token, r2) \<Rightarrow>
          let (name, r3) = prompt (m_hostname M) r2; content = envContent url token name in
          Some (if \<not> m_linux M then writeLocalEnv M content
                else if \<not> fst (promptYesNo True r3) then writeLocalEnv M content
                else install M content)))"

section \<open>When the dialogue returns\<close>

lemma TrimSpace_Nil: "TrimSpace s = [] \<longleftrightarrow> (\<forall>c\<in>set s. is_space c)"
proof -
  have "TrimSpace s = [] \<longleftrightarrow> (\<forall>c\<in>set (dropWhile is_space s). is_space c)"
    by (simp add: TrimSpace_def dropWhile_eq_Nil_conv)
  also have "\<dots> \<longleftrightarrow> (\<forall>c\<in>set s. is_space c)"
    by (induction s) auto
  finally show ?thesis .
qed

lemma ReadString_cases:
  obtains "newline \<notin> set s" "ReadString s = (s, [])"
  | l t where "s = l @ newline # t" "newline \<notin> set l" "ReadString s = (l @ [newline], t)"
proof (cases "newline \<in> set s")
  case True
  then obtain l t where s: "s = l @ newline # t" "newline \<notin> set l" by (meson split_list_first)
  then have "\<forall>c\<in>set l. c \<noteq> newline" by blast
  then have "takeWhile (\<lambda>c. c \<noteq> newline) s = l" "dropWhile (\<lambda>c. c \<noteq> newline) s = newline # t"
    unfolding s(1) by (simp_all add: takeWhile_append2 dropWhile_append2)
  then have "ReadString s = (l @ [newline], t)" by (simp add: ReadString_def)
  with s show ?thesis using that(2) by blast
next
  case False
  then have t: "takeWhile (\<lambda>c. c \<noteq> newline) s = s" "dropWhile (\<lambda>c. c \<noteq> newline) s = []"
    by (auto simp: takeWhile_eq_all_conv dropWhile_eq_Nil_conv)
  show ?thesis by (rule that(1) [OF False]) (simp add: ReadString_def t)
qed

lemma blank_line: "TrimSpace (l @ [newline]) = [] \<longleftrightarrow> TrimSpace l = []"
  by (simp add: TrimSpace_Nil is_space_def)

text \<open>At the end of the input the question is asked again and again.\<close>

lemma promptRequired_end: "promptRequired [] = None"
proof -
  have "s \<noteq> []" if "promptRequired s = Some y" for s y
    using that by (rule promptRequired.raw_induct [rotated]) (auto simp: ReadString_def TrimSpace_def Let_def split: if_splits)
  then show ?thesis by (cases "promptRequired []") auto
qed

lemma promptRequired_exact: "promptRequired s = None \<longleftrightarrow> (\<forall>l\<in>set (Split s newline). TrimSpace l = [])"
proof (induction "length s" arbitrary: s rule: less_induct)
  case less
  show ?case
  proof (cases rule: ReadString_cases [of s])
    case 1
    then show ?thesis unfolding promptRequired.simps [of s] by (auto simp: Let_def Split_no promptRequired_end)
  next
    case (2 l t)
    then have "promptRequired t = None \<longleftrightarrow> (\<forall>l\<in>set (Split t newline). TrimSpace l = [])" using less by simp
    moreover have "promptRequired s = None \<longleftrightarrow> TrimSpace l = [] \<and> promptRequired t = None"
      unfolding promptRequired.simps [of s] 2(3) by (simp add: Let_def blank_line)
    ultimately show ?thesis by (simp add: 2(1,2) Split_at)
  qed
qed

text \<open>
  The setup returns exactly when a token is entered. The dialogue ends if and only if some line after
  the first holds more than white space; on an input that ends before (a closed or empty standard input, as in a script) it
  asks for the token for ever, because the end of the input is not told from an empty line.
\<close>

theorem setup_needs_token:
  "RunSetup M inp = None \<longleftrightarrow> (\<forall>l\<in>set (tl (Split inp newline)). TrimSpace l = [])"
proof (cases rule: ReadString_cases [of inp])
  case 1
  then show ?thesis by (simp add: RunSetup_def prompt_def Split_no promptRequired_end Let_def)
next
  case (2 l t)
  then show ?thesis
    by (auto simp: RunSetup_def prompt_def Split_at Let_def simp flip: promptRequired_exact split: option.splits prod.splits)
qed

section \<open>What the setup writes is what the runner loads\<close>

text \<open>The assignments of an environment file: its lines that are not empty, each cut at its first equals sign.\<close>

definition cut :: "string \<Rightarrow> string \<times> string" where
  "cut l = (takeWhile (\<lambda>c. c \<noteq> CHR ''='') l, tl (dropWhile (\<lambda>c. c \<noteq> CHR ''='') l))"

definition env_entries :: "string \<Rightarrow> (string \<times> string) list" where
  "env_entries c = map cut (filter (\<lambda>l. l \<noteq> []) (Split c newline))"

lemma TrimSpace_newline: "TrimSpace (l @ [newline]) = TrimSpace l"
proof (cases "\<forall>c\<in>set l. is_space c")
  case True
  then show ?thesis using blank_line [of l] TrimSpace_Nil [of l] by simp
next
  case False
  then have "dropWhile is_space (l @ [newline]) = dropWhile is_space l @ [newline]" by (induction l) auto
  then show ?thesis by (simp add: TrimSpace_def is_space_def)
qed

lemma set_TrimSpace: "set (TrimSpace s) \<subseteq> set s"
  unfolding TrimSpace_def by (auto dest!: set_dropWhileD)

lemma line_clean: "newline \<notin> set (TrimSpace (fst (ReadString s)))"
  by (cases rule: ReadString_cases [of s]) (use set_TrimSpace in \<open>auto simp: TrimSpace_newline\<close>)

lemma prompt_clean: "newline \<notin> set d \<Longrightarrow> newline \<notin> set (fst (prompt d s))"
  using line_clean [of s] by (auto simp: prompt_def Let_def split: prod.splits)

lemma required_clean:
  assumes "promptRequired s = Some y"
  shows "fst y \<noteq> [] \<and> newline \<notin> set (fst y)"
  using assms by (rule promptRequired.raw_induct [rotated]) (use line_clean in \<open>auto simp: Let_def split: if_splits\<close>)

lemma env_round_trip:
  assumes "newline \<notin> set url" "newline \<notin> set token" "newline \<notin> set name"
  shows "env_entries (envContent url token name) = [(''ORCHESTRATOR_URL'', url), (''WORKER_TOKEN'', token), (''WORKER_NAME'', name)]"
proof -
  have c: "envContent url token name = (''ORCHESTRATOR_URL='' @ url) @ newline # (''WORKER_TOKEN='' @ token) @ newline #
      (''WORKER_NAME='' @ name) @ newline # []"
    by (simp add: envContent_def)
  have n: "newline \<notin> set (''ORCHESTRATOR_URL='' @ url)" "newline \<notin> set (''WORKER_TOKEN='' @ token)" "newline \<notin> set (''WORKER_NAME='' @ name)"
    using assms by simp_all
  show ?thesis unfolding env_entries_def c Split_at [OF n(1)] Split_at [OF n(2)] Split_at [OF n(3)] by (simp add: cut_def)
qed

text \<open>The actions that write the environment file, and those that start the service.\<close>

definition env_writes :: "setupact list \<Rightarrow> (nat \<times> string \<times> goerr option) list" where
  "env_writes acts = concat (map (\<lambda>a. case a of
     SWriteFile p mode c r \<Rightarrow> if p = ''.env'' \<or> p = ''/opt/lattice-runner/.env'' then [(mode, c, r)] else []
   | _ \<Rightarrow> []) acts)"

definition starts :: "setupact list \<Rightarrow> bool" where
  "starts acts = (SRun [''systemctl'', ''start'', ''lattice-runner''] \<in> set acts)"

definition all_written :: "setupact list \<Rightarrow> bool" where
  "all_written acts = (\<forall>a\<in>set acts. case a of SWriteFile p mode c r \<Rightarrow> r = None | _ \<Rightarrow> True)"

lemma acts_simps [simp]:
  "env_writes [] = []" "env_writes (SMkdirAll d k e # as) = env_writes as" "env_writes (SReadFile q rr # as) = env_writes as"
  "env_writes (SRun cs # as) = env_writes as"
  "env_writes (SWriteFile p k c e # as) =
     (if p = ''.env'' \<or> p = ''/opt/lattice-runner/.env'' then [(k, c, e)] else []) @ env_writes as"
  "\<not> starts []" "starts (a # as) \<longleftrightarrow> a = SRun [''systemctl'', ''start'', ''lattice-runner''] \<or> starts as"
  "all_written []" "all_written (SMkdirAll d k e # as) = all_written as" "all_written (SReadFile q rr # as) = all_written as"
  "all_written (SRun cs # as) = all_written as" "all_written (SWriteFile p k c e # as) \<longleftrightarrow> e = None \<and> all_written as"
  by (auto simp: env_writes_def starts_def all_written_def)

lemma install_writes:
  "set (env_writes (install M c)) \<subseteq> {(384, c, m_write M ''/opt/lattice-runner/.env'')} \<and>
   (starts (install M c) \<longrightarrow> all_written (install M c) \<and> env_writes (install M c) \<noteq> [])"
  by (simp add: install_def copy_binary_def start_service_def write_act_def Let_def split: sum.split)

lemma local_writes:
  "set (env_writes (writeLocalEnv M c)) \<subseteq> {(384, c, m_write M ''.env'')} \<and> \<not> starts (writeLocalEnv M c)"
  by (simp add: writeLocalEnv_def)


definition plain_machine :: machine where
  "plain_machine = \<lparr>m_linux = True, m_hostname = ''worker-1'', m_mkdir = \<lambda>_. None, m_write = \<lambda>_. None,
     m_executable = Inr ''/root/lattice-runner'', m_read = \<lambda>_. Inr ''ELF''\<rparr>"

definition plain_input :: string where
  "plain_input = [newline] @ ''tok'' @ [newline, newline, newline]"

lemma plain_setup: "RunSetup plain_machine plain_input =
  Some (install plain_machine (envContent ''wss://lattice-api.appleby.cloud/ws/worker'' ''tok'' ''worker-1''))"
  by (simp add: RunSetup_def plain_machine_def plain_input_def prompt_def ReadString_def TrimSpace_def is_space_def Let_def
      promptRequired.simps promptYesNo_def ToLower_def)


end
