(* ===== verification/Log_Lines.thy ===== *)
theory Log_Lines
  imports Telemetry Startup
begin

text \<open>
  The text of a log line on standard error (\<open>lineHandler\<close> of telemetry/handler.go), and the events the runner sends to
  Monitor itself: panics, crashes, boot failures, start and stop (telemetry/telemetry.go). Text is ASCII, as in the rest
  of the development; the formatted time, the call site and the stack are parameters. What is sent to Monitor and
  written to the log is a list of actions, in order.
\<close>

section \<open>Quoting\<close>

definition hexdigit :: "nat \<Rightarrow> char" where
  "hexdigit n = ''0123456789abcdef'' ! n"

definition escaped :: "char \<Rightarrow> string" where
  "escaped c =
     (if c = CHR 0x22 \<or> c = CHR 0x5C then [CHR 0x5C, c]
      else if CHR 0x20 \<le> c \<and> c < CHR 0x7F then [c]
      else if c = CHR 0x07 then [CHR 0x5C, CHR ''a''] else if c = CHR 0x08 then [CHR 0x5C, CHR ''b'']
      else if c = CHR 0x0C then [CHR 0x5C, CHR ''f''] else if c = CHR 0x0A then [CHR 0x5C, CHR ''n'']
      else if c = CHR 0x0D then [CHR 0x5C, CHR ''r''] else if c = CHR 0x09 then [CHR 0x5C, CHR ''t'']
      else if c = CHR 0x0B then [CHR 0x5C, CHR ''v'']
      else [CHR 0x5C, CHR ''x'', hexdigit (of_char c div 16), hexdigit (of_char c mod 16)])"

definition AppendQuote :: "string \<Rightarrow> string" where
  "AppendQuote s = [CHR 0x22] @ concat (map escaped s) @ [CHR 0x22]"

definition CanBackquote :: "string \<Rightarrow> bool" where
  "CanBackquote s = list_all (\<lambda>c. (CHR 0x20 \<le> c \<or> c = CHR 0x09) \<and> c \<noteq> CHR 0x60 \<and> c < CHR 0x7F) s"

section \<open>Attributes\<close>

text \<open>A resolved value: nil, a value by its text, or a group of attributes.\<close>

datatype aval = ANil | AStr string | AGroup "(string \<times> aval) list"

definition value_text :: "string \<Rightarrow> string" where
  "value_text s = (if s = [] \<or> ContainsAny s ('' ='' @ [CHR 0x22, CHR 0x09, CHR 0x0A]) \<or> \<not> CanBackquote s then AppendQuote s else s)"

fun appendAttr :: "string \<Rightarrow> string \<times> aval \<Rightarrow> string" where
  "appendAttr pre (k, ANil) = (if k = [] then [] else '' '' @ pre @ k @ ''='' @ value_text ''<nil>'')"
| "appendAttr pre (k, AStr s) = '' '' @ pre @ k @ ''='' @ value_text s"
| "appendAttr pre (k, AGroup as) = concat (map (appendAttr (if k \<noteq> [] then pre @ k @ ''.'' else pre)) as)"

section \<open>The line handler\<close>

record lineHandler =
  lh_level :: int
  lh_attrs :: string
  lh_prefix :: string

definition lh_Enabled :: "lineHandler \<Rightarrow> int \<Rightarrow> bool" where
  "lh_Enabled h l = (l \<ge> lh_level h)"

text \<open>\<open>slog.Level.String\<close>\<close>

definition level_name :: "string \<Rightarrow> int \<Rightarrow> string" where
  "level_name base d = (if d = 0 then base else base @ (if d > 0 then ''+'' else []) @ Itoa d)"

definition Level_String :: "int \<Rightarrow> string" where
  "Level_String l =
     (if l < LevelInfo then level_name ''DEBUG'' (l - LevelDebug) else if l < LevelWarn then level_name ''INFO'' (l - LevelInfo)
      else if l < LevelError then level_name ''WARN'' (l - LevelWarn) else level_name ''ERROR'' (l - LevelError))"

definition lh_Handle :: "lineHandler \<Rightarrow> string \<Rightarrow> (string \<times> int) option \<Rightarrow> int \<Rightarrow> string \<Rightarrow> (string \<times> aval) list \<Rightarrow> string" where
  "lh_Handle h time site l m as = time @ '' '' @
     (case site of Some (file, line) \<Rightarrow> file @ '':'' @ Itoa line @ '': '' | None \<Rightarrow> []) @
     (if l \<noteq> LevelInfo then Level_String l @ '' '' else []) @ m @ lh_attrs h @
     concat (map (appendAttr (lh_prefix h)) as) @ [CHR 0x0A]"

definition lh_WithAttrs :: "(string \<times> aval) list \<Rightarrow> lineHandler \<Rightarrow> lineHandler" where
  "lh_WithAttrs as h = h\<lparr>lh_attrs := lh_attrs h @ concat (map (appendAttr (lh_prefix h)) as)\<rparr>"

definition lh_WithGroup :: "string \<Rightarrow> lineHandler \<Rightarrow> lineHandler" where
  "lh_WithGroup name h = (if name = [] then h else h\<lparr>lh_prefix := lh_prefix h @ name @ ''.''\<rparr>)"

section \<open>Events of the runner\<close>

datatype monact =
    MEmit string string payload
  | MFlush
  | MLog string
  | MExit
  | MPanic string

definition emit_event :: "string \<Rightarrow> string \<Rightarrow> string \<Rightarrow> payload \<Rightarrow> monact" where
  "emit_event worker level name data = MEmit level name (AList.update ''worker'' (JStr worker) data)"

definition ReportPanic :: "string \<Rightarrow> string \<Rightarrow> string \<Rightarrow> string \<Rightarrow> string \<Rightarrow> payload \<Rightarrow> monact" where
  "ReportPanic worker goroutine recovered ptype stack fs = emit_event worker ''error'' ''panic.recovered''
     (AList.update ''stacktrace'' (JStr stack) (AList.update ''panic_type'' (JStr ptype)
       (AList.update ''error'' (JStr recovered) (AList.update ''goroutine'' (JStr goroutine) fs))))"

text \<open>The recovered value, if there is one: its text and the name of its type.\<close>

definition Recover :: "string \<Rightarrow> string \<Rightarrow> (string \<times> string) option \<Rightarrow> string \<Rightarrow> payload \<Rightarrow> monact list" where
  "Recover worker goroutine rec stack fs = (case rec of
     None \<Rightarrow> []
   | Some (v, ptype) \<Rightarrow> [ReportPanic worker goroutine v ptype stack fs,
       MLog (''['' @ goroutine @ ''] PANIC (recovered): '' @ v @ [CHR 0x0A] @ stack)])"

definition ReportCrash :: "string \<Rightarrow> string \<Rightarrow> string \<Rightarrow> string \<Rightarrow> string \<Rightarrow> monact list" where
  "ReportCrash worker goroutine v ptype stack =
     [ReportPanic worker goroutine v ptype stack [],
      emit_event worker ''fatal'' ''service.crashed'' [(''goroutine'', JStr goroutine), (''error'', JStr v)], MFlush]"

definition CrashGuard :: "string \<Rightarrow> string \<Rightarrow> (string \<times> string) option \<Rightarrow> string \<Rightarrow> monact list" where
  "CrashGuard worker goroutine rec stack = (case rec of
     None \<Rightarrow> []
   | Some (v, ptype) \<Rightarrow> ReportCrash worker goroutine v ptype stack @ [MPanic v])"

definition telemetry_Fatal :: "string \<Rightarrow> string \<Rightarrow> string \<Rightarrow> string option \<Rightarrow> monact list" where
  "telemetry_Fatal worker name m err =
     [emit_event worker ''fatal'' name ([(''message'', JStr m)] @ (case err of Some e \<Rightarrow> [(''error'', JStr e)] | None \<Rightarrow> [])),
      MFlush, MLog (case err of Some e \<Rightarrow> m @ '': '' @ e | None \<Rightarrow> m), MExit]"

definition telemetry_Shutdown :: "string \<Rightarrow> string \<Rightarrow> monact list" where
  "telemetry_Shutdown worker reason = [emit_event worker ''info'' ''service.shutdown'' [(''reason'', JStr reason)], MFlush]"

text \<open>The answer of \<open>monitor.Init\<close> is a parameter; a failure leaves the standard logger as it is.\<close>

definition telemetry_Init :: "string \<Rightarrow> MonitorConfig \<Rightarrow> string option \<Rightarrow> monact list" where
  "telemetry_Init version cfg err = (case err of
     Some e \<Rightarrow> [MLog (''telemetry: Monitor disabled: '' @ e)]
   | None \<Rightarrow> (if IngestURL cfg = [] then [MLog ''telemetry: MONITOR_INGEST_URL is not set; events are not being shipped''] else []) @
       [emit_event (mon_WorkerName cfg) ''info'' ''service.startup'' [(''version'', JStr version), (''spool'', JBool (SpoolDir cfg \<noteq> []))]])"

section \<open>The attributes of a line can be read back\<close>

fun flat :: "string \<Rightarrow> string \<times> aval \<Rightarrow> (string \<times> string) list" where
  "flat pre (k, ANil) = (if k = [] then [] else [(pre @ k, ''<nil>'')])"
| "flat pre (k, AStr s) = [(pre @ k, s)]"
| "flat pre (k, AGroup as) = concat (map (flat (if k \<noteq> [] then pre @ k @ ''.'' else pre)) as)"

lemma concat_map_concat: "concat (map g (concat xss)) = concat (map (\<lambda>xs. concat (map g xs)) xss)"
  by (induction xss) auto

definition attr_text :: "string \<times> string \<Rightarrow> string" where
  "attr_text kv = '' '' @ fst kv @ ''='' @ value_text (snd kv)"

lemma appendAttr_flat: "appendAttr pre a = concat (map attr_text (flat pre a))"
  by (induction pre a rule: appendAttr.induct) (auto simp: concat_map_concat attr_text_def cong: map_cong)

text \<open>
  A reader of the attributes: a space, the key up to the first equals sign, and the value, which is quoted or
  ends at a space or at the end of the line. In a quoted value a backslash begins an escape.
\<close>

definition hexval :: "char \<Rightarrow> nat" where
  "hexval c = (if is_digit c then of_char c - 48 else of_char c - 87)"

definition unescape :: "char \<Rightarrow> char" where
  "unescape d = (if d = CHR ''a'' then CHR 0x07 else if d = CHR ''b'' then CHR 0x08 else if d = CHR ''f'' then CHR 0x0C
     else if d = CHR ''n'' then CHR 0x0A else if d = CHR ''r'' then CHR 0x0D else if d = CHR ''t'' then CHR 0x09
     else if d = CHR ''v'' then CHR 0x0B else d)"

definition prepend :: "char \<Rightarrow> (string \<times> string) option \<Rightarrow> (string \<times> string) option" where
  "prepend c r = map_option (\<lambda>(v, t). (c # v, t)) r"

fun read_quoted :: "string \<Rightarrow> (string \<times> string) option" where
  "read_quoted [] = None"
| "read_quoted (c # s) =
     (if c = CHR 0x22 then Some ([], s)
      else if c \<noteq> CHR 0x5C then prepend c (read_quoted s)
      else (case s of
          [] \<Rightarrow> None
        | d # t \<Rightarrow>
            if d \<noteq> CHR ''x'' then prepend (unescape d) (read_quoted t)
            else (case t of a # b # u \<Rightarrow> prepend (char_of (16 * hexval a + hexval b)) (read_quoted u) | _ \<Rightarrow> None)))"

definition ends_value :: "char \<Rightarrow> bool" where
  "ends_value c = (c = CHR '' '' \<or> c = CHR 0x0A)"

definition read_value :: "string \<Rightarrow> (string \<times> string) option" where
  "read_value s = (case s of
     [] \<Rightarrow> Some ([], [])
   | c # t \<Rightarrow> if c = CHR 0x22 then read_quoted t
       else Some (takeWhile (\<lambda>c. \<not> ends_value c) s, dropWhile (\<lambda>c. \<not> ends_value c) s))"

fun read_attrs :: "nat \<Rightarrow> string \<Rightarrow> (string \<times> string) list option" where
  "read_attrs 0 s = (if s = [CHR 0x0A] then Some [] else None)"
| "read_attrs (Suc n) s =
     (if s = [] \<or> hd s \<noteq> CHR '' '' then None
      else let k = takeWhile (\<lambda>c. c \<noteq> CHR ''='') (tl s) in
        (case dropWhile (\<lambda>c. c \<noteq> CHR ''='') (tl s) of
           [] \<Rightarrow> None
         | e # t \<Rightarrow> (case read_value t of None \<Rightarrow> None | Some (v, r) \<Rightarrow> map_option (\<lambda>l. (k, v) # l) (read_attrs n r))))"

lemma hexval_hexdigit: "n < 16 \<Longrightarrow> hexval (hexdigit n) = n"
proof -
  have "\<forall>n\<in>set [0..<16]. hexval (hexdigit n) = n" by code_simp
  then show "n < 16 \<Longrightarrow> hexval (hexdigit n) = n" by simp
qed

lemma of_char_less: "(of_char c :: nat) < 256"
  using of_char_mod_256 [of c] by (metis mod_less_divisor zero_less_numeral)

lemma read_escaped_value: "read_quoted (escaped c @ s) = prepend c (read_quoted s)"
proof -
  have n: "(of_char c :: nat) div 16 < 16" using of_char_less [of c] by (simp add: less_mult_imp_div_less)
  have "char_of (16 * hexval (hexdigit (of_char c div 16)) + hexval (hexdigit (of_char c mod 16))) = c"
    by (simp add: hexval_hexdigit [OF n] hexval_hexdigit)
  then show ?thesis by (auto simp: escaped_def unescape_def)
qed

lemma read_AppendQuote: "read_quoted (concat (map escaped v) @ CHR 0x22 # r) = Some (v, r)"
  by (induction v) (simp_all add: read_escaped_value prepend_def)

lemma read_value_text:
  assumes "r \<noteq> []" "ends_value (hd r)"
  shows "read_value (value_text v @ r) = Some (v, r)"
proof (cases "value_text v = v")
  case False
  then have "value_text v = AppendQuote v" by (auto simp: value_text_def split: if_splits)
  then show ?thesis by (simp add: AppendQuote_def read_value_def read_AppendQuote)
next
  case True
  show ?thesis
  proof (cases "v = [] \<or> ContainsAny v ('' ='' @ [CHR 0x22, CHR 0x09, CHR 0x0A])")
    case True
    then have "value_text v = AppendQuote v" by (auto simp: value_text_def)
    then show ?thesis by (simp add: AppendQuote_def read_value_def read_AppendQuote)
  next
    case False
    then have v: "v \<noteq> []" "hd v \<noteq> CHR 0x22" "\<forall>c\<in>set v. \<not> ends_value c"
      by (auto simp: ContainsAny_iff ends_value_def)
    have "takeWhile (\<lambda>c. \<not> ends_value c) (v @ r) = v" "dropWhile (\<lambda>c. \<not> ends_value c) (v @ r) = r"
      using v(3) assms by (cases r; simp add: takeWhile_append2 dropWhile_append2)+
    then show ?thesis using v(1,2) unfolding \<open>value_text v = v\<close> by (cases v) (auto simp: read_value_def)
  qed
qed

lemma read_attrs_text:
  assumes "\<forall>kv\<in>set kvs. CHR ''='' \<notin> set (fst kv)"
  shows "read_attrs (length kvs) (concat (map attr_text kvs) @ [CHR 0x0A]) = Some kvs"
  using assms
proof (induction kvs)
  case (Cons kv kvs)
  let ?r = "concat (map attr_text kvs) @ [CHR 0x0A]"
  have r: "?r \<noteq> []" "ends_value (hd ?r)" by (cases kvs; simp add: attr_text_def ends_value_def)+
  have "\<forall>c\<in>set (fst kv). c \<noteq> CHR ''=''" using Cons.prems by auto
  then have "takeWhile (\<lambda>c. c \<noteq> CHR ''='') (fst kv @ CHR ''='' # t) = fst kv"
      "dropWhile (\<lambda>c. c \<noteq> CHR ''='') (fst kv @ CHR ''='' # t) = CHR ''='' # t" for t
    by (simp_all add: takeWhile_append2 dropWhile_append2)
  then show ?case using Cons read_value_text [OF r, of "snd kv"] by (simp add: attr_text_def [of kv])
qed simp

lemma escaped_printable: "c' \<in> set (escaped c) \<Longrightarrow> c' \<noteq> CHR 0x0A"
proof -
  have h: "hexdigit n \<noteq> CHR 0x0A" if "n < 16" for n
  proof -
    have "\<forall>n\<in>set [0..<16]. hexdigit n \<noteq> CHR 0x0A" by code_simp
    then show ?thesis using that by simp
  qed
  have n: "(of_char c :: nat) div 16 < 16" using of_char_less [of c] by (simp add: less_mult_imp_div_less)
  assume "c' \<in> set (escaped c)"
  then show ?thesis using h [OF n] h [of "of_char c mod 16"] by (auto simp: escaped_def split: if_splits)
qed

lemma value_text_line: "CHR 0x0A \<notin> set (value_text v)"
proof -
  have "CHR 0x0A \<notin> set (AppendQuote v)" by (auto simp: AppendQuote_def dest: escaped_printable)
  then show ?thesis by (auto simp: value_text_def ContainsAny_iff)
qed

text \<open>
  C36: The attributes of a log line cannot be forged by their values. Whatever text the values hold (quotes, spaces,
  line breaks, text that looks like another attribute), the part of the line that the handler writes after the message
  has no line break but the one at its end, and reads back as exactly the attributes of the record, with the keys of its
  groups, as long as the keys, which the code chooses, hold no equals sign and no line break.
\<close>

theorem log_attrs_round_trip:
  assumes "\<forall>(k, v)\<in>set (concat (map (flat (lh_prefix h)) as)). CHR ''='' \<notin> set k \<and> CHR 0x0A \<notin> set k"
  shows "\<exists>tail. lh_Handle h time site l m as = butlast (lh_Handle h time site l m []) @ tail \<and>
    CHR 0x0A \<notin> set (butlast tail) \<and>
    read_attrs (length (concat (map (flat (lh_prefix h)) as))) tail = Some (concat (map (flat (lh_prefix h)) as))"
proof -
  let ?kvs = "concat (map (flat (lh_prefix h)) as)"
  let ?tail = "concat (map attr_text ?kvs) @ [CHR 0x0A]"
  have t: "concat (map (appendAttr (lh_prefix h)) as) = concat (map attr_text ?kvs)"
    unfolding concat_map_concat map_map o_def by (intro arg_cong [where f = concat] map_cong refl appendAttr_flat)
  have "lh_Handle h time site l m as = butlast (lh_Handle h time site l m []) @ ?tail"
    by (simp add: lh_Handle_def t butlast_append)
  moreover have "CHR 0x0A \<notin> set (attr_text kv)" if "kv \<in> set ?kvs" for kv
    using bspec [OF assms that] value_text_line [of "snd kv"] by (auto simp: attr_text_def split: prod.splits)
  then have "CHR 0x0A \<notin> set (butlast ?tail)" by (auto simp: butlast_append)
  moreover have "read_attrs (length ?kvs) ?tail = Some ?kvs"
  proof (rule read_attrs_text, intro ballI)
    fix kv assume "kv \<in> set ?kvs"
    from bspec [OF assms this] show "CHR ''='' \<notin> set (fst kv)" by (simp add: case_prod_unfold)
  qed
  ultimately show ?thesis by blast
qed

theorem log_attrs_round_trip_witness:
  "\<exists>tail. lh_Handle \<lparr>lh_level = 0, lh_attrs = [], lh_prefix = []\<rparr> ''t'' None LevelInfo ''m'' [(''error'', AStr (''a b=c'' @ [CHR 0x22, CHR 0x0A]))] =
     butlast (lh_Handle \<lparr>lh_level = 0, lh_attrs = [], lh_prefix = []\<rparr> ''t'' None LevelInfo ''m'' []) @ tail \<and>
   read_attrs 1 tail = Some [(''error'', ''a b=c'' @ [CHR 0x22, CHR 0x0A])]"
  using log_attrs_round_trip [of "\<lparr>lh_level = 0, lh_attrs = [], lh_prefix = []\<rparr>" "[(''error'', AStr (''a b=c'' @ [CHR 0x22, CHR 0x0A]))]"
    "''t''" None LevelInfo "''m''"] by (simp del: read_attrs.simps) blast

section \<open>A panic is reported once\<close>

text \<open>
  What reaches Monitor: an event that is sent to it, and a line of the standard logger by way of the handler (no
  attributes, the level info, called from the bridge).
\<close>

datatype monevent = Sent string string payload | Logged monrecord

definition bridge_record :: "string \<Rightarrow> logrecord" where
  "bridge_record line = \<lparr>lr_level = LevelInfo, lr_msg = line, lr_attrs = [], lr_bridge = True\<rparr>"

fun monitor_sees :: "nat \<Rightarrow> int \<Rightarrow> int \<Rightarrow> string \<Rightarrow> int \<Rightarrow> monact list \<Rightarrow> wkeys \<Rightarrow> monevent list" where
  "monitor_sees limit window enabledAt worker now [] ks = []"
| "monitor_sees limit window enabledAt worker now (a # as) ks = (case a of
     MEmit l n d \<Rightarrow> Sent l n d # monitor_sees limit window enabledAt worker now as ks
   | MLog line \<Rightarrow>
       (let (r, ks') = Handle limit window enabledAt worker \<lparr>rh_component = [], rh_event = [], rh_grouped = False\<rparr> now (bridge_record line) ks in
        (case r of Some x \<Rightarrow> [Logged x] | None \<Rightarrow> []) @ monitor_sees limit window enabledAt worker now as ks')
   | _ \<Rightarrow> monitor_sees limit window enabledAt worker now as ks)"

text \<open>The text of a stack, as \<open>debug.Stack\<close> prints it: it begins with the number and the state of the goroutine.\<close>

definition stack_text :: "string \<Rightarrow> bool" where
  "stack_text s = (\<exists>d t. s = ''goroutine '' @ d @ '' ['' @ t \<and> d \<noteq> [] \<and> list_all is_digit d)"

lemma goroutine_in_append: "goroutine_in t \<Longrightarrow> goroutine_in (s @ t)"
  by (induction s) auto

lemma goroutine_in_stack: "stack_text s \<Longrightarrow> goroutine_in (v @ CHR 0x0A # s)"
proof (rule goroutine_in_append)
  assume "stack_text s"
  then obtain d t where s: "s = ''goroutine '' @ d @ '' ['' @ t" "d \<noteq> []" "list_all is_digit d" unfolding stack_text_def by blast
  have "takeWhile is_digit (d @ CHR '' '' # CHR ''['' # t) = d" using s(3) by (simp add: takeWhile_append2 list_all_iff is_digit_def)
  then show "goroutine_in (CHR 0x0A # s)" using s(1,2) by (simp add: HasPrefix_def)
qed

definition panic_tail :: "string \<Rightarrow> bool" where
  "panic_tail u = ((u = [] \<or> \<not> is_word (hd u)) \<and> goroutine_in u)"

lemma panic_line:
  assumes "panic_tail u" "g \<noteq> []" "CHR '']'' \<notin> set g" "CHR 0x0A \<notin> set g"
  shows "panicReportLine (''PANIC'' @ u)" "panicReportLine (''['' @ g @ ''] PANIC'' @ u)"
proof -
  show "panicReportLine (''PANIC'' @ u)" using assms(1) by (simp add: panicReportLine_def strip_goroutine_def HasPrefix_def panic_tail_def)
  have "\<forall>x\<in>set g. x \<noteq> CHR '']'' \<and> x \<noteq> CHR 0x0A" using assms(3,4) by auto
  then have "takeWhile (\<lambda>x. x \<noteq> CHR '']'' \<and> x \<noteq> CHR 0x0A) (g @ CHR '']'' # r) = g" for r
    by (simp add: takeWhile_append2)
  then have "strip_goroutine (''['' @ g @ ''] PANIC'' @ u) = ''PANIC'' @ u"
    using assms(2) by (simp add: strip_goroutine_def HasPrefix_def Let_def)
  then show "panicReportLine (''['' @ g @ ''] PANIC'' @ u)" using assms(1) by (simp add: panicReportLine_def HasPrefix_def panic_tail_def)
qed

lemma panic_component:
  assumes "CHR '']'' \<notin> set g"
  shows "snd (parseComponent (''['' @ g @ ''] PANIC'' @ u)) \<in> {''PANIC'' @ u, ''['' @ g @ ''] PANIC'' @ u}"
proof (cases "\<forall>x\<in>set g. is_word x \<or> x = CHR ''-''")
  case True
  have "\<not> (is_word (CHR '']'') \<or> CHR '']'' = CHR ''-'')" by (simp add: is_word_def is_digit_def)
  then have "takeWhile (\<lambda>x. is_word x \<or> x = CHR ''-'') (g @ CHR '']'' # r) = g" "dropWhile (\<lambda>x. is_word x \<or> x = CHR ''-'') (g @ CHR '']'' # r) = CHR '']'' # r" for r
    using True by (simp_all add: takeWhile_append2 dropWhile_append2)
  then show ?thesis
    by (auto simp: parseComponent_def bracketComponent_def colonComponent_def Let_def TrimPrefix_def HasPrefix_def is_digit_def)
next
  case False
  then obtain x where x: "x \<in> set g" "\<not> (is_word x \<or> x = CHR ''-'')" by blast
  have "dropWhile (\<lambda>x. is_word x \<or> x = CHR ''-'') (g @ r) = dropWhile (\<lambda>x. is_word x \<or> x = CHR ''-'') g @ r" for r
    using x by (simp add: dropWhile_append1)
  moreover have "dropWhile (\<lambda>x. is_word x \<or> x = CHR ''-'') g \<noteq> []" using x by (auto simp: dropWhile_eq_Nil_conv)
  moreover have "hd (dropWhile (\<lambda>x. is_word x \<or> x = CHR ''-'') g) \<noteq> CHR '']''"
    using assms calculation(2) by (metis hd_in_set set_dropWhileD)
  ultimately have "bracketComponent (''['' @ g @ ''] PANIC'' @ u) = None"
    by (simp add: bracketComponent_def Let_def)
  then show ?thesis by (auto simp: parseComponent_def colonComponent_def Let_def is_digit_def)
qed

lemma panic_not_logged:
  assumes "panic_tail u" "g \<noteq> []" "CHR '']'' \<notin> set g" "CHR 0x0A \<notin> set g"
  shows "Handle limit window enabledAt worker \<lparr>rh_component = [], rh_event = [], rh_grouped = False\<rparr> now
    (bridge_record (''['' @ g @ ''] PANIC'' @ u)) ks = (None, ks)"
proof -
  obtain c m where p: "parseComponent (''['' @ g @ ''] PANIC'' @ u) = (c, m)" by fastforce
  then have "panicReportLine m" using panic_component [OF assms(3), of u] panic_line [OF assms] by auto
  then show ?thesis using p by (simp add: Handle_def bridge_record_def attr_or_def)
qed

text \<open>
  A recovered panic reaches Monitor once. A deferred \<open>Recover\<close> that stops a panic sends one event at the level error with
  the goroutine, the value and the stack, and the line it writes to the log, which goes through the handler to Monitor as well, is left out
  there, whatever the text of the value is, for every name of a goroutine without a closing bracket or a line break.
\<close>

theorem panic_reported_once:
  assumes "g \<noteq> []" "CHR '']'' \<notin> set g" "CHR 0x0A \<notin> set g" "stack_text stack"
  shows "\<exists>data. monitor_sees limit window enabledAt worker now (Recover worker g (Some (v, ptype)) stack fs) ks = [Sent ''error'' ''panic.recovered'' data] \<and>
    map_of data ''goroutine'' = Some (JStr g) \<and> map_of data ''error'' = Some (JStr v) \<and>
    map_of data ''stacktrace'' = Some (JStr stack) \<and> map_of data ''worker'' = Some (JStr worker)"
proof -
  let ?u = "'' (recovered): '' @ v @ CHR 0x0A # stack"
  have "panic_tail ?u"
    unfolding panic_tail_def using goroutine_in_stack [OF assms(4), of "'' (recovered): '' @ v"] by (simp add: is_word_def is_digit_def)
  note p = panic_not_logged [OF this assms(1-3)]
  have line: "''['' @ g @ ''] PANIC (recovered): '' @ v @ [CHR 0x0A] @ stack = ''['' @ g @ ''] PANIC'' @ ?u" by simp
  show ?thesis unfolding Recover_def option.case prod.case line
    by (simp only: monitor_sees.simps monact.case p ReportPanic_def emit_event_def Let_def prod.case option.case append_Nil)
      (simp add: update_conv')
qed

theorem panic_reported_once_witness:
  "\<exists>data. monitor_sees 20 60 0 ''w'' 0 (Recover ''w'' ''handler:deploy'' (Some (''boom'', ''string'')) ''goroutine 7 [running]:'' []) [] =
     [Sent ''error'' ''panic.recovered'' data]"
proof -
  have "stack_text ''goroutine 7 [running]:''"
    unfolding stack_text_def by (intro exI [of _ "''7''"] exI [of _ "''running]:''"]) (simp add: is_digit_def)
  from panic_reported_once [OF _ _ _ this, of "''handler:deploy''" 20 60 0 "''w''" 0 "''boom''" "''string''" "[]" "[]"] show ?thesis by auto
qed

end
