(* ===== verification/Dashboard.thy ===== *)
theory Dashboard
  imports Heartbeat Startup Host_Commands
begin

text \<open>
  The local dashboard (web/server.go): its routes and handlers. A request is its path and its query parameter \<open>tail\<close>; an
  answer is a status, a content type and a body. The page (web/dashboard.go), the version of Docker and the uptime are
  parameters; \<open>docker\<close> tells whether there is a client. The HTTP library, which cleans paths before they are routed,
  is not modelled.
\<close>

datatype body = BText gotext | BJson json | BStream string

record response =
  rs_Status :: nat
  rs_ContentType :: string
  rs_Body :: body

record Server =
  ws_docker :: bool
  ws_WorkerName :: string
  ws_Version :: string
  ws_Port :: string
  ws_LatticeURL :: string

definition http_Error :: "gotext \<Rightarrow> nat \<Rightarrow> response" where
  "http_Error m code = \<lparr>rs_Status = code, rs_ContentType = ''text/plain; charset=utf-8'', rs_Body = BText m\<rparr>"

text \<open>A handler that panics is ended by the HTTP server, which closes the connection without an answer.\<close>

definition aborted :: response where
  "aborted = \<lparr>rs_Status = 0, rs_ContentType = [], rs_Body = BStream []\<rparr>"

text \<open>The address \<open>Start\<close> listens on: the local host unless the environment names another interface.\<close>

definition dashboard_addr :: "environ \<Rightarrow> Server \<Rightarrow> string" where
  "dashboard_addr env s = (let b = getEnv env ''DASHBOARD_BIND'' [] in (if b = [] then ''127.0.0.1'' else b) @ '':'' @ ws_Port s)"

definition metrics_json :: "SystemMetrics \<Rightarrow> json" where
  "metrics_json m = JObj
     [(''cpu_percent'', JNum (CPUPercent m)), (''cpu_cores'', JNum (of_int (CPUCores m))), (''load_avg_1'', JNum (LoadAvg1 m)),
      (''load_avg_5'', JNum (LoadAvg5 m)), (''load_avg_15'', JNum (LoadAvg15 m)), (''memory_used_mb'', JNum (MemoryUsedMB m)),
      (''memory_total_mb'', JNum (MemoryTotalMB m)), (''memory_free_mb'', JNum (MemoryFreeMB m)), (''swap_used_mb'', JNum (SwapUsedMB m)),
      (''swap_total_mb'', JNum (SwapTotalMB m)), (''disk_used_mb'', JNum (DiskUsedMB m)), (''disk_total_mb'', JNum (DiskTotalMB m)),
      (''container_count'', JNum (of_int (ContainerCount m))), (''container_running_count'', JNum (of_int (ContainerRunningCount m))),
      (''network_rx_bytes'', JNum (of_int (NetworkRxBytes m))), (''network_tx_bytes'', JNum (of_int (NetworkTxBytes m))),
      (''uptime_seconds'', JNum (UptimeSeconds m)), (''process_count'', JNum (of_int (ProcessCount m)))]"

text \<open>What a request asks beside the daemon: the system, the versions, the uptime and the page.\<close>

record facts =
  fa_host :: "string res"
  fa_os :: string
  fa_arch :: string
  fa_go :: string
  fa_dockerVersion :: "string res"
  fa_uptime :: int
  fa_html :: string

definition handleStatus :: "host \<Rightarrow> probes \<Rightarrow> facts \<Rightarrow> Server \<Rightarrow> cpuSample \<Rightarrow> (response \<times> cpuSample) prog" where
  "handleStatus E pr fa s prev = do {
     (m, prev') \<leftarrow> Collect_metrics E (pr_parseFloat pr) (pr_cores pr) (pr_statfs pr) prev;
     (let v = (if ws_docker s then (case fa_dockerVersion fa of Inr v \<Rightarrow> v | Inl e \<Rightarrow> []) else []) in
      ret (\<lparr>rs_Status = 200, rs_ContentType = ''application/json'', rs_Body = BJson (JObj
        [(''version'', JStr (ws_Version s)), (''worker_name'', JStr (ws_WorkerName s)), (''hostname'', JStr (hostname (fa_host fa))),
         (''os'', JStr (fa_os fa)), (''arch'', JStr (fa_arch fa)), (''go_version'', JStr (fa_go fa)), (''docker_version'', JStr v),
         (''uptime_seconds'', JNum (of_int (fa_uptime fa))), (''metrics'', metrics_json m)])\<rparr>, prev'))
   }"

definition containerInfo :: "container \<Rightarrow> json" where
  "containerInfo c = JObj [(''id'', JStr (take 12 (ct_ID c))),
     (''name'', JStr (case ct_Names c of [] \<Rightarrow> [] | n # _ \<Rightarrow> TrimPrefix n ''/'')),
     (''image'', JStr (ct_Image c)), (''state'', JStr (ct_State c)), (''status'', JStr (ct_Status c)),
     (''created'', JNum (of_int (ct_Created c)))]"

definition handleContainers :: "host \<Rightarrow> Server \<Rightarrow> response prog" where
  "handleContainers E s = (if \<not> ws_docker s then ret (http_Error (Fmt ''docker not available'' []) 503)
     else do {
       r \<leftarrow> ListContainers E [];
       (case r of
          Inl e \<Rightarrow> ret (http_Error e 500)
        | Inr cs \<Rightarrow>
            if list_ex (\<lambda>c. length (ct_ID c) < 12) cs then do { emit (EvPanic ''slice bounds out of range''); ret aborted }
            else ret \<lparr>rs_Status = 200, rs_ContentType = ''application/json'', rs_Body = BJson (JArr (map containerInfo cs))\<rparr>)
     })"

definition handleContainerLogs :: "host \<Rightarrow> Server \<Rightarrow> string \<Rightarrow> string \<Rightarrow> response prog" where
  "handleContainerLogs E s path tail = (if \<not> ws_docker s then ret (http_Error (Fmt ''docker not available'' []) 503)
     else (let parts = Split (TrimPrefix path ''/api/containers/'') (CHR ''/'') in
       if length parts < 2 \<or> parts ! 1 \<noteq> ''logs'' then ret (http_Error (Fmt ''404 page not found'' []) 404)
       else (let cid = parts ! 0; t = (if tail = [] then ''100'' else tail) in do {
         r \<leftarrow> request (\<lambda>h. ContainerLogs (svc E) h cid t) (\<lambda>r. EvExt (EvLogs cid t r));
         ret (case r of
            Inl e \<Rightarrow> http_Error e 500
          | Inr b \<Rightarrow> \<lparr>rs_Status = 200, rs_ContentType = ''text/plain; charset=utf-8'', rs_Body = BStream b\<rparr>)
       })))"

definition handleDashboard :: "facts \<Rightarrow> Server \<Rightarrow> response" where
  "handleDashboard fa s = \<lparr>rs_Status = 200, rs_ContentType = ''text/html; charset=utf-8'',
     rs_Body = BStream (Replace1 (fa_html fa) ''{{LATTICE_URL}}'' (ws_LatticeURL s))\<rparr>"

text \<open>The routes of \<open>Start\<close>: the longest pattern that matches the path.\<close>

definition serve :: "host \<Rightarrow> probes \<Rightarrow> facts \<Rightarrow> Server \<Rightarrow> string \<Rightarrow> string \<Rightarrow> cpuSample \<Rightarrow> (response \<times> cpuSample) prog" where
  "serve E pr fa s path tail prev =
     (if path = ''/api/status'' then handleStatus E pr fa s prev
      else if path = ''/api/containers'' then do { r \<leftarrow> handleContainers E s; ret (r, prev) }
      else if HasPrefix path ''/api/containers/'' then do { r \<leftarrow> handleContainerLogs E s path tail; ret (r, prev) }
      else ret (handleDashboard fa s, prev))"

section \<open>The dashboard only reads\<close>

text \<open>
  What a request for a path may ask: a listing of the containers, the figures of the system, and the log of the one
  container that the path names.
\<close>

definition dash_ok :: "string \<Rightarrow> event \<Rightarrow> bool" where
  "dash_ok path e = (case e of
     EvList n r \<Rightarrow> True
   | EvPanic m \<Rightarrow> True
   | EvExt (EvReadFile p r) \<Rightarrow> HasPrefix p ''/proc/''
   | EvExt (EvLogs cid t r) \<Rightarrow> CHR ''/'' \<notin> set cid \<and> HasPrefix path (''/api/containers/'' @ cid @ ''/logs'')
   | _ \<Rightarrow> False)"

lemma Split_two:
  assumes "Split s d = p # q # ps"
  shows "d \<notin> set p \<and> (\<exists>r. s = p @ d # q @ r)"
proof (cases "d \<in> set s")
  case True
  then obtain l t where s: "s = l @ d # t" "d \<notin> set l" by (meson split_list_first)
  then have l: "p = l" "Split t d = q # ps" using assms by (simp_all add: Split_at)
  have "\<exists>r. t = q @ r"
  proof (cases "d \<in> set t")
    case True
    then obtain l' t' where "t = l' @ d # t'" "d \<notin> set l'" by (meson split_list_first)
    then show ?thesis using l(2) by (simp add: Split_at)
  next
    case False
    then show ?thesis using l(2) by (simp add: Split_no)
  qed
  with s l(1) show ?thesis by auto
next
  case False
  then show ?thesis using assms by (simp add: Split_no)
qed

lemma logs_path:
  assumes "HasPrefix path ''/api/containers/''" "\<not> length (Split (TrimPrefix path ''/api/containers/'') (CHR ''/'')) < 2"
    "Split (TrimPrefix path ''/api/containers/'') (CHR ''/'') ! 1 = ''logs''"
  shows "CHR ''/'' \<notin> set (Split (TrimPrefix path ''/api/containers/'') (CHR ''/'') ! 0) \<and>
    HasPrefix path (''/api/containers/'' @ Split (TrimPrefix path ''/api/containers/'') (CHR ''/'') ! 0 @ ''/logs'')"
proof -
  let ?t = "TrimPrefix path ''/api/containers/''"
  obtain p q ps where s: "Split ?t (CHR ''/'') = p # q # ps"
    using assms(2) by (cases "Split ?t (CHR ''/'')"; cases "tl (Split ?t (CHR ''/''))") auto
  then have "q = ''logs''" using assms(3) by simp
  with Split_two [OF s] obtain r where r: "CHR ''/'' \<notin> set p" "?t = p @ ''/logs'' @ r" by auto
  have "path = ''/api/containers/'' @ ?t" using assms(1) by (metis HasPrefix_def TrimPrefix_def append_take_drop_id)
  then have "path = (''/api/containers/'' @ p @ ''/logs'') @ r" unfolding r(2) by simp
  then show ?thesis using r(1) s by (auto simp: HasPrefix_def)
qed

text \<open>
  The dashboard only reads. Whatever path a client asks for, with whatever parameters, the runner lists
  containers, reads figures under /proc, or reads the log of the one container whose id is the path segment before \<open>/logs\<close>; nothing is
  started, stopped, changed or removed, and no id with a slash in it is handed to the daemon.
\<close>

theorem dashboard_reads_only: "list_all (dash_ok path) (events (serve E pr fa s path tail prev) h)"
proof -
  have "emits (dash_ok path) (handleContainerLogs E s path tail)" if "HasPrefix path ''/api/containers/''"
    unfolding handleContainerLogs_def Let_def
    using logs_path [OF that] by (intro emits_intros) (auto simp: dash_ok_def)
  moreover have "emits (dash_ok path) (Collect_metrics E pf n st pv)" for pf n st pv
    unfolding Collect_metrics_def Let_def read_file_def by (intro emits_intros) (auto simp: dash_ok_def HasPrefix_def)
  moreover have "emits (dash_ok path) (handleContainers E s)"
    unfolding handleContainers_def ListContainers_def by (intro emits_intros) (simp_all add: dash_ok_def)
  ultimately have "emits (dash_ok path) (serve E pr fa s path tail prev)"
    unfolding serve_def handleStatus_def Let_def by (auto intro!: emits_intros)
  then show ?thesis by (simp add: emits_final)
qed

end
