(* ===== verification/Dispatcher.thy ===== *)
theory Dispatcher
  imports Db_Commands Db_Observer Deploy_Admission Exec_Sessions Host_Commands Container_Commands Startup
begin

text \<open>
  The switch of main.go that takes a message of the orchestrator to its handler, with the state the handlers share: the
  table of deployments, the exec sessions, the schedule, the time of the last reboot and the cache of volume sizes. A
  handler is run to its end; what handlers do to each other is the subject of the step relations of their components.
\<close>

section \<open>The state of the runner\<close>

text \<open>
  What is fixed when the runner has started: its configuration, what it tells about itself when it registers, and how it
  prints a time.
\<close>

record boot =
  bt_Config :: Config
  bt_Hostname :: string
  bt_OS :: string
  bt_Arch :: string
  bt_DockerVersion :: string
  bt_IP :: string
  bt_Version :: string
  bt_stamp :: "int \<Rightarrow> string"

text \<open>\<open>rn_nextReader\<close> numbers the readers of exec sessions, \<open>rn_cancelled\<close> holds those whose context was cancelled.\<close>

record runner =
  rn_states :: dstates
  rn_sessions :: exectable
  rn_nextReader :: nat
  rn_cancelled :: "nat list"
  rn_schedule :: Scheduler
  rn_lastReboot :: "int option"
  rn_sizes :: sizecache

definition Background :: cmdctx where
  "Background = \<lparr>cx_Command = None, cx_RequestID = [], cx_TraceID = [], cx_JobID = []\<rparr>"

section \<open>Handlers that change the state\<close>

text \<open>The callbacks of the executor, each at the time of its report, applied to the table.\<close>

fun progress_run :: "host \<Rightarrow> event list \<Rightarrow> event list \<Rightarrow> dstates \<Rightarrow> dstates" where
  "progress_run E h [] states = states"
| "progress_run E h (e # es) states = progress_run E (h @ [e]) es (case e of
     EvProgress dep st m p \<Rightarrow> AList.update dep (note_progress (UnixNano E (h @ [e]) div 1000000000) dep st m p states) states
   | _ \<Rightarrow> states)"

definition handle_deploy :: "host \<Rightarrow> nat list \<Rightarrow> cmdctx \<Rightarrow> Envelope \<Rightarrow> dstates \<Rightarrow> dstates prog" where
  "handle_deploy E order ctx env states = do {
     emit (EvExt (EvAcquire ''deploy''));
     now \<leftarrow> observe (UnixNano E);
     (let (v, t) = admit order ctx env (now div 1000000000) states in do {
        h \<leftarrow> observe (\<lambda>h. h);
        r \<leftarrow> deploy_body E ctx env v;
        h' \<leftarrow> observe (\<lambda>h. h);
        emit (EvExt EvRelease);
        ret (case v of
          Admitted spec \<Rightarrow> finish_run (UnixNano E h' div 1000000000) (d_DeploymentID spec) r
            (progress_run E h (drop (length h) h') t)
        | _ \<Rightarrow> t)
      })
   }"

definition handle_exec_start :: "host \<Rightarrow> cmdctx \<Rightarrow> Envelope \<Rightarrow> runner \<Rightarrow> runner prog" where
  "handle_exec_start E ctx env r = do {
     x \<leftarrow> exec_open E ctx env;
     now \<leftarrow> observe (UnixNano E);
     ret (case x of
       None \<Rightarrow> r
     | Some i \<Rightarrow> r\<lparr>rn_sessions := AList.update (e_CommandID env)
           \<lparr>xs_execID = i, xs_reader = rn_nextReader r, xs_createdAt = now div 1000000000\<rparr> (rn_sessions r),
         rn_nextReader := Suc (rn_nextReader r)\<rparr>)
   }"

definition handle_exec_close :: "Envelope \<Rightarrow> runner \<Rightarrow> runner" where
  "handle_exec_close env r = (case exec_close env (rn_sessions r) of
     None \<Rightarrow> r
   | Some k \<Rightarrow> r\<lparr>rn_cancelled := k # rn_cancelled r\<rparr>)"

definition stateful :: "host \<Rightarrow> boot \<Rightarrow> nat list \<Rightarrow> cmdctx \<Rightarrow> Envelope \<Rightarrow> runner \<Rightarrow> (string \<times> runner prog) list" where
  "stateful E B order ctx env r =
    [(''deploy'', do { t \<leftarrow> handle_deploy E order ctx env (rn_states r); ret (r\<lparr>rn_states := t\<rparr>) }),
     (''exec_start'', handle_exec_start E ctx env r),
     (''exec_close'', ret (handle_exec_close env r)),
     (''reboot_os'', do {
        now \<leftarrow> observe (UnixNano E);
        (let (p, l) = handle_reboot_os E ctx (now div 1000000000) (rn_lastReboot r) in do { p; ret (r\<lparr>rn_lastReboot := l\<rparr>) })
      }),
     (''db_sync_request'', do { c \<leftarrow> handle_db_sync_request E ctx (rn_sizes r); ret (r\<lparr>rn_sizes := c\<rparr>) }),
     (''db_update_schedule'',
        let (p, s) = handle_db_update_schedule ctx env (rn_schedule r) in do { p; ret (r\<lparr>rn_schedule := s\<rparr>) })]"

section \<open>The switch\<close>

definition stateless :: "host \<Rightarrow> boot \<Rightarrow> cmdctx \<Rightarrow> Envelope \<Rightarrow> runner \<Rightarrow> (string \<times> unit prog) list" where
  "stateless E B ctx env r =
    [(''connected'', handle_connected ctx (bt_Config B) (bt_Hostname B) (bt_OS B) (bt_Arch B) (bt_DockerVersion B) (bt_IP B) (bt_Version B)),
     (''deployment_ping'', deployment_ping (bt_stamp B) ctx env (rn_states r)),
     (''stop'', handle_stop E ctx env), (''start'', handle_start E ctx env), (''kill'', handle_kill E ctx env),
     (''pause'', handle_pause E ctx env), (''unpause'', handle_unpause E ctx env), (''restart'', handle_restart E ctx env),
     (''remove'', handle_remove E ctx env), (''recreate'', handle_recreate E ctx env), (''pull_image'', handle_pull_image E ctx env),
     (''upgrade_runner'', handle_upgrade_runner E ctx (OrchestratorURL (bt_Config B)) env),
     (''stop_all'', handle_stop_all E ctx), (''start_all'', handle_start_all E ctx),
     (''list_volumes'', handle_list_volumes E ctx env), (''create_volume'', handle_create_volume E ctx env),
     (''remove_volume'', handle_remove_volume E ctx env), (''list_networks'', handle_list_networks E ctx env),
     (''create_network'', handle_create_network E ctx env), (''remove_network'', handle_remove_network E ctx env),
     (''force_remove'', handle_force_remove E ctx env),
     (''exec_input'', exec_input E env (rn_sessions r)), (''exec_resize'', exec_resize E env (rn_sessions r)),
     (''db_create'', handle_db_create E ctx env), (''db_start'', handle_db_start E ctx env), (''db_stop'', handle_db_stop E ctx env),
     (''db_restart'', handle_db_restart E ctx env), (''db_remove'', handle_db_remove E ctx env),
     (''db_snapshot'', handle_db_snapshot E ctx env), (''db_restore'', handle_db_restore E ctx env),
     (''backup_dest_test'', handle_backup_dest_test E ctx env), (''db_mirror_snapshot'', handle_db_mirror_snapshot E ctx env),
     (''db_delete_snapshot_file'', handle_db_delete_snapshot_file E ctx env)]"

definition dispatch :: "host \<Rightarrow> boot \<Rightarrow> nat list \<Rightarrow> (string \<Rightarrow> bool) \<Rightarrow> string \<Rightarrow> Envelope \<Rightarrow> runner \<Rightarrow> runner prog" where
  "dispatch E B order valid fresh env r = (let ctx = dispatchContext valid fresh Background env in
     case map_of (stateful E B order ctx env r) (e_Type env) of
       Some m \<Rightarrow> m
     | None \<Rightarrow> (case map_of (stateless E B ctx env r) (e_Type env) of
         Some m \<Rightarrow> do { m; ret r }
       | None \<Rightarrow> ret r))"

text \<open>The commands whose handler holds a slot of the pool, as the source has them.\<close>

definition pool_types :: "string list" where
  "pool_types = [''deploy'', ''stop'', ''start'', ''kill'', ''pause'', ''unpause'', ''restart'', ''remove'', ''recreate'',
     ''pull_image'', ''force_remove'', ''db_sync_request'', ''db_create'', ''db_start'', ''db_stop'', ''db_restart'', ''db_remove'',
     ''db_snapshot'', ''db_restore'', ''db_update_schedule'', ''backup_dest_test'', ''db_mirror_snapshot'', ''db_delete_snapshot_file'']"

section \<open>What a handler sends\<close>

text \<open>
  An event of a handler between the slot it takes and the slot it gives back: a message carries the ids of the context,
  and nothing takes or releases a slot.
\<close>

definition own :: "cmdctx \<Rightarrow> event \<Rightarrow> bool" where
  "own ctx e = (case e of
     EvSend b m \<Rightarrow> (case cx_Command ctx of
       Some c \<Rightarrow> om_CommandID m = c \<and> om_RequestID m = cx_RequestID ctx \<and> om_TraceID m = cx_TraceID ctx
     | None \<Rightarrow> om_CommandID m = [] \<and> om_RequestID m = [] \<and> om_TraceID m = [])
   | EvExt x \<Rightarrow> (case x of EvAcquire t \<Rightarrow> False | EvRelease \<Rightarrow> False | _ \<Rightarrow> True)
   | _ \<Rightarrow> True)"

lemma own_msg [simp]: "own ctx (EvSend b (stampIDs ctx (msg t p)))"
  by (simp add: own_def stampIDs_def msg_def split: option.splits)

lemma own_simps [simp]:
  "own ctx (EvPull i a q)" "own ctx (EvPullRead q)" "own ctx (EvCreate n c hc nc s)" "own ctx (EvStart d q)" "own ctx (EvStop d z q)"
  "own ctx (EvKill d q)" "own ctx (EvPause d q)" "own ctx (EvUnpause d q)" "own ctx (EvRestart d z q)" "own ctx (EvRemove d f q)"
  "own ctx (EvRename d n q)" "own ctx (EvInspect d j)" "own ctx (EvList n l)" "own ctx (EvListLabels ls l)"
  "own ctx (EvNetConnect n d al q)" "own ctx (EvNetCreate n d q)" "own ctx (EvNetRemove n q)" "own ctx (EvVolCreate n d q)"
  "own ctx (EvVolInspect n q)" "own ctx (EvVolRemove n f q)" "own ctx (EvSleep k)" "own ctx (EvProgress dep st m p)"
  "own ctx (EvDeployLog n st)" "own ctx (EvTryLock n b)" "own ctx (EvUnlock n)" "own ctx (EvPanic n)"
  "own ctx (EvExt (EvVolList n vl))" "own ctx (EvExt (EvNetList nl))" "own ctx (EvExt (EvLogs n st s))" "own ctx (EvExt (EvVolMount n s))"
  "own ctx (EvExt (EvWalk n w))" "own ctx (EvExt (EvRun ag ev ro))" "own ctx (EvExt (EvMkdirTemp n s))" "own ctx (EvExt (EvRemoveAll n))"
  "own ctx (EvExt (EvReadFile n s))" "own ctx (EvExt (EvWriteFile n b' q))" "own ctx (EvExt (EvCreateFile n q))"
  "own ctx (EvExt (EvRemoveFile n))" "own ctx (EvExt (EvChmod n q))" "own ctx (EvExt (EvStat n zs))" "own ctx (EvExt (EvProbePort z q))"
  "own ctx (EvExt (EvDbCreateBegin n))" "own ctx (EvExt (EvDbRemoveBegin n f))" "own ctx (EvExt (EvDbFinish n))" "own ctx (EvExt (EvGDrive q))"
  "own ctx (EvExt (EvUploadStream ds n b' zs))" "own ctx (EvExt (EvCloud cl))" "own ctx (EvExt (EvExecCreate n ag ag' s))"
  "own ctx (EvExt (EvExecAttach n q))" "own ctx (EvExt (EvExecOutput n b' st))" "own ctx (EvExt (EvExecInput n b' zq))"
  "own ctx (EvExt (EvExecInspect n zs))" "own ctx (EvExt (EvExecResize n k k' q))" "own ctx (EvExt (EvExecClose n))"
  by (simp_all add: own_def)

lemma emits_send [emits_intros]:
  "emits (own ctx) (wsSend ctx (msg t p))" "emits (own ctx) (wsSendReliable ctx (msg t p))"
  by (simp_all add: wsSend_def wsSendReliable_def emits_emit)

lemma plain_own: "plain_request e \<Longrightarrow> own ctx e"
  by (auto simp: plain_request_def split: event.splits ext.splits)

lemma inner_own: "inner e \<Longrightarrow> own ctx e"
  by (cases e) (auto simp: inner_def)

lemma gate_own: "gate_event c e \<Longrightarrow> own ctx e"
  by (auto simp: gate_event_def)

lemmas inner_owns = inner_calls [THEN emits_mono, OF inner_own] inner_rolling [THEN emits_mono, OF inner_own]
  inner_rollback [THEN emits_mono, OF inner_own]

lemma own_calls:
  "emits (own ctx) (sendLifecycleLog ctx n ev t)" "emits (own ctx) (sendLifecycleWarn ctx n ev t)"
  "emits (own ctx) (sendDbReply ctx env ty p)" "emits (own ctx) (FindContainerByName E n)" "emits (own ctx) (FindCanonicalContainer E n)"
  "emits (own ctx) (PullImage E im au)" "emits (own ctx) (LockContainer E n)" "emits (own ctx) (unlock u)"
  "emits (own ctx) (NewDestination E n cfg)" "emits (own ctx) (dest_Upload E d l r)" "emits (own ctx) (dest_Download E d r l)"
  "emits (own ctx) (dest_Delete E d r)" "emits (own ctx) (dest_Test E d)" "emits (own ctx) (GracefulRecreate E n n')"
  "emits (own ctx) (CreateDatabaseContainer E sp)" "emits (own ctx) (probe_port E z)"
  "emits (own ctx) (ExecDatabaseRestore E n en dn us pw inp)" "emits (own ctx) (streamSnapshot E (ExecDatabaseDump E n en dn us pw) d k)"
proof -
  have smb: "emits (own ctx) (smbclient E a b c d e)" for a b c d e
    unfolding smbclient_def by (intro emits_intros) simp_all
  show "emits (own ctx) (sendLifecycleLog ctx n ev t)" "emits (own ctx) (sendLifecycleWarn ctx n ev t)"
    "emits (own ctx) (sendDbReply ctx env ty p)"
    by (simp_all add: sendLifecycleLog_def sendLifecycleWarn_def sendDbReply_def emits_send)
  show find: "emits (own ctx) (FindContainerByName E n)" for n by (rule emits_mono [OF inner_calls(8) inner_own])
  show "emits (own ctx) (FindCanonicalContainer E n)"
    unfolding FindCanonicalContainer_def by (intro emits_intros find inner_owns(5)) (auto intro!: emits_intros split: list.splits)
  show "emits (own ctx) (PullImage E im au)" by (rule emits_mono [OF inner_calls(2) inner_own])
  show "emits (own ctx) (LockContainer E n)" by (rule emits_LockContainer) simp_all
  show "emits (own ctx) (unlock u)" by (auto simp: unlock_def intro!: emits_intros split: option.splits)
  show "emits (own ctx) (NewDestination E n cfg)"
    unfolding NewDestination_def newGDriveDestination_def Let_def by (intro emits_intros) simp_all
  show up: "emits (own ctx) (dest_Upload E d l r)" "emits (own ctx) (dest_Download E d r l)" "emits (own ctx) (dest_Delete E d r)"
    "emits (own ctx) (dest_Test E d)" for d l r
    by (cases d; auto simp: dest_Upload_def dest_Download_def dest_Delete_def dest_Test_def
        intro!: emits_intros smb emits_cloud [THEN emits_mono, OF plain_own] split: option.splits)+
  show "emits (own ctx) (probe_port E z)" unfolding probe_port_def by (auto intro!: emits_intros)
  show "emits (own ctx) (CreateDatabaseContainer E sp)"
    unfolding CreateDatabaseContainer_def PullImage_def CreateVolume_def create_container_def start_database_def
      cleanupOnError_def StartContainer_def RemoveContainer_def
    by (intro emits_intros) simp_all
  show "emits (own ctx) (ExecDatabaseRestore E n en dn us pw inp)"
    unfolding ExecDatabaseRestore_def exec_start_def exec_output_def exec_inspect_def by (intro emits_intros) simp_all
  show "emits (own ctx) (streamSnapshot E (ExecDatabaseDump E n en dn us pw) d k)"
    unfolding streamSnapshot_def ExecDatabaseDump_def exec_start_def dump_stream_def exec_output_def exec_inspect_def
      stageAndUpload_def compressed_def UploadStream_def Let_def
    by (intro emits_intros up) simp_all
  have gate: "emits (own ctx) (health_gate E i k)" for i k by (rule emits_mono [OF emits_health_gate gate_own])
  have final: "emits (own ctx) (recreate_final E i o' c hc nc t' b)" for i o' c hc nc t' b
    unfolding recreate_final_def restoreOld_def removeOld_def create_container_def client_ops
    by (auto intro!: emits_intros gate split: gate.splits)
  have swap: "emits (own ctx) (recreate_swap E i o' c hc nc t')" for i o' c hc nc t'
    unfolding recreate_swap_def retire_old_def removeOld_def client_ops by (auto intro!: emits_intros final)
  have left: "emits (own ctx) (drop_leftover E i)" for i
    unfolding drop_leftover_def client_ops by (auto intro!: emits_intros)
  show "emits (own ctx) (GracefulRecreate E n n')"
    unfolding GracefulRecreate_def InspectContainer_def create_container_def StartContainer_def RemoveContainer_def Let_def
    by (auto intro!: emits_intros gate swap left split: gate.splits option.splits)
qed

section \<open>Every handler keeps to its command\<close>

text \<open>The events of a command that holds a slot, and of one that does not.\<close>

definition framed :: "cmdctx \<Rightarrow> string \<Rightarrow> event list \<Rightarrow> bool" where
  "framed ctx t es = (if t \<in> set pool_types
     then \<exists>fs. es = EvExt (EvAcquire t) # fs @ [EvExt EvRelease] \<and> list_all (own ctx) fs
     else list_all (own ctx) es)"

lemma does_framed:
  "emits (own ctx) m \<Longrightarrow> t \<in> set pool_types \<Longrightarrow>
   does (do { emit (EvExt (EvAcquire t)); x \<leftarrow> m; emit (EvExt EvRelease); ret (f x) }) (\<lambda>_. framed ctx t)"
  by (auto simp: framed_def intro!: does_intros does_bind_emits)

lemma does_pooled: "emits (own ctx) m \<Longrightarrow> t \<in> set pool_types \<Longrightarrow> does (pooled t m) (\<lambda>_. framed ctx t)"
  by (auto simp: framed_def pooled_def intro!: does_intros does_bind_emits)

lemma does_free: "emits (own ctx) m \<Longrightarrow> t \<notin> set pool_types \<Longrightarrow> does m (\<lambda>_. framed ctx t)"
  unfolding does_emits by (erule does_mono) (simp add: framed_def)

lemmas answers = status_msg_def send_error_def send_failed_def send_success_def worker_status_def action_status_def list_reply_def
  volnet_reply_def db_status_def db_failed_def snap_reply_def snap_failed_def mirror_reply_def mirror_failed_def
  delete_reply_def test_reply_def exec_output_msg_def upgrade_failed_def

lemma with_container_own:
  "(\<And>n. emits (own ctx) (body n)) \<Longrightarrow> emits (own ctx) (with_container E ctx env a body)"
  by (auto simp: with_container_def answers Let_def intro!: emits_intros own_calls)

lemma lookup_container_own:
  "(\<And>n. emits (own ctx) (body n)) \<Longrightarrow> emits (own ctx) (lookup_container E ctx name a body)"
  by (auto simp: lookup_container_def answers intro!: emits_intros own_calls)

lemma simple_command_framed:
  "(\<And>c. emits (own ctx) (req E c)) \<Longrightarrow> t \<in> set pool_types \<Longrightarrow> does (simple_command E ctx env t busy req failed) (\<lambda>_. framed ctx t)"
  unfolding simple_command_def answers
  by (intro does_pooled with_container_own lookup_container_own emits_intros own_calls) simp_all

lemma container_commands_framed:
  "does (handle_stop E ctx env) (\<lambda>_. framed ctx ''stop'')" "does (handle_start E ctx env) (\<lambda>_. framed ctx ''start'')"
  "does (handle_kill E ctx env) (\<lambda>_. framed ctx ''kill'')" "does (handle_pause E ctx env) (\<lambda>_. framed ctx ''pause'')"
  "does (handle_unpause E ctx env) (\<lambda>_. framed ctx ''unpause'')" "does (handle_restart E ctx env) (\<lambda>_. framed ctx ''restart'')"
  unfolding handle_stop_def handle_start_def handle_kill_def handle_pause_def handle_unpause_def handle_restart_def
  by (rule simple_command_framed; simp add: client_ops emits_request pool_types_def)+

lemma removals_framed:
  "does (handle_remove E ctx env) (\<lambda>_. framed ctx ''remove'')" "does (handle_force_remove E ctx env) (\<lambda>_. framed ctx ''force_remove'')"
  "does (handle_recreate E ctx env) (\<lambda>_. framed ctx ''recreate'')" "does (handle_pull_image E ctx env) (\<lambda>_. framed ctx ''pull_image'')"
proof -
  show "does (handle_remove E ctx env) (\<lambda>_. framed ctx ''remove'')"
    unfolding handle_remove_def answers StopContainer_def RemoveContainer_def
    by (intro does_pooled with_container_own lookup_container_own emits_intros own_calls) (simp_all add: pool_types_def)
  show "does (handle_force_remove E ctx env) (\<lambda>_. framed ctx ''force_remove'')"
    unfolding handle_force_remove_def answers Let_def KillContainer_def RemoveContainer_def StopContainer_def
    by (intro does_pooled emits_intros own_calls) (simp_all add: pool_types_def)
  show "does (handle_recreate E ctx env) (\<lambda>_. framed ctx ''recreate'')"
    unfolding handle_recreate_def answers Let_def recreate_pull_def recreate_find_def
    by (intro does_pooled with_container_own emits_intros own_calls) (simp_all add: pool_types_def)
  show "does (handle_pull_image E ctx env) (\<lambda>_. framed ctx ''pull_image'')"
    unfolding handle_pull_image_def answers Let_def
    by (intro does_pooled emits_intros own_calls) (simp_all add: pool_types_def)
qed

lemma fleet_framed:
  "does (handle_stop_all E ctx) (\<lambda>_. framed ctx ''stop_all'')" "does (handle_start_all E ctx) (\<lambda>_. framed ctx ''start_all'')"
proof -
  have loop: "emits (own ctx) (all_loop say req cs n)"
    if "\<And>n k. emits (own ctx) (say n k)" "\<And>c. emits (own ctx) (req c)" for say req cs n
    using that by (induction say req cs n rule: all_loop.induct) (auto intro!: emits_intros)
  show "does (handle_stop_all E ctx) (\<lambda>_. framed ctx ''stop_all'')"
    unfolding handle_stop_all_def stop_each_def answers ListContainers_def StopContainer_def Let_def
    by (intro does_free emits_intros loop own_calls) (simp_all add: pool_types_def)
  show "does (handle_start_all E ctx) (\<lambda>_. framed ctx ''start_all'')"
    unfolding handle_start_all_def answers ListContainers_def StartContainer_def Let_def
    by (intro does_free emits_intros loop own_calls) (simp_all add: pool_types_def)
qed

lemma resources_framed:
  "does (handle_list_volumes E ctx env) (\<lambda>_. framed ctx ''list_volumes'')" "does (handle_list_networks E ctx env) (\<lambda>_. framed ctx ''list_networks'')"
  "does (handle_create_volume E ctx env) (\<lambda>_. framed ctx ''create_volume'')" "does (handle_remove_volume E ctx env) (\<lambda>_. framed ctx ''remove_volume'')"
  "does (handle_create_network E ctx env) (\<lambda>_. framed ctx ''create_network'')" "does (handle_remove_network E ctx env) (\<lambda>_. framed ctx ''remove_network'')"
  unfolding handle_list_volumes_def handle_list_networks_def handle_create_volume_def handle_remove_volume_def handle_create_network_def
    handle_remove_network_def answers ListVolumes_def ListNetworks_def CreateVolume_def RemoveVolume_def CreateNetwork_def RemoveNetwork_def Let_def
  by (intro does_free emits_intros own_calls; simp add: pool_types_def)+

lemma host_framed:
  "does (handle_upgrade_runner E ctx url env) (\<lambda>_. framed ctx ''upgrade_runner'')" "emits (own ctx) (fst (handle_reboot_os E ctx now l))"
  unfolding handle_upgrade_runner_def handle_reboot_os_def reboot_body_def fetch_and_verify_def run_verified_def run_program_def answers Let_def split_def fst_conv
  by (intro does_free emits_intros own_calls; simp add: pool_types_def)+

lemma exec_own:
  "emits (own ctx) (exec_open E ctx env)" "emits (own ctx) (exec_input E env ss)" "emits (own ctx) (exec_resize E env ss)"
  unfolding exec_open_def exec_input_def exec_resize_def answers ContainerExecCreate_def ContainerExecAttach_def ContainerExecResize_def Let_def
  by (intro emits_intros own_calls; simp)+

lemma named_database_own: "(\<And>n. emits (own ctx) (body n)) \<Longrightarrow> emits (own ctx) (named_database ctx env a body)"
  by (auto simp: named_database_def Let_def intro!: emits_intros own_calls)

lemma db_lookup_own:
  "emits (own ctx) absent \<Longrightarrow> (\<And>c. emits (own ctx) (body c)) \<Longrightarrow> emits (own ctx) (db_lookup E ctx env n a absent body)"
  unfolding db_lookup_def answers by (intro emits_intros own_calls) simp_all

lemma snap_checked_own: "(\<And>n. emits (own ctx) (body n)) \<Longrightarrow> emits (own ctx) (snap_checked ctx env t i sid busy body)"
  unfolding snap_checked_def answers by (intro emits_intros own_calls) simp_all

lemmas db_owns = emits_intros own_calls named_database_own db_lookup_own snap_checked_own

lemma db_simple_framed:
  "(\<And>c. emits (own ctx) (req c)) \<Longrightarrow> t \<in> set pool_types \<Longrightarrow> does (db_simple E ctx env t busy req failed) (\<lambda>_. framed ctx t)"
  unfolding db_simple_def answers by (intro does_pooled db_owns) simp_all

lemma databases_framed:
  "does (handle_db_start E ctx env) (\<lambda>_. framed ctx ''db_start'')" "does (handle_db_stop E ctx env) (\<lambda>_. framed ctx ''db_stop'')"
  "does (handle_db_restart E ctx env) (\<lambda>_. framed ctx ''db_restart'')"
  unfolding handle_db_start_def handle_db_stop_def handle_db_restart_def
  by (rule db_simple_framed; simp add: client_ops emits_request pool_types_def)+

lemma db_life_framed:
  "does (handle_db_create E ctx env) (\<lambda>_. framed ctx ''db_create'')" "does (handle_db_remove E ctx env) (\<lambda>_. framed ctx ''db_remove'')"
  unfolding handle_db_create_def create_database_def handle_db_remove_def remove_database_def purge_volume_def answers
    StopContainer_def RemoveContainer_def RemoveVolume_def Let_def
  by (intro does_pooled db_owns; simp add: pool_types_def)+

lemma snapshots_framed:
  "does (handle_db_snapshot E ctx env) (\<lambda>_. framed ctx ''db_snapshot'')" "does (handle_db_restore E ctx env) (\<lambda>_. framed ctx ''db_restore'')"
  unfolding handle_db_snapshot_def take_snapshot_def handle_db_restore_def fetch_and_restore_def run_restore_def answers Let_def split_def
  by (intro does_pooled db_owns; simp add: pool_types_def)+

lemma destinations_framed:
  "does (handle_backup_dest_test E ctx env) (\<lambda>_. framed ctx ''backup_dest_test'')"
  "does (handle_db_delete_snapshot_file E ctx env) (\<lambda>_. framed ctx ''db_delete_snapshot_file'')"
  "does (handle_db_mirror_snapshot E ctx env) (\<lambda>_. framed ctx ''db_mirror_snapshot'')"
  unfolding handle_backup_dest_test_def handle_db_delete_snapshot_file_def handle_db_mirror_snapshot_def mirror_copy_def dest_of_def answers Let_def split_def
  by (intro does_pooled db_owns; simp add: pool_types_def)+

lemma sync_own: "emits (own ctx) (sendDatabaseSync E ctx cache)"
proof -
  have size: "emits (own ctx) (cachedVolumeSize E i c)" for i c
    unfolding cachedVolumeSize_def VolumeSize_def DatabaseVolumeName_def InspectContainer_def Let_def
    by (intro emits_intros) simp_all
  have "emits (own ctx) (sync_entry E c m)" for c m
    unfolding sync_entry_def detectFatalInitError_def by (intro emits_intros size) simp_all
  then have "emits (own ctx) (sync_entries E cs m)" for cs m
    by (induction cs arbitrary: m) (auto intro!: emits_intros)
  moreover have "emits (own ctx) (ListDatabaseContainers E)" "emits (own ctx) (ListDatabaseVolumes E)"
    unfolding ListDatabaseContainers_def observe_one_def ListDatabaseVolumes_def InspectContainer_def by (intro emits_intros; simp)+
  ultimately show ?thesis unfolding sendDatabaseSync_def by (intro emits_intros) simp_all
qed

lemma Execute_own: "emits (own ctx) (Execute E spec)"
  unfolding Execute_def by (intro emits_intros emits_execute [OF inner_own]) simp_all

lemma deploy_body_own:
  assumes "cx_Command ctx = Some (e_CommandID env)"
  shows "emits (own ctx) (deploy_body E ctx env v)"
proof -
  have "own ctx (EvSend b (stampIDs ctx (failed_progress env d m)))" for b d m
    using assms by (simp add: own_def stampIDs_def failed_progress_def)
  then have "emits (own ctx) (wsSend ctx (failed_progress env d m))" for d m
    unfolding wsSend_def by (rule emits_emit)
  then show ?thesis unfolding deploy_body_def rejectDeployConflict_def log_failed Let_def
    by (cases v) (auto intro!: emits_intros Execute_own)
qed

lemma handle_deploy_framed:
  assumes "cx_Command ctx = Some (e_CommandID env)"
  shows "does (handle_deploy E order ctx env states) (\<lambda>_. framed ctx ''deploy'')"
  unfolding handle_deploy_def split_def Let_def
  by (intro does_bind_emit does_bind_observe does_bind_emits [OF deploy_body_own [OF assms]] does_ret)
    (auto simp: framed_def pool_types_def)

lemma then_ret: "does m (\<lambda>_. F) \<Longrightarrow> does (State_Monad.bind m (\<lambda>x. ret (f x))) (\<lambda>_. F)"
  by (erule does_bind) (auto intro!: does_ret)

lemma exec_start_framed: "does (handle_exec_start E ctx env r) (\<lambda>_. framed ctx ''exec_start'')"
  unfolding handle_exec_start_def by (intro does_free emits_intros exec_own) (simp add: pool_types_def)

lemma exec_io_framed:
  "does (exec_input E env ss) (\<lambda>_. framed ctx ''exec_input'')" "does (exec_resize E env ss) (\<lambda>_. framed ctx ''exec_resize'')"
  "does (ret x) (\<lambda>_. framed ctx ''exec_close'')"
  by (intro does_free emits_intros exec_own; simp add: pool_types_def)+

lemma reboot_framed:
  "does (do { now \<leftarrow> observe (UnixNano E); (let (p, l) = handle_reboot_os E ctx (f now) l0 in do { p; ret (g l) }) }) (\<lambda>_. framed ctx ''reboot_os'')"
  unfolding split_def Let_def by (intro does_free emits_intros host_framed) (simp add: pool_types_def)

lemma db_sync_framed: "does (handle_db_sync_request E ctx cache) (\<lambda>_. framed ctx ''db_sync_request'')"
  unfolding handle_db_sync_request_def by (rule does_framed [OF sync_own]) (simp add: pool_types_def)

lemma schedule_framed: "does (fst (handle_db_update_schedule ctx env s)) (\<lambda>_. framed ctx ''db_update_schedule'')"
  by (auto simp: handle_db_update_schedule_def Let_def pool_types_def intro!: does_pooled own_calls)

lemma connected_framed:
  "does (handle_connected ctx cfg hn os ar dv ip v) (\<lambda>_. framed ctx ''connected'')"
  "does (deployment_ping stamp ctx env states) (\<lambda>_. framed ctx ''deployment_ping'')"
  unfolding handle_connected_def deployment_ping_def Let_def
  by (intro does_free emits_send; simp add: pool_types_def)+

lemma stateful_framed:
  assumes "e_Type env = ''deploy'' \<Longrightarrow> cx_Command ctx = Some (e_CommandID env)"
    "map_of (stateful E B order ctx env r) (e_Type env) = Some m"
  shows "does m (\<lambda>_. framed ctx (e_Type env))"
  using assms unfolding stateful_def
  by (auto simp: split_def Let_def split: if_splits
      intro: then_ret handle_deploy_framed exec_start_framed exec_io_framed db_sync_framed schedule_framed
        reboot_framed [unfolded split_def Let_def])

lemma stateless_framed:
  "map_of (stateless E B ctx env r) (e_Type env) = Some m \<Longrightarrow> does m (\<lambda>_. framed ctx (e_Type env))"
  unfolding stateless_def
  by (auto split: if_splits intro: connected_framed container_commands_framed removals_framed host_framed fleet_framed resources_framed
      exec_io_framed databases_framed db_life_framed snapshots_framed destinations_framed)

lemma dispatch_does:
  "does (dispatch E B order valid fresh env r) (\<lambda>_. framed (dispatchContext valid fresh Background env) (e_Type env))"
proof -
  let ?c = "dispatchContext valid fresh Background env"
  have c: "e_Type env = ''deploy'' \<Longrightarrow> cx_Command ?c = Some (e_CommandID env)"
    by (simp add: dispatchContext_def commandContext_def Let_def)
  have none: "framed ?c (e_Type env) []"
    if "map_of (stateful E B order ?c env r) (e_Type env) = None" "map_of (stateless E B ?c env r) (e_Type env) = None"
    using that by (auto simp: framed_def pool_types_def stateful_def stateless_def split: if_splits)
  show ?thesis unfolding dispatch_def Let_def
    by (auto split: option.split intro!: stateful_framed [OF c] then_ret stateless_framed does_ret none)
qed

definition idle_boot :: boot where
  "idle_boot = \<lparr>bt_Config = \<lparr>OrchestratorURL = [], WorkerToken = [], WorkerName = [], HeartbeatInterval = 15, ReconnectInterval = 5,
     DashboardPort = [], LatticeURL = []\<rparr>, bt_Hostname = [], bt_OS = [], bt_Arch = [], bt_DockerVersion = [], bt_IP = [], bt_Version = [],
     bt_stamp = \<lambda>_. []\<rparr>"

definition idle_runner :: runner where
  "idle_runner = \<lparr>rn_states = [], rn_sessions = [], rn_nextReader = 0, rn_cancelled = [], rn_schedule = New, rn_lastReboot = None, rn_sizes = []\<rparr>"

definition ping :: Envelope where
  "ping = \<lparr>e_Type = ''deployment_ping'', e_CommandID = ''c-7'', e_RequestID = ''r-1'', e_TraceID = [], e_Payload = []\<rparr>"

lemma ping_sends:
  "events (dispatch calm_host idle_boot [] (\<lambda>_. True) ''j'' ping idle_runner) [] =
   [EvSend False (stampIDs (commandContext (\<lambda>_. True) ''j'' Background ping) (msg ''deployment_status''
      [(''deployment_id'', JNum (of_int (go_trunc (pnum [] ''deployment_id'')))), (''status'', JStr ''idle''), (''in_progress'', JBool False),
       (''message'', JStr ''no active deployment state for this id'')]))]"
  by (simp add: dispatch_def stateful_def stateless_def ping_def dispatchContext_def deployment_ping_def idle_runner_def idle_boot_def
      wsSend_def run_simps Let_def)

text \<open>The events by which a handler takes its slot of the pool and gives it back.\<close>

definition is_slot :: "event \<Rightarrow> bool" where
  "is_slot e = (case e of EvExt x \<Rightarrow> (case x of EvAcquire t \<Rightarrow> True | EvRelease \<Rightarrow> True | _ \<Rightarrow> False) | _ \<Rightarrow> False)"

lemma own_no_slot: "list_all (own ctx) es \<Longrightarrow> filter is_slot es = []"
proof -
  have "\<not> is_slot e" if "own ctx e" for e
    using that by (cases e; simp add: own_def is_slot_def split: ext.splits)
  then show "list_all (own ctx) es \<Longrightarrow> ?thesis" by (simp add: list_all_iff filter_empty_conv)
qed

text \<open>
  C4: Every command keeps to its own slot and its own ids, whatever its handler meets, on every branch and with every error. A
  command whose handler is limited takes one slot of the pool before it does anything else and gives it back after
  everything else, the other commands take none. Every message sent between carries the command's id, and the
  request and trace ids taken from it, so that it can be matched to the command. (The progress reports of a deployment are
  sent by the callback of the executor and are not among these messages.)
\<close>

theorem commands_framed:
  assumes "e_Type env \<noteq> ''connected''"
  shows "\<exists>es. events (dispatch E B order valid fresh env r) h =
      (if e_Type env \<in> set pool_types then EvExt (EvAcquire (e_Type env)) # es @ [EvExt EvRelease] else es) \<and>
    filter is_slot es = [] \<and>
    (\<forall>b m. EvSend b m \<in> set es \<longrightarrow> om_CommandID m = e_CommandID env \<and>
       om_RequestID m = cx_RequestID (commandContext valid fresh Background env) \<and>
       om_TraceID m = cx_TraceID (commandContext valid fresh Background env))"
proof -
  let ?c = "commandContext valid fresh Background env"
  have "framed ?c (e_Type env) (events (dispatch E B order valid fresh env r) h)"
    using does_events [OF dispatch_does [of E B order valid fresh env r]] assms by (simp add: dispatchContext_def)
  then obtain es where "events (dispatch E B order valid fresh env r) h =
      (if e_Type env \<in> set pool_types then EvExt (EvAcquire (e_Type env)) # es @ [EvExt EvRelease] else es)" "list_all (own ?c) es"
    by (auto simp: framed_def split: if_splits)
  moreover from this(2) have "filter is_slot es = []" by (rule own_no_slot)
  moreover have "cx_Command ?c = Some (e_CommandID env)" by (simp add: commandContext_def Let_def)
  ultimately show ?thesis by (auto simp: list_all_iff own_def)
qed

theorem commands_framed_witness:
  "\<exists>m. events (dispatch calm_host idle_boot [] (\<lambda>_. True) ''j'' ping idle_runner) [] = [EvSend False m] \<and>
     om_Type m = ''deployment_status'' \<and> om_CommandID m = ''c-7'' \<and> om_RequestID m = ''r-1''"
proof -
  have "e_Type ping \<noteq> ''connected''" "e_Type ping \<notin> set pool_types" by (simp_all add: ping_def pool_types_def)
  with commands_framed [of ping calm_host idle_boot "[]" "\<lambda>_. True" "''j''" idle_runner "[]"]
  have "\<forall>b m. EvSend b m \<in> set (events (dispatch calm_host idle_boot [] (\<lambda>_. True) ''j'' ping idle_runner) []) \<longrightarrow>
     om_CommandID m = ''c-7'' \<and> om_RequestID m = ''r-1''"
    by (simp add: ping_def commandContext_def Let_def)
  then show ?thesis unfolding ping_sends by auto
qed

text \<open>
  Every deploy command has exactly one outcome in the log: a payload that does not parse and a conflict with a running
  deployment of the stack log \<open>deployment.failed\<close> with their step and nothing else; a duplicate logs nothing; an admitted
  deployment logs its start and then its success, or its failure with the step.
\<close>

theorem deploy_logged_once:
  "\<exists>step ok. filter (\<lambda>e. \<not> not_log e) (events (handle_deploy E order ctx env states) h) =
     (case fst (admit order ctx env (UnixNano E (h @ [EvExt (EvAcquire ''deploy'')]) div 1000000000) states) of
        Invalid e \<Rightarrow> [EvDeployLog ''deployment.failed'' ''parse'']
      | Duplicate \<Rightarrow> []
      | Conflict c \<Rightarrow> [EvDeployLog ''deployment.failed'' ''conflict'']
      | Admitted spec \<Rightarrow> [EvDeployLog ''deployment.started'' [],
          if ok then EvDeployLog ''deployment.succeeded'' [] else EvDeployLog ''deployment.failed'' step])"
  (is "\<exists>step ok. ?logs = ?want step ok")
proof -
  let ?h = "h @ [EvExt (EvAcquire ''deploy'')]"
  let ?v = "fst (admit order ctx env (UnixNano E ?h div 1000000000) states)"
  obtain es where es: "final_hist (deploy_body E ctx env ?v) ?h = ?h @ es"
    and log: "\<exists>step. filter (\<lambda>e. \<not> not_log e) es = (case ?v of
       Invalid e \<Rightarrow> [EvDeployLog ''deployment.failed'' ''parse'']
     | Duplicate \<Rightarrow> []
     | Conflict c \<Rightarrow> [EvDeployLog ''deployment.failed'' ''conflict'']
     | Admitted spec \<Rightarrow> [EvDeployLog ''deployment.started'' [], (case result (deploy_body E ctx env ?v) ?h of
         None \<Rightarrow> EvDeployLog ''deployment.succeeded'' [] | Some _ \<Rightarrow> EvDeployLog ''deployment.failed'' step)])"
    using deploy_body_logs [of E ctx env ?v] unfolding does_def by blast
  have "events (handle_deploy E order ctx env states) h = EvExt (EvAcquire ''deploy'') # es @ [EvExt EvRelease]"
    using es by (simp add: handle_deploy_def run_simps split_def Let_def)
  then have f: "?logs = filter (\<lambda>e. \<not> not_log e) es" by (simp add: not_log_def)
  show ?thesis
  proof (cases "result (deploy_body E ctx env ?v) ?h")
    case None
    with log have "\<exists>step. ?logs = ?want step True" unfolding f by (cases ?v) simp_all
    then show ?thesis by blast
  next
    case (Some e)
    with log have "\<exists>step. ?logs = ?want step False" unfolding f by (cases ?v) simp_all
    then show ?thesis by blast
  qed
qed

text \<open>A message whose type has no case does nothing.\<close>

lemma unknown_ignored:
  "e_Type env \<notin> fst ` set (stateful E B order ctx env r) \<union> fst ` set (stateless E B ctx env r) \<Longrightarrow>
   ctx = dispatchContext valid fresh Background env \<Longrightarrow> dispatch E B order valid fresh env r = ret r"
  by (simp add: dispatch_def Let_def map_of_eq_None_iff [THEN iffD2])

end
