(* ===== verification/Loops.thy ===== *)
theory Loops
  imports Heartbeat Db_Observer Net_Monitor Dispatcher
begin

text \<open>
  The background loops that main.go starts: a ticker against the context of the runner, with one cycle of the component per
  tick and a job id of its own for each. What the \<open>select\<close> of a loop receives is the list it runs over; the state that a
  loop keeps between its cycles is passed on.
\<close>

datatype received = Tick string | Done

fun ticker_loop :: "(string \<Rightarrow> 's \<Rightarrow> 's prog) \<Rightarrow> received list \<Rightarrow> 's \<Rightarrow> 's prog" where
  "ticker_loop cycle [] s = ret s"
| "ticker_loop cycle (Done # _) s = ret s"
| "ticker_loop cycle (Tick job # rs) s = do { s' \<leftarrow> cycle job s; ticker_loop cycle rs s' }"

definition heartbeat_loop :: "host \<Rightarrow> probes \<Rightarrow> string \<Rightarrow> received list \<Rightarrow> beat \<Rightarrow> beat prog" where
  "heartbeat_loop E pr version = ticker_loop (\<lambda>job b. do {
     r \<leftarrow> heartbeat_cycle E pr (cycleContext job Background) version b;
     ret (snd r)
   })"

text \<open>The observer reports once before it waits for the first tick.\<close>

definition startDatabaseObserver :: "host \<Rightarrow> string \<Rightarrow> received list \<Rightarrow> sizecache \<Rightarrow> sizecache prog" where
  "startDatabaseObserver E job0 rs cache = do {
     c \<leftarrow> sendDatabaseSync E (cycleContext job0 Background) cache;
     ticker_loop (\<lambda>job. sendDatabaseSync E (cycleContext job Background)) rs c
   }"

definition nm_Run :: "host \<Rightarrow> received list \<Rightarrow> rtable \<Rightarrow> rtable prog" where
  "nm_Run E = ticker_loop (\<lambda>job. nm_check E)"

section \<open>One cycle per tick\<close>

text \<open>The ticks a loop receives before its context ends.\<close>

fun ticks :: "received list \<Rightarrow> nat" where
  "ticks [] = 0"
| "ticks (Done # _) = 0"
| "ticks (Tick job # rs) = Suc (ticks rs)"

lemma ticker_loop_counts:
  assumes "\<And>job s. does (cycle job s) (\<lambda>s' es. length (filter P es) = 1 \<and> n s' = Suc (n s))"
  shows "does (ticker_loop cycle rs s) (\<lambda>s' es. length (filter P es) = ticks rs \<and> n s' = n s + ticks rs)"
proof (induction rs arbitrary: s)
  case (Cons r rs)
  show ?case
  proof (cases r)
    case (Tick job)
    have "does (State_Monad.bind (cycle job s) (ticker_loop cycle rs))
       (\<lambda>s' es. length (filter P es) = Suc (ticks rs) \<and> n s' = n s + Suc (ticks rs))"
      by (rule does_bind [OF assms], rule does_mono [OF Cons.IH]) auto
    then show ?thesis using Tick by simp
  qed (auto intro!: does_ret)
qed (auto intro!: does_ret)

lemma ticker_loop_emits: "(\<And>job s. emits P (cycle job s)) \<Longrightarrow> emits P (ticker_loop cycle rs s)"
  by (induction cycle rs s rule: ticker_loop.induct) (auto intro!: emits_intros)

definition is_heartbeat :: "event \<Rightarrow> bool" where
  "is_heartbeat e = (case e of EvSend b m \<Rightarrow> om_Type m = ''heartbeat'' | _ \<Rightarrow> False)"

lemma synced_no_heartbeat: "filter is_heartbeat (map (EvSend False) (synced r)) = []"
proof -
  have "om_Type m \<noteq> ''heartbeat''" if "m \<in> set (sync_messages c)" for m c
    using that by (auto simp: sync_messages_def Let_def split: if_splits)
  then show ?thesis by (auto simp: synced_def is_heartbeat_def filter_empty_conv split: sum.splits)
qed

lemma heartbeat_cycle_counts:
  "does (heartbeat_cycle E pr ctx version b) (\<lambda>r es. length (filter is_heartbeat es) = 1 \<and> hb_count (snd r) = Suc (hb_count b))"
proof (rule does_conj)
  have "filter is_heartbeat pre = []" if "list_all no_message pre" for pre
    using that by (auto simp: list_all_iff filter_empty_conv is_heartbeat_def no_message_def split: event.splits)
  then show "does (heartbeat_cycle E pr ctx version b) (\<lambda>r es. length (filter is_heartbeat es) = 1)"
    by (intro does_mono [OF heartbeat_does]) (auto simp: synced_no_heartbeat is_heartbeat_def)
  show "does (heartbeat_cycle E pr ctx version b) (\<lambda>r es. hb_count (snd r) = Suc (hb_count b))"
    unfolding heartbeat_cycle_def wsSend_def split_def
    by (intro does_bind_emits [OF metrics_quiet] does_bind_observe does_bind_emits [OF stats_quiet] does_bind_emit
      does_bind [OF sync_containers_does] does_ret) simp
qed

text \<open>
  The heartbeat loop sends exactly one heartbeat per tick until the runner shuts down, and numbers
  its cycles without a gap, so that every third one carries the figures of the containers.
\<close>

theorem heartbeats_counted:
  "length (filter is_heartbeat (events (heartbeat_loop E pr version rs b) h)) = ticks rs \<and>
   hb_count (result (heartbeat_loop E pr version rs b) h) = hb_count b + ticks rs"
proof -
  have "does (do { r \<leftarrow> heartbeat_cycle E pr (cycleContext job Background) version s; ret (snd r) })
     (\<lambda>s' es. length (filter is_heartbeat es) = 1 \<and> hb_count s' = Suc (hb_count s))" for job s
    by (rule does_bind [OF heartbeat_cycle_counts]) (auto intro!: does_ret)
  from does_events [OF ticker_loop_counts [of _ is_heartbeat hb_count, OF this]] show ?thesis unfolding heartbeat_loop_def .
qed

text \<open>The messages of the loops belong to no command: they carry no ids.\<close>

lemma observer_anonymous:
  "EvSend b m \<in> set (events (startDatabaseObserver E job0 rs cache) h) \<Longrightarrow> om_CommandID m = [] \<and> om_RequestID m = [] \<and> om_TraceID m = []"
proof -
  have o: "own (cycleContext job Background) e \<Longrightarrow> own Background e" for job e
    by (cases e) (simp_all add: own_def cycleContext_def Background_def)
  have s: "emits (own Background) (sendDatabaseSync E (cycleContext job Background) c)" for job c
    by (rule emits_mono [OF sync_own o])
  have "emits (own Background) (startDatabaseObserver E job0 rs cache)"
    unfolding startDatabaseObserver_def by (intro emits_intros s ticker_loop_emits)
  then have "list_all (own Background) (events (startDatabaseObserver E job0 rs cache) h)" by (simp add: emits_final)
  then show "EvSend b m \<in> set (events (startDatabaseObserver E job0 rs cache) h) \<Longrightarrow> ?thesis"
    by (auto simp: list_all_iff own_def Background_def)
qed

end
