(* ===== verification/Handler_Pool.thy ===== *)
theory Handler_Pool
  imports Dispatcher Ws_Client Heartbeat
begin

text \<open>
  The pool of handler slots and the samples of runner.stats (runner_stats.go). The slots are taken by the read loop, one
  message at a time, and given back by the handlers; the counter of waits is read and reset by the sampler. The step
  relation \<open>pstep\<close> interleaves the three. The memory and goroutine figures of the Go runtime and the counters of the Monitor
  SDK are arguments.
\<close>

section \<open>The pool\<close>

definition pool_size :: nat where
  "pool_size = 50"

text \<open>The number of values in the channel \<open>handlerSem\<close>, and \<open>handlerSemWaits\<close>.\<close>

record pool =
  p_sem :: nat
  p_waits :: "64 word"

text \<open>The send on the channel, absent when it blocks; \<open>acquireHandler\<close> tries it, and counts before it waits.\<close>

definition sem_send :: "pool \<Rightarrow> pool option" where
  "sem_send p = (if p_sem p < pool_size then Some (p\<lparr>p_sem := p_sem p + 1\<rparr>) else None)"

definition acquireHandler :: "pool \<Rightarrow> bool \<times> pool" where
  "acquireHandler p = (case sem_send p of Some q \<Rightarrow> (True, q) | None \<Rightarrow> (False, p\<lparr>p_waits := p_waits p + 1\<rparr>))"

definition releaseHandler :: "pool \<Rightarrow> pool option" where
  "releaseHandler p = (if p_sem p > 0 then Some (p\<lparr>p_sem := p_sem p - 1\<rparr>) else None)"

section \<open>Samples\<close>

record ShipperStats =
  Enqueued :: int
  Flushed :: int
  Dropped :: int
  Quarantined :: int
  Spooled :: int
  Pending :: int
  PendingBytes :: int

record runnerStats =
  QueueLen :: nat
  QueueCap :: nat
  DroppedByType :: "(string \<times> int) list"
  InflightHandlers :: nat
  SemWaits :: "64 word"
  Goroutines :: int
  HeapMB :: rat
  SDK :: ShipperStats
  SDKDropped :: int

definition sdk :: "ShipperStats \<times> int \<Rightarrow> ShipperStats \<times> int" where
  "sdk s = (fst s, sdk_total (Dropped (fst s)) (snd s))"

definition newRunnerStatsCollector :: "ShipperStats \<times> int \<Rightarrow> int" where
  "newRunnerStatsCollector s = snd (sdk s)"

text \<open>A sample with the collector's \<open>lastSDKDrops\<close>: it takes the drop counts of the client and the waits of the pool.\<close>

definition sample ::
  "64 word \<Rightarrow> int \<Rightarrow> ShipperStats \<times> int \<Rightarrow> WSClient \<Rightarrow> pool \<Rightarrow> int \<Rightarrow> runnerStats \<times> WSClient \<times> pool \<times> int" where
  "sample heapAlloc goroutines s ws p lastSDKDrops =
     (let (qlen, qcap) = QueueStats ws;
          (stats, total) = sdk s;
          (d, l) = sdk_sample total lastSDKDrops;
          (byType, ws') = TakeDrops ws in
      (\<lparr>QueueLen = qlen, QueueCap = qcap, DroppedByType = byType, InflightHandlers = p_sem p, SemWaits = p_waits p,
        Goroutines = goroutines, HeapMB = float64 heapAlloc / (1024 * 1024), SDK = stats, SDKDropped = d\<rparr>,
       ws', p\<lparr>p_waits := 0\<rparr>, l))"

definition logRunnerStats :: "runnerStats \<Rightarrow> payload" where
  "logRunnerStats s =
     [(''component'', JStr ''runner''), (''event'', JStr ''runner.stats''),
      (''queue_len'', JNum (of_nat (QueueLen s))), (''queue_cap'', JNum (of_nat (QueueCap s))),
      (''dropped'', JNum (of_int (sum_list (map snd (DroppedByType s))))),
      (''dropped_by_type'', JObj (map (\<lambda>(t, n). (t, JNum (of_int n))) (DroppedByType s))),
      (''inflight_handlers'', JNum (of_nat (InflightHandlers s))), (''sem_waits'', JNum (of_int (sint (SemWaits s)))),
      (''goroutines'', JNum (of_int (Goroutines s))), (''heap_mb'', JNum (HeapMB s)),
      (''sdk_enqueued'', JNum (of_int (Enqueued (SDK s)))), (''sdk_flushed'', JNum (of_int (Flushed (SDK s)))),
      (''sdk_dropped'', JNum (of_int (SDKDropped s))), (''sdk_dropped_total'', JNum (of_int (Dropped (SDK s)))),
      (''sdk_quarantined'', JNum (of_int (Quarantined (SDK s)))), (''sdk_spooled'', JNum (of_int (Spooled (SDK s)))),
      (''sdk_pending'', JNum (of_int (Pending (SDK s)))), (''sdk_pending_bytes'', JNum (of_int (PendingBytes (SDK s))))]"

section \<open>The read loop, the handlers and the sampler\<close>

text \<open>
  \<open>w_blocked\<close> is the command whose \<open>acquireHandler\<close> has counted and now waits; the read loop takes no further message
  meanwhile. The history: the limited commands in the order they were read, those that were started, the number of
  handlers that have ended, how often the loop was stalled, and the samples.
\<close>

record pworld =
  w_pool :: pool
  w_blocked :: "string option"
  w_collector :: int
  w_read :: "string list"
  w_started :: "string list"
  w_ended :: nat
  w_stalls :: nat
  w_samples :: "runnerStats list"

inductive pstep :: "pworld \<Rightarrow> pworld \<Rightarrow> bool" where
  read_free: "w_blocked w = None \<Longrightarrow> t \<in> set pool_types \<Longrightarrow> acquireHandler (w_pool w) = (True, p) \<Longrightarrow>
    pstep w (w\<lparr>w_pool := p, w_read := w_read w @ [t], w_started := w_started w @ [t]\<rparr>)"
| read_full: "w_blocked w = None \<Longrightarrow> t \<in> set pool_types \<Longrightarrow> acquireHandler (w_pool w) = (False, p) \<Longrightarrow>
    pstep w (w\<lparr>w_pool := p, w_blocked := Some t, w_read := w_read w @ [t], w_stalls := w_stalls w + 1\<rparr>)"
| unblock: "w_blocked w = Some t \<Longrightarrow> sem_send (w_pool w) = Some p \<Longrightarrow>
    pstep w (w\<lparr>w_pool := p, w_blocked := None, w_started := w_started w @ [t]\<rparr>)"
| handler_end: "releaseHandler (w_pool w) = Some p \<Longrightarrow> pstep w (w\<lparr>w_pool := p, w_ended := w_ended w + 1\<rparr>)"
| sampled: "sample heap g s ws (w_pool w) (w_collector w) = (x, ws', p, l) \<Longrightarrow>
    pstep w (w\<lparr>w_pool := p, w_collector := l, w_samples := w_samples w @ [x]\<rparr>)"

inductive_cases pstepE: "pstep w w'"

definition pstart :: "pworld \<Rightarrow> bool" where
  "pstart w = (w_pool w = \<lparr>p_sem = 0, p_waits = 0\<rparr> \<and> w_blocked w = None \<and> w_read w = [] \<and> w_started w = [] \<and> w_ended w = 0 \<and>
     w_stalls w = 0 \<and> w_samples w = [])"

definition pinv :: "pworld \<Rightarrow> bool" where
  "pinv w = (p_sem (w_pool w) \<le> pool_size \<and> length (w_started w) = w_ended w + p_sem (w_pool w) \<and>
     w_read w = w_started w @ (case w_blocked w of Some t \<Rightarrow> [t] | None \<Rightarrow> []) \<and>
     sum_list (map SemWaits (w_samples w)) + p_waits (w_pool w) = of_nat (w_stalls w) \<and>
     list_all (\<lambda>x. InflightHandlers x \<le> pool_size) (w_samples w))"

interpretation slots: guarded_system pstart pstep pinv
proof unfold_locales
  show "pstart w \<Longrightarrow> pinv w" for w by (simp add: pstart_def pinv_def)
  show "pinv w'" if i: "pinv w" and "pstep w w'" for w w'
    using that(2)
  proof cases
    case (sampled heap g s ws x ws' p l)
    then show ?thesis using i
      by (auto simp: pinv_def sample_def Let_def split_def add.commute split: option.splits)
  qed (use i in \<open>auto simp: pinv_def acquireHandler_def sem_send_def releaseHandler_def split: option.splits if_splits\<close>)
qed

text \<open>
  C33: The handler pool is never overdrawn and loses nothing, however reads, handlers and samples interleave: at most fifty
  limited handlers run, as many as have been started and have not ended; the commands are started in the order they were
  read, all but at most the one the read loop waits with; a waiting command can go on as soon as a slot is free; and the
  samples of runner.stats together with the counter report every stall of the read loop exactly once, modulo the width of the counter.
\<close>

theorem pool_accounts:
  assumes "pstart w0" "pstep\<^sup>*\<^sup>* w0 w"
  shows "p_sem (w_pool w) \<le> 50 \<and> length (w_started w) = w_ended w + p_sem (w_pool w) \<and>
    w_read w = w_started w @ (case w_blocked w of Some t \<Rightarrow> [t] | None \<Rightarrow> []) \<and>
    sum_list (map SemWaits (w_samples w)) + p_waits (w_pool w) = of_nat (w_stalls w) \<and>
    (\<forall>t. w_blocked w = Some t \<longrightarrow> p_sem (w_pool w) < 50 \<longrightarrow> (\<exists>w'. pstep w w' \<and> w_blocked w' = None \<and> w_started w' = w_started w @ [t]))"
proof -
  have i: "pinv w" using assms by (rule slots.reachable_inv)
  have "\<exists>w'. pstep w w' \<and> w_blocked w' = None \<and> w_started w' = w_started w @ [t]"
    if b: "w_blocked w = Some t" and free: "p_sem (w_pool w) < 50" for t
  proof -
    have "sem_send (w_pool w) = Some ((w_pool w)\<lparr>p_sem := p_sem (w_pool w) + 1\<rparr>)" using free by (simp add: sem_send_def pool_size_def)
    from unblock [OF b this] show ?thesis by force
  qed
  with i show ?thesis by (simp add: pinv_def pool_size_def)
qed

definition one_read :: pworld where
  "one_read = \<lparr>w_pool = \<lparr>p_sem = 1, p_waits = 0\<rparr>, w_blocked = None, w_collector = 0, w_read = [''deploy''], w_started = [''deploy''],
     w_ended = 0, w_stalls = 0, w_samples = []\<rparr>"

theorem pool_accounts_witness:
  "\<exists>w0. pstart w0 \<and> pstep\<^sup>*\<^sup>* w0 one_read \<and> length (w_started one_read) = w_ended one_read + p_sem (w_pool one_read)"
proof -
  let ?w = "one_read\<lparr>w_pool := \<lparr>p_sem = 0, p_waits = 0\<rparr>, w_read := [], w_started := []\<rparr>"
  have "pstep ?w (?w\<lparr>w_pool := \<lparr>p_sem = 1, p_waits = 0\<rparr>, w_read := w_read ?w @ [''deploy''], w_started := w_started ?w @ [''deploy'']\<rparr>)"
    by (rule read_free) (simp_all add: one_read_def acquireHandler_def sem_send_def pool_size_def pool_types_def)
  then have s: "pstep\<^sup>*\<^sup>* ?w one_read" by (simp add: one_read_def r_into_rtranclp)
  have i: "pstart ?w" by (simp add: pstart_def one_read_def)
  from pool_accounts [OF i s] i s show ?thesis by blast
qed

end
