(* ===== verification/Shutdown.thy ===== *)
theory Shutdown
  imports Heartbeat Ws_Client Log_Lines
begin

text \<open>
  What main.go does on SIGINT or SIGTERM: it waits for deployments, announces the shutdown, drains the send queue while the
  write pump still runs, and only then cancels the goroutines, closes the connection and reports to Monitor. Each of the two
  loops reads its own clock (milliseconds); the table of deployments and the length of the queue are read in each round.
\<close>

datatype shutact =
    SdAwait nat
  | SdSend message
  | SdSleep int
  | SdDrain nat
  | SdCancel
  | SdClose
  | SdMonitor monact

definition worker_shutdown :: message where
  "worker_shutdown = msg ''worker_shutdown'' [(''reason'', JStr ''graceful''), (''message'', JStr ''runner shutting down gracefully'')]"

definition shutdown :: "cmdctx \<Rightarrow> string \<Rightarrow> (nat \<Rightarrow> int) \<Rightarrow> (nat \<Rightarrow> dstates) \<Rightarrow> (nat \<Rightarrow> int) \<Rightarrow> (nat \<Rightarrow> nat) \<Rightarrow> shutact list option" where
  "shutdown ctx worker clock tab dclock len = (case await_deployments clock tab of
     None \<Rightarrow> None
   | Some j \<Rightarrow> (case Drain dclock len 5000 of
       None \<Rightarrow> None
     | Some k \<Rightarrow> Some ([SdAwait j, SdSend (stampIDs ctx worker_shutdown), SdSleep 2000, SdDrain k, SdCancel, SdClose] @
         map SdMonitor (telemetry_Shutdown worker ''signal''))))"

text \<open>
  C34: The shutdown ends and does its steps in order. When each round of the wait sleeps for two seconds and each round of the
  drain for ten milliseconds, it returns after at most 31 and 502 rounds: it has seen no deployment in progress or sixty
  seconds have passed before it announces the shutdown; the queue was empty or five seconds had passed before it cancels
  the goroutines; the connection is closed after that, and Monitor hears of the end and is flushed last.
\<close>

theorem shutdown_ends:
  assumes "clock 0 \<le> clock 1" "\<And>i. 1 \<le> i \<Longrightarrow> clock i + 2000 \<le> clock (Suc i)"
    and "dclock 0 \<le> dclock 1" "\<And>i. 1 \<le> i \<Longrightarrow> dclock i + 10 \<le> dclock (Suc i)"
  shows "\<exists>j k. j \<le> 31 \<and> k \<le> 502 \<and> shutdown ctx worker clock tab dclock len =
      Some ([SdAwait j, SdSend (stampIDs ctx worker_shutdown), SdSleep 2000, SdDrain k, SdCancel, SdClose] @
        map SdMonitor (telemetry_Shutdown worker ''signal'')) \<and>
    (\<not> hasActive (tab j) \<or> clock 0 + 60000 \<le> clock j) \<and> (\<forall>l. 1 \<le> l \<longrightarrow> l < j \<longrightarrow> hasActive (tab l)) \<and>
    (len k = 0 \<or> dclock 0 + 5000 \<le> dclock k) \<and> last (the (shutdown ctx worker clock tab dclock len)) = SdMonitor MFlush"
proof -
  obtain j where j: "j \<le> 31" "await_deployments clock tab = Some j" "\<not> hasActive (tab j) \<or> clock 0 + 60000 \<le> clock j"
    "\<forall>l. 1 \<le> l \<longrightarrow> l < j \<longrightarrow> hasActive (tab l)"
    using shutdown_wait_ends [OF assms(1,2), of tab] by blast
  obtain k where k: "k \<le> nat (5000 div 10) + 2" "Drain dclock len 5000 = Some k" "len k = 0 \<or> dclock 0 + 5000 \<le> dclock k"
    using drain_returns [OF assms(3,4), of 5000 len] by blast
  have "shutdown ctx worker clock tab dclock len = Some ([SdAwait j, SdSend (stampIDs ctx worker_shutdown), SdSleep 2000, SdDrain k, SdCancel, SdClose] @
      map SdMonitor (telemetry_Shutdown worker ''signal''))"
    using j(2) k(2) by (simp add: shutdown_def)
  with j k show ?thesis by (intro exI [of _ j] exI [of _ k]) (simp add: telemetry_Shutdown_def)
qed

theorem shutdown_ends_witness:
  "\<exists>j k. j \<le> 31 \<and> k \<le> 502 \<and> shutdown \<lparr>cx_Command = None, cx_RequestID = [], cx_TraceID = [], cx_JobID = []\<rparr> ''w'' (\<lambda>i. 2000 * int i) (\<lambda>_. []) (\<lambda>i. 10 * int i) (\<lambda>_. 3) =
      Some ([SdAwait j, SdSend worker_shutdown, SdSleep 2000, SdDrain k, SdCancel, SdClose] @ map SdMonitor (telemetry_Shutdown ''w'' ''signal'')) \<and> 500 \<le> k"
  using shutdown_ends [of "\<lambda>i. 2000 * int i" "\<lambda>i. 10 * int i" "\<lparr>cx_Command = None, cx_RequestID = [], cx_TraceID = [], cx_JobID = []\<rparr>" "''w''" "\<lambda>_. []" "\<lambda>_. 3"]
  by (force simp: stampIDs_def)

end
