(* ===== verification/Spec2Isabelle.thy ===== *)
theory Spec2Isabelle
  imports Recreate Executor Container_Commands Ws_Client Deploy_Admission Db_Inflight Backup_Chain Host_Commands
    Exec_Sessions Telemetry Net_Monitor Log_Streamer Db_Observer Heartbeat Startup
    Setup Log_Lines Dashboard Loops Handler_Pool Shutdown
begin

text \<open>
  A verification development for the Lattice runner, the agent that runs on a worker host,
  takes commands from the orchestrator over a WebSocket, carries them out with the Docker
  daemon, and reports back.

  \<^bold>\<open>The program and its parts.\<close> main.go dispatches each command to a handler in a goroutine of its
  own; most of them take one of fifty slots of a pool (runner_stats.go). Deployments go through an admission table (main.go) and the executor (deploy/), which
  locks the containers of the specification, cleans up, runs one of the strategies rolling,
  blue-green and canary on the Docker client (docker/docker.go), and verifies the result. Container,
  database, exec and host commands call the client directly, under container locks or under the
  table of database operations (db_inflight.go). Snapshots go from a dump in a container
  (docker/snapshot.go) through a pipeline (snapshot_pipeline.go) to a destination (backup/); the scheduler
  (scheduler/) starts them by cron expressions. Background loops send heartbeats with metrics
  (metrics/), container states and the state of the databases (database_observer.go), forward
  container logs (docker/logstreamer.go) and repair networks (docker/netmonitor.go). Replies go through the send queue
  of the WebSocket client (client/websocket.go); log lines go to standard error and to Monitor through telemetry/. cmd/setup.go writes the
  configuration and installs the service, and web/ serves a page on the local host.

  \<^bold>\<open>How the code is modelled.\<close> A Go function that talks to the outside is a program of the state
  monad over the history of events (theory Host). The daemon, the clock, the file system, the
  other processes and the other goroutines are the parameter \<open>host\<close>: each answer is a
  function of the history so far, so a theorem for every host covers every behaviour of the daemon, a
  failure at any request, and interference between any two requests. A program records every
  request together with its answer. Errors are values (\<open>goerr\<close>, a format with its arguments); a function
  that returns a value and an error is a sum. Go maps are association lists, and ranging over one visits
  the entries in an order chosen by the host. Tables shared by several goroutines are
  records passed explicitly to their critical sections, which a step relation interleaves.
  Unsigned counters are 64-bit words.

  \<^bold>\<open>The theories.\<close>
  \<^item> Prelude: Go's formatted text, JSON, strings, strconv and map order, with their lemmas.
  \<^item> Transitions: the locales for step relations (\<open>guarded_system\<close>, \<open>terminating_system\<close>, \<open>refined_system\<close>) and the loop with a deadline.
  \<^item> Host: the host, the events, the program monad, and three logics for programs: weakest preconditions,
    \<open>does\<close> (result and events of a run) and \<open>track\<close> (a monitor that accepts every event).
  \<^item> Names (validate.go, parts of docker/ and deploy/): the allow lists, the bind-mount guard, generated and canonical container names.
  \<^item> Docker_Client (docker/docker.go): the requests, lookups, and the creation of a container from its specification; Recreate: \<open>GracefulRecreate\<close>.
  \<^item> Deploy_Spec, Rolling, Blue_Green, Canary, Locks, Executor (deploy/): specification and validation, the three strategies, the lock table, and \<open>Execute\<close> with
    clean-up and verification. Deploy_Parse: the decoding of a specification; Deploy_Admission: the deploy command and its table.
  \<^item> Replies (command_context.go and the senders of main.go): contexts, ids and reply payloads; Container_Commands, Host_Commands, Exec_Sessions, Db_Commands: the handlers of main.go.
  \<^item> Dispatcher (the switch of main.go): the shared state, and the handler of each type of message; Handler_Pool (runner_stats.go): slots and samples;
    Loops: the background loops with their ticks; Shutdown (the end of main.go): its sequence.
  \<^item> Database (docker/database.go), Db_Inflight (db_inflight.go), Snapshot (docker/snapshot.go, snapshot_pipeline.go), Drive (backup/gdrive.go), Backup (the rest of backup/), Scheduler (scheduler/): managed
    databases; Db_Observer (database_observer.go): their reports. Backup_Chain: local files as a history of writes, and the way of a dump through them.
  \<^item> Ws_Client (client/websocket.go): queue, pumps and reconnects; Telemetry (telemetry/): classification and limiter of log lines; Log_Lines (telemetry/): the text of a line and the
    events of panics, crashes, start and stop.
  \<^item> Log_Streamer (docker/logstreamer.go), Net_Monitor (docker/netmonitor.go), Metrics (metrics/collector.go and \<open>ContainerStats\<close>), Heartbeat
    (the loops of main.go, runner_stats.go), Startup (config/config.go and the start in main.go), Setup (cmd/setup.go), Dashboard (web/server.go).

  \<^bold>\<open>What is proved.\<close> Safety of the changes to containers: a recreate or a strategy removes an old container only
  after its replacement was seen running, and a failure starts again what it stopped; deployments act only
  under their locks, which exclude each other, never deadlock and are released; creation keeps
  containers unprivileged and off blocked paths; the clean-up, the volume purge and the network repair touch only what they
  may; an upgrade runs only a script with the expected hash; scripts for smbclient and queries to Google Drive cannot be broken out of;
  the dashboard only reads. Completeness of reports: a
  deployment that succeeds has started every replica; every database command is answered
  exactly once with a final phase; every message a command sends carries the ids of the command; heartbeats and database reports name everything listed; a
  snapshot reported as stored is the whole dump. Invariants of shared tables in all reachable
  states: locks, admission, in-flight database operations (which refine one lock per name), schedule, send
  queue, exec sessions, log streams and handler slots. Round trips: specifications, derived names, exec output, the log of
  a container over connections cut anywhere, the attributes of a log line, the configuration the setup writes and the runner loads, and, from end to
  end, a database dump that is stored on Drive and restored (the theorem of this theory). Exact characterisations of the path guard and of cron expressions. Termination and
  bounds of waits, percentages, the limiter and the shutdown. Several theorems show where the code departs from its
  comments, such as the clean-up of running replicas, a canary that is never promoted, a stack
  reopened before its rollback has ended, exec sessions that cannot be closed, and a setup dialogue that never
  ends on a closed input.

  \<^bold>\<open>Bounds.\<close> Loops with a number of rounds in the source (verification, canary, health gate, lock wait,
  removal attempts, Docker attempts) recurse on that number. Loops that end by a clock (the drain and the wait at shutdown) are
  partial functions, proved to return when each round takes the time it sleeps, and so is the question for the token, proved to return exactly when one is entered.
  The pages of a lookup on Drive are bounded by the pages that can be asked for before the context ends, a parameter (\<open>PageBudget\<close>): the request after them is answered by the error of the context. The
  log frames recurse on the bytes left. The reconnect loops are step relations or run over the connections given.

  \<^bold>\<open>Assumptions.\<close> Container ids have at least twelve characters, and an inspect answer has its
  state and configuration, as Docker guarantees. Log lines are not events, with the exception of
  the deployment log. Text is ASCII: punctuation outside it is written in ASCII. JSON keys are spelled as the struct tags.
  \<open>float64\<close> is a rational. SHA-256, gzip, time formats, \<open>time.ParseDuration\<close> and the
  check of correlation ids are parameters. The round trip over Drive assumes what Drive and the local file system document (\<open>drive_law\<close>, \<open>file_law\<close>): a
  lookup returns the pages of the files of the name, a download the last contents, and a file is read as it was last written. A local file that was opened can be read. Negative terminal sizes are 0.

  \<^bold>\<open>Not modelled.\<close> The page of the dashboard (an HTML document with its script) and what is printed to the terminal; the
  timers behind the ticks of the loops; the recovery of a panic inside the dispatcher, whose handlers do not panic under the
  assumptions above; TLS and the deadlines of the WebSocket library; the Monitor client, the wiring of
  the log handlers and the call sites of log lines, which are read from frames of the Go runtime; the encoding of registry credentials;
  the figures of the Go runtime, which are arguments.
\<close>

section \<open>From a snapshot to its restore\<close>

text \<open>
  C3: A database is restored from exactly what was dumped. A snapshot of a database to Google Drive that is reported as
  stored (and whose deletions of duplicates succeeded) has dumped the database completely; whatever else happens in
  between, as long as the files of the drive stay as they are, a restore command for this name hands to the database nothing but
  the bytes of that dump, with a clean end; and a restore that is reported as completed has handed over all of them.
  This spans the dump, the compression, the staged file, the lookup and upload on Drive, the download, the decompression and
  the handler of the command.
\<close>

theorem snapshot_restore_round_trip:
  assumes "drive_law E d0 f" and "gzip_law E" and "file_law E" and "distinct (map fst (drive_files d0 h))"
    and "result (drive_snapshot E cid engine dbName user password f name) h = Inr sz"
    and "deletes_done (events (drive_snapshot E cid engine dbName user password f name) h)"
    and "h1 = final_hist (drive_snapshot E cid engine dbName user password f name) h @ gs"
    and "drive_files d0 h1 = drive_files d0 (final_hist (drive_snapshot E cid engine dbName user password f name) h)"
    and "drive_payload (e_Payload env) f name"
  shows "\<exists>x. dump_complete x (events (drive_snapshot E cid engine dbName user password f name) h) \<and>
    list_all (given x) (events (handle_db_restore E ctx env) h1) \<and>
    ((\<exists>e\<in>set (events (handle_db_restore E ctx env) h1). reports_restored e) \<longrightarrow>
       (\<exists>i k. EvExt (EvExecInput i (x, None) (k, None)) \<in> set (events (handle_db_restore E ctx env) h1)))"
proof -
  obtain x where x: "dump_complete x (events (drive_snapshot E cid engine dbName user password f name) h)"
      "sole f name (Gzip (svc E) x) (drive_files d0 h1)"
    using snapshot_sole [OF assms(1,3,4,5,6)] assms(8) by auto
  have "list_all (given x) (events (handle_db_restore E ctx env) h1)"
    by (rule restore_feeds [OF assms(1,3) maybeGunzip_Gzip [OF assms(2)] assms(9) x(2)])
  moreover have "fed (events (handle_db_restore E ctx env) h1)"
    by (rule does_events [OF handle_restore_fed])
  ultimately show ?thesis using x(1) unfolding fed_def by (fastforce simp: list_all_iff)
qed

theorem snapshot_restore_round_trip_witness:
  "\<exists>x. dump_complete x (events (drive_snapshot (chain_host twice ''dir'') ''0123456789ab'' ''postgres'' ''app'' ''u'' ''p'' ''dir'' ''db.gz'') []) \<and>
    list_all (given x) (events (handle_db_restore (chain_host twice ''dir'') demo_ctx chain_env)
      (final_hist (drive_snapshot (chain_host twice ''dir'') ''0123456789ab'' ''postgres'' ''app'' ''u'' ''p'' ''dir'' ''db.gz'') []))"
  using snapshot_restore_round_trip [OF chain_laws twice_run(3) chain_snapshot append_Nil2 [symmetric] refl chain_payload, of demo_ctx]
  by blast

end
